(* ===== verification/Prelude.thy ===== *)
theory Prelude
  imports Main "HOL-Library.Word" "HOL-Library.Monad_Syntax"
begin

unbundle bit_operations_syntax

text \<open>
  What every component of the model shares: machine values, pointers, and the
  conventions of the embedding.

  A C function that reads or writes the program's memory is a HOL function of type
  \<open>... \<Rightarrow> st \<Rightarrow> ('a \<times> st) option\<close>: the state is passed and returned, and
  \<open>None\<close> is an execution that C does not define or that does not return (a dangling or
  NULL dereference, a copy out of bounds, a double free, a failed \<open>assert\<close>, signed
  overflow, an endless loop). Sequencing is the option monad of the library
  (\<open>do { ... }\<close>), so every such fault is propagated.
\<close>

subsection \<open>Rule collections\<close>

named_theorems bal \<open>operations that keep every reference count and the handles in the control blocks\<close>

subsection \<open>Machine integers\<close>

type_synonym byte = "8 word"
type_synonym u16 = "16 word"
type_synonym u32 = "32 word"
type_synonym sock = "64 word"
type_synonym handle = int

text \<open>A \<open>LONG\<close> counter of the Interlocked family wraps at 32 bits.\<close>

definition i32 :: "int \<Rightarrow> int" where
  "i32 x = (x + 2 ^ 31) mod 2 ^ 32 - 2 ^ 31"

text \<open>A plain C \<open>int\<close> computation has no defined result outside its range.\<close>

definition int32 :: "int \<Rightarrow> int option" where
  "int32 x = (if - (2 ^ 31) \<le> x \<and> x < 2 ^ 31 then Some x else None)"

text \<open>The conversion of an \<open>int\<close> length to the allocator's \<open>size_t\<close> (64 bits).\<close>

definition size_t :: "int \<Rightarrow> nat" where
  "size_t n = nat (n mod 2 ^ 64)"

lemma i32_id [simp]: "- (2 ^ 31) \<le> x \<Longrightarrow> x < 2 ^ 31 \<Longrightarrow> i32 x = x"
  by (simp add: i32_def)

lemma int32_Some [simp]: "- (2 ^ 31) \<le> x \<Longrightarrow> x < 2 ^ 31 \<Longrightarrow> int32 x = Some x"
  by (simp add: int32_def)

lemma int32_SomeD: "int32 x = Some y \<Longrightarrow> y = x"
  by (simp add: int32_def split: if_splits)

lemma size_t_nonneg [simp]: "0 \<le> n \<Longrightarrow> n < 2 ^ 64 \<Longrightarrow> size_t n = nat n"
  by (simp add: size_t_def)

text \<open>Winsock's byte-order conversions on a little-endian host: \<open>htons\<close> and \<open>ntohs\<close>
  are one byte swap, \<open>htonl\<close> and \<open>ntohl\<close> another.\<close>

definition htons :: "u16 \<Rightarrow> u16" where
  "htons x = push_bit 8 x OR drop_bit 8 x"

definition htonl :: "u32 \<Rightarrow> u32" where
  "htonl x = push_bit 24 (take_bit 8 x) OR push_bit 16 (take_bit 8 (drop_bit 8 x))
     OR push_bit 8 (take_bit 8 (drop_bit 16 x)) OR drop_bit 24 x"

abbreviation "ntohs \<equiv> htons"
abbreviation "ntohl \<equiv> htonl"

lemma htons_htons [simp]: "htons (htons x) = x"
  unfolding htons_def by (rule bit_word_eqI) (auto simp: bit_simps)

lemma bit_htonl:
  assumes "n < 32"
  shows "bit (htonl x) n = bit x (if n < 8 then n + 24 else if n < 16 then n + 8
           else if n < 24 then n - 8 else n - 24)"
proof -
  consider "n < 8" | "8 \<le> n" "n < 16" | "16 \<le> n" "n < 24" | "24 \<le> n" using assms by linarith
  then show ?thesis
    by cases (use assms in \<open>auto simp: htonl_def bit_simps add.commute dest: bit_imp_le_length\<close>)
qed

lemma htonl_htonl [simp]: "htonl (htonl x) = x"
  by (rule bit_word_eqI) (auto simp: bit_htonl)

lemma htons_0 [simp]: "htons 0 = 0"
  by (simp add: htons_def)

lemma htonl_0 [simp]: "htonl 0 = 0"
  by (simp add: htonl_def)

subsection \<open>Pointers\<close>

text \<open>A pointer is NULL or a position in a numbered memory block.\<close>

datatype ptr = Null | Ptr (block: nat) (offset: int)

fun padd :: "ptr \<Rightarrow> int \<Rightarrow> ptr" where
  "padd Null n = Null"
| "padd (Ptr b i) n = Ptr b (i + n)"

lemma padd_0 [simp]: "padd p 0 = p"
  by (cases p) auto

subsection \<open>Assertions and small facts on lists and options\<close>

definition massert :: "bool \<Rightarrow> unit option" where
  "massert b = (if b then Some () else None)"

lemma massert_True [simp]: "massert True = Some ()"
  by (simp add: massert_def)

lemma massert_eq_Some [simp]: "massert b = Some u \<longleftrightarrow> b"
  by (simp add: massert_def)

definition overwrite :: "'a list \<Rightarrow> nat \<Rightarrow> 'a list \<Rightarrow> 'a list" where
  "overwrite xs i ys = take i xs @ ys @ drop (i + length ys) xs"

lemma length_overwrite [simp]:
  "i + length ys \<le> length xs \<Longrightarrow> length (overwrite xs i ys) = length xs"
  by (simp add: overwrite_def)

lemma take_overwrite_le [simp]:
  "n \<le> i \<Longrightarrow> i \<le> length xs \<Longrightarrow> take n (overwrite xs i ys) = take n xs"
  by (simp add: overwrite_def min_def)

lemma take_overwrite_upto [simp]:
  "i \<le> length xs \<Longrightarrow> take (i + length ys) (overwrite xs i ys) = take i xs @ ys"
  by (simp add: overwrite_def)

lemma take_overwrite_0 [simp]: "take (length ys) (overwrite xs 0 ys) = ys"
  by (simp add: overwrite_def)

lemma overwrite_Nil [simp]: "overwrite xs i [] = xs"
  by (simp add: overwrite_def)

lemma take_take_drop:
  "i + n \<le> m \<Longrightarrow> take n (drop i (take m xs)) = take n (drop i xs)"
  by (simp add: drop_take min_def)

end
