(* ===== verification/World.thy ===== *)
theory World
  imports Prelude
begin

text \<open>
  The data of the program (the control block of a link, \<open>ncb_t\<close>, and the request packet,
  \<open>packet_t\<close>), the program's memory, and its boundary: everything it calls that is not
  part of the repository (Windows, Winsock, the object manager of \<open>libnsp\<close>, and the
  functions a user of the library registers).

  The boundary is a parameter, the record \<open>env\<close>: the environment answers each call as a
  function of the whole history of calls and events so far, so nothing is assumed about
  it that a hypothesis of a theorem does not say. The history is the field \<open>trace\<close> of the
  state.
\<close>

subsection \<open>Enumerations of the headers\<close>

datatype proto_type = kProto_Unknown | kProto_IP | kProto_UDP | kProto_TCP | kProto_PIPE

datatype pkt_type = kSend | kRecv | kSyn | kConnect | kPipe | kUnknown

datatype page_style = kNoAccess | kVirtualHeap | kNonPagedPool

text \<open>The numbers C gives the protocols; \<open>kProto_MaximumId\<close> is 4.\<close>

fun proto_id :: "proto_type \<Rightarrow> int" where
  "proto_id kProto_Unknown = -1"
| "proto_id kProto_IP = 0"
| "proto_id kProto_UDP = 1"
| "proto_id kProto_TCP = 2"
| "proto_id kProto_PIPE = 3"

lemma proto_id_inj [simp]: "proto_id a = proto_id b \<longleftrightarrow> a = b"
  by (cases a; cases b) auto

instantiation proto_type :: linorder
begin

definition less_eq_proto_type :: "proto_type \<Rightarrow> proto_type \<Rightarrow> bool" where
  "less_eq_proto_type a b \<longleftrightarrow> proto_id a \<le> proto_id b"

definition less_proto_type :: "proto_type \<Rightarrow> proto_type \<Rightarrow> bool" where
  "less_proto_type a b \<longleftrightarrow> proto_id a < proto_id b"

instance
  by standard (auto simp: less_eq_proto_type_def less_proto_type_def
      dest: antisym [of "proto_id _" "proto_id _"])

end

subsection \<open>Addresses, protocol templates, control blocks and packets\<close>

record sockaddr_in =
  sin_family :: int
  sin_port :: u16
  sin_addr :: u32

definition sockaddr_zero :: sockaddr_in where
  "sockaddr_zero = \<lparr>sin_family = 0, sin_port = 0, sin_addr = 0\<rparr>"

text \<open>A function pointer is a number, 0 for NULL; what it computes is up to \<open>env\<close>.\<close>

type_synonym fptr = nat

record tst_t =
  tst_cb :: int
  builder :: fptr
  parser :: fptr

text \<open>
  The sender queue \<open>tcp_sender_cache_head\<close> is the sequence of the packets linked into
  it, \<open>None\<close> while the list head is the zero bytes of \<open>memset\<close>. The lock is \<open>None\<close> while
  it is not initialised and otherwise its recursion count.
\<close>

record ncb_t =
  hld :: handle
  sockfd :: sock
  proto_type :: proto_type
  local_addr :: sockaddr_in
  remote_addr :: sockaddr_in
  nis_callback :: fptr
  ncb_flag :: u32
  connected :: u32
  mreq :: "nat option"
  rcvtimeo :: "int \<times> int"
  sndtimeo :: "int \<times> int"
  iptos :: int
  attr :: u32
  context_ptr :: int
  prcontext :: int
  lb_data :: ptr
  lb_cpy_offset :: int
  lb_length :: int
  tcp_sender_cache_head :: "nat list option"
  tcp_sender_list_size :: int
  tcp_sender_locker :: "nat option"
  tcp_write_pending :: int
  tcp_tst :: tst_t
  mss :: int
  ncb_ctx :: ptr
  ncb_ctx_size :: int
  source_mac :: "byte list"

text \<open>
  The fields carry the names of the C structures without their final underscore (Isabelle
  reserves it), \<open>type_\<close> being \<open>pkt_kind\<close>. In \<open>packet_t\<close>, \<open>irp\<close> and \<open>grp_packets\<close> are one word of a union: the field \<open>irp\<close> below
  stands for both. The addresses share a union with the list links of a queued packet;
  they are \<open>None\<close> while the union does not hold addresses.
\<close>

record packet_t =
  pkt_kind :: pkt_type
  pkt_proto :: proto_type
  pkt_page_style :: page_style
  pkt_flag :: u32
  from_length :: int
  link :: handle
  accepted_link :: handle
  pkt_remote_addr :: "sockaddr_in option"
  pkt_local_addr :: "sockaddr_in option"
  size_for_req :: int
  size_for_translation :: int
  size_completion :: int
  analyzed_offset :: int
  ori_buffer :: ptr
  irp :: ptr
  grp_packets_cnt :: int

definition ncb_zero :: ncb_t where
  "ncb_zero = \<lparr>hld = 0, sockfd = 0, proto_type = kProto_IP, local_addr = sockaddr_zero,
     remote_addr = sockaddr_zero, nis_callback = 0, ncb_flag = 0, connected = 0, mreq = None,
     rcvtimeo = (0, 0), sndtimeo = (0, 0), iptos = 0, attr = 0, context_ptr = 0, prcontext = 0, lb_data = Null, lb_cpy_offset = 0,
     lb_length = 0, tcp_sender_cache_head = None, tcp_sender_list_size = 0,
     tcp_sender_locker = None, tcp_write_pending = 0,
     tcp_tst = \<lparr>tst_cb = 0, builder = 0, parser = 0\<rparr>, mss = 0, ncb_ctx = Null,
     ncb_ctx_size = 0, source_mac = replicate 6 0\<rparr>"

definition INVALID_SOCKET :: sock where
  "INVALID_SOCKET = - 1"

abbreviation "SOCKET_ERROR \<equiv> (- 1 :: int)"

subsection \<open>Memory objects\<close>

datatype region = Crt | Pages

datatype obj =
    Bytes region "byte list"
  | Pkt packet_t
  | PktArr "nat option list"
  | GrpArr "(ptr \<times> int) list"
  | Mreq u32 u32

type_synonym mem = "nat \<rightharpoonup> obj"

type_synonym np = "handle option"
type_synonym pp = "nat option"

subsection \<open>Calls that leave the program, events that reach its user\<close>

datatype optval =
    V_int int
  | V_byte byte
  | V_linger int int
  | V_timeval int int
  | V_sock sock
  | V_mreq u32 u32
  | V_bytes "byte list"
  | V_none

datatype ioctl = IO_AcceptEx | IO_ConnectEx | IO_GetAcceptExSockaddrs | IO_TransmitPackets
  | IO_UDP_CONNRESET

text \<open>
  The calls, grouped by the part of the platform that answers them. A completed call is
  written \<open>C_name args\<close>, an abbreviation of the group's constructor.
\<close>

datatype obj_call =
    O_objinit | O_objuninit | O_objallo | O_objrefr handle | O_objreff handle
  | O_objdefr handle | O_objclos handle

datatype mem_call =
    M_malloc nat | M_new string | M_VirtualAllocEx nat | M_VirtualCommit ptr nat
  | M_VirtualLock ptr nat | M_VirtualUnlock ptr nat | M_VirtualFree ptr | M_GetLastError
  | M_OpenProcess | M_GetProcessWorkingSetSize int
  | M_SetProcessWorkingSetSize int "64 word" "64 word" | M_CloseHandle int

datatype sock_call =
    S_WSASocket int int | S_bind sock u32 u16 | S_listen sock int
  | S_connect sock sockaddr_in | S_WSAConnect sock sockaddr_in | S_shutdown sock
  | S_closesocket sock | S_setsockopt sock int int optval | S_getsockopt sock int int
  | S_getsockname sock | S_getpeername sock | S_WSAIoctl sock ioctl | S_WSAGetLastError
  | S_errno

datatype io_call =
    I_AcceptEx sock sock nat | I_ConnectEx sock "sockaddr_in option" nat
  | I_GetAcceptExSockaddrs nat | I_WSASend sock nat "byte list"
  | I_WSARecv sock nat ptr int | I_WSARecvFrom sock nat ptr int
  | I_WSASendTo sock "byte list" sockaddr_in | I_sendto sock "byte list" sockaddr_in
  | I_TransmitPackets sock "byte list list" | I_AssociatePort sock int
  | I_PostQueuedCompletionStatus int int pp

datatype sys_call =
    Y_WSAStartup | Y_WSACleanup | Y_getnprocs | Y_CreatePort | Y_CreateThread nat
  | Y_WaitForSingleObject int | Y_atomic_try | Y_atomic_exception | Y_atomic_complete
  | Y_atomic_passed | Y_atomic_regress

datatype host_call =
    H_SendARP u32 u32 | H_GetAdaptersInfo | H_gethostbyname string | H_gethostbyaddr u32
  | H_gethostname int

datatype call = Obj obj_call | Mem mem_call | Sock sock_call | Io io_call | Sys sys_call
  | Host host_call

abbreviation "C_objinit \<equiv> Obj O_objinit"
abbreviation "C_objuninit \<equiv> Obj O_objuninit"
abbreviation "C_objallo \<equiv> Obj O_objallo"
abbreviation "C_objrefr a \<equiv> Obj (O_objrefr a)"
abbreviation "C_objreff a \<equiv> Obj (O_objreff a)"
abbreviation "C_objdefr a \<equiv> Obj (O_objdefr a)"
abbreviation "C_objclos a \<equiv> Obj (O_objclos a)"
abbreviation "C_malloc a \<equiv> Mem (M_malloc a)"
abbreviation "C_new a \<equiv> Mem (M_new a)"
abbreviation "C_VirtualAllocEx a \<equiv> Mem (M_VirtualAllocEx a)"
abbreviation "C_VirtualCommit a b \<equiv> Mem (M_VirtualCommit a b)"
abbreviation "C_VirtualLock a b \<equiv> Mem (M_VirtualLock a b)"
abbreviation "C_VirtualUnlock a b \<equiv> Mem (M_VirtualUnlock a b)"
abbreviation "C_VirtualFree a \<equiv> Mem (M_VirtualFree a)"
abbreviation "C_GetLastError \<equiv> Mem M_GetLastError"
abbreviation "C_OpenProcess \<equiv> Mem M_OpenProcess"
abbreviation "C_GetProcessWorkingSetSize a \<equiv> Mem (M_GetProcessWorkingSetSize a)"
abbreviation "C_SetProcessWorkingSetSize a b c \<equiv> Mem (M_SetProcessWorkingSetSize a b c)"
abbreviation "C_CloseHandle a \<equiv> Mem (M_CloseHandle a)"
abbreviation "C_WSASocket a b \<equiv> Sock (S_WSASocket a b)"
abbreviation "C_bind a b c \<equiv> Sock (S_bind a b c)"
abbreviation "C_listen a b \<equiv> Sock (S_listen a b)"
abbreviation "C_connect a b \<equiv> Sock (S_connect a b)"
abbreviation "C_WSAConnect a b \<equiv> Sock (S_WSAConnect a b)"
abbreviation "C_shutdown a \<equiv> Sock (S_shutdown a)"
abbreviation "C_closesocket a \<equiv> Sock (S_closesocket a)"
abbreviation "C_setsockopt a b c d \<equiv> Sock (S_setsockopt a b c d)"
abbreviation "C_getsockopt a b c \<equiv> Sock (S_getsockopt a b c)"
abbreviation "C_getsockname a \<equiv> Sock (S_getsockname a)"
abbreviation "C_getpeername a \<equiv> Sock (S_getpeername a)"
abbreviation "C_WSAIoctl a b \<equiv> Sock (S_WSAIoctl a b)"
abbreviation "C_WSAGetLastError \<equiv> Sock S_WSAGetLastError"
abbreviation "C_errno \<equiv> Sock S_errno"
abbreviation "C_AcceptEx a b c \<equiv> Io (I_AcceptEx a b c)"
abbreviation "C_ConnectEx a b c \<equiv> Io (I_ConnectEx a b c)"
abbreviation "C_GetAcceptExSockaddrs a \<equiv> Io (I_GetAcceptExSockaddrs a)"
abbreviation "C_WSASend a b c \<equiv> Io (I_WSASend a b c)"
abbreviation "C_WSARecv a b c d \<equiv> Io (I_WSARecv a b c d)"
abbreviation "C_WSARecvFrom a b c d \<equiv> Io (I_WSARecvFrom a b c d)"
abbreviation "C_WSASendTo a b c \<equiv> Io (I_WSASendTo a b c)"
abbreviation "C_sendto a b c \<equiv> Io (I_sendto a b c)"
abbreviation "C_TransmitPackets a b \<equiv> Io (I_TransmitPackets a b)"
abbreviation "C_AssociatePort a b \<equiv> Io (I_AssociatePort a b)"
abbreviation "C_PostQueuedCompletionStatus a b c \<equiv> Io (I_PostQueuedCompletionStatus a b c)"
abbreviation "C_WSAStartup \<equiv> Sys Y_WSAStartup"
abbreviation "C_WSACleanup \<equiv> Sys Y_WSACleanup"
abbreviation "C_getnprocs \<equiv> Sys Y_getnprocs"
abbreviation "C_CreatePort \<equiv> Sys Y_CreatePort"
abbreviation "C_CreateThread a \<equiv> Sys (Y_CreateThread a)"
abbreviation "C_WaitForSingleObject a \<equiv> Sys (Y_WaitForSingleObject a)"
abbreviation "C_atomic_try \<equiv> Sys Y_atomic_try"
abbreviation "C_atomic_exception \<equiv> Sys Y_atomic_exception"
abbreviation "C_atomic_complete \<equiv> Sys Y_atomic_complete"
abbreviation "C_atomic_passed \<equiv> Sys Y_atomic_passed"
abbreviation "C_atomic_regress \<equiv> Sys Y_atomic_regress"
abbreviation "C_SendARP a b \<equiv> Host (H_SendARP a b)"
abbreviation "C_GetAdaptersInfo \<equiv> Host H_GetAdaptersInfo"
abbreviation "C_gethostbyname a \<equiv> Host (H_gethostbyname a)"
abbreviation "C_gethostbyaddr a \<equiv> Host (H_gethostbyaddr a)"
abbreviation "C_gethostname a \<equiv> Host (H_gethostname a)"

datatype event =
    EvPreClose handle int
  | EvClosed handle
  | EvRecv handle int "byte list"
  | EvPipe handle int "byte list"
  | EvAccepted handle handle
  | EvConnected handle
  | EvUdpRecv handle int "byte list" u16 u32
  | EvArp handle u32 u32 "byte list" "byte list"
  | EvLog string

datatype act = Call call int | Ev event

subsection \<open>The environment\<close>

text \<open>
  Constants of \<open>nis.h\<close> and \<open>nisdef.h\<close>, which the repository includes but does not hold.
\<close>

record nisdef =
  LINKATTR_TCP_FULLY_RECEIVE :: u32
  LINKATTR_TCP_NO_BUILD :: u32
  LINKATTR_TCP_UPDATE_ACCEPT_CONTEXT :: u32
  UDP_FLAG_BROADCAST :: u32
  UDP_FLAG_MULTICAST :: u32
  MAX_UDP_UNIT :: int
  MTU :: int
  LINK_ADDR_LOCAL :: int
  LINK_ADDR_REMOTE :: int
  INVALID_HTCPLINK :: handle
  INVALID_HUDPLINK :: handle
  NI_SETATTR :: int
  NI_GETATTR :: int
  NI_SETCTX :: int
  NI_GETCTX :: int
  NI_SETTST :: int
  NI_GETTST :: int

text \<open>
  \<open>e_sys\<close> is the value a call returns, \<open>e_val\<close>, \<open>e_val2\<close>, \<open>e_addr\<close> and
  \<open>e_addr2\<close> what it writes through out-parameters of integer or address type, \<open>e_junk\<close> the contents of fresh memory,
  \<open>e_ncb\<close> the contents of a fresh object of the object manager. A parser gets the bytes
  of a protocol header and returns its result code and the user size it found; a builder
  gets the user size and returns its code and the header it wrote; a serializer gets the
  user's data and a length and returns its code and the bytes it wrote.
\<close>

record env =
  e_sys :: "act list \<Rightarrow> call \<Rightarrow> int"
  e_val :: "act list \<Rightarrow> call \<Rightarrow> int"
  e_val2 :: "act list \<Rightarrow> call \<Rightarrow> int"
  e_addr :: "act list \<Rightarrow> call \<Rightarrow> sockaddr_in"
  e_addr2 :: "act list \<Rightarrow> call \<Rightarrow> sockaddr_in"
  e_junk :: "act list \<Rightarrow> nat \<Rightarrow> byte"
  e_ncb :: "act list \<Rightarrow> ncb_t"
  e_parser :: "fptr \<Rightarrow> byte list \<Rightarrow> int \<times> int"
  e_builder :: "fptr \<Rightarrow> int \<Rightarrow> int \<times> byte list"
  e_serializer :: "fptr \<Rightarrow> byte list option \<Rightarrow> int \<Rightarrow> int \<times> byte list"
  e_pton :: "string \<Rightarrow> u32 option"
  e_inet_addr :: "string \<Rightarrow> u32"
  e_nis :: nisdef

subsection \<open>The state of the program\<close>

datatype unload_fn = Tcp_unload | Udp_unload | Arp_unload

record epoll_object =
  epfd :: int
  actived :: bool
  thread :: int
  load_cnt :: int

record st =
  heap :: mem
  nextb :: nat
  ncbs :: "handle \<rightharpoonup> ncb_t"
  unloads :: "handle \<rightharpoonup> unload_fn"
  trace :: "act list"
  so_startup :: int
  so_protocol_initialized :: "bool list"
  io_inited :: int
  epos :: "epoll_object list option"
  divisions :: int
  current_ecr :: fptr
  fn_GetAcceptExSockaddrs :: bool
  fn_TransmitPackets :: bool

text \<open>A call leaves the program, is answered, and is recorded.\<close>

definition record_call :: "call \<Rightarrow> int \<Rightarrow> st \<Rightarrow> st" where
  "record_call c r s = s\<lparr>trace := trace s @ [Call c r]\<rparr>"

definition sysc :: "env \<Rightarrow> call \<Rightarrow> st \<Rightarrow> int \<times> st" where
  "sysc E c s = (let r = e_sys E (trace s) c in (r, record_call c r s))"

definition emit :: "event \<Rightarrow> st \<Rightarrow> st" where
  "emit e s = s\<lparr>trace := trace s @ [Ev e]\<rparr>"

subsection \<open>Memory operations of the C library\<close>

definition bytes_at :: "mem \<Rightarrow> nat \<Rightarrow> byte list option" where
  "bytes_at H b = (case H b of Some (Bytes g xs) \<Rightarrow> Some xs | _ \<Rightarrow> None)"

definition load :: "ptr \<Rightarrow> int \<Rightarrow> st \<Rightarrow> byte list option" where
  "load p n s = (case p of
     Null \<Rightarrow> (if n = 0 then Some [] else None)
   | Ptr b i \<Rightarrow> do {
       xs \<leftarrow> bytes_at (heap s) b;
       if 0 \<le> n \<and> 0 \<le> i \<and> i + n \<le> int (length xs)
       then Some (take (nat n) (drop (nat i) xs)) else None })"

definition store :: "ptr \<Rightarrow> byte list \<Rightarrow> st \<Rightarrow> st option" where
  "store p ys s = (case p of
     Null \<Rightarrow> (if ys = [] then Some s else None)
   | Ptr b i \<Rightarrow> (case heap s b of
       Some (Bytes g xs) \<Rightarrow>
         (if 0 \<le> i \<and> i + int (length ys) \<le> int (length xs)
          then Some (s\<lparr>heap := (heap s)(b \<mapsto> Bytes g (overwrite xs (nat i) ys))\<rparr>) else None)
     | _ \<Rightarrow> None))"

text \<open>\<open>memcpy\<close> and \<open>memmove\<close>: the model reads the source before it writes.\<close>

definition memcpy :: "ptr \<Rightarrow> ptr \<Rightarrow> int \<Rightarrow> st \<Rightarrow> st option" where
  "memcpy dst src n s = do { xs \<leftarrow> load src n s; store dst xs s }"

abbreviation "memmove \<equiv> memcpy"

definition alloc_obj :: "obj \<Rightarrow> st \<Rightarrow> ptr \<times> st" where
  "alloc_obj x s = (Ptr (nextb s) 0,
     s\<lparr>heap := (heap s)(nextb s \<mapsto> x), nextb := Suc (nextb s)\<rparr>)"

definition malloc :: "env \<Rightarrow> int \<Rightarrow> st \<Rightarrow> ptr \<times> st" where
  "malloc E n s = (let (r, s') = sysc E (C_malloc (size_t n)) s in
     if r = 0 then (Null, s')
     else alloc_obj (Bytes Crt (map (e_junk E (trace s)) [0..<size_t n])) s')"

definition malloc_new :: "env \<Rightarrow> string \<Rightarrow> obj \<Rightarrow> st \<Rightarrow> ptr \<times> st" where
  "malloc_new E tag x s = (let (r, s') = sysc E (C_new tag) s in
     if r = 0 then (Null, s') else alloc_obj x s')"

fun crt_obj :: "obj \<Rightarrow> bool" where
  "crt_obj (Bytes Pages xs) = False"
| "crt_obj _ = True"

definition free :: "ptr \<Rightarrow> st \<Rightarrow> st option" where
  "free p s = (case p of
     Null \<Rightarrow> Some s
   | Ptr b i \<Rightarrow> (case heap s b of
       Some x \<Rightarrow> (if i = 0 \<and> crt_obj x then Some (s\<lparr>heap := (heap s)(b := None)\<rparr>) else None)
     | None \<Rightarrow> None))"

subsection \<open>Access to packets and control blocks\<close>

definition get_pkt :: "nat \<Rightarrow> st \<Rightarrow> packet_t option" where
  "get_pkt p s = (case heap s p of Some (Pkt k) \<Rightarrow> Some k | _ \<Rightarrow> None)"

definition mod_pkt :: "nat \<Rightarrow> (packet_t \<Rightarrow> packet_t) \<Rightarrow> st \<Rightarrow> st option" where
  "mod_pkt p f s = do { k \<leftarrow> get_pkt p s; Some (s\<lparr>heap := (heap s)(p \<mapsto> Pkt (f k))\<rparr>) }"

definition mod_ncb :: "handle \<Rightarrow> (ncb_t \<Rightarrow> ncb_t) \<Rightarrow> st \<Rightarrow> st option" where
  "mod_ncb h f s = do { n \<leftarrow> ncbs s h; Some (s\<lparr>ncbs := (ncbs s)(h \<mapsto> f n)\<rparr>) }"

text \<open>
  \<open>objrefr\<close> returns the object of a handle and counts a reference, or NULL. It can only
  return an object the program still has. \<open>objreff\<close> is the same for a final reference.
\<close>

definition objref :: "env \<Rightarrow> (handle \<Rightarrow> call) \<Rightarrow> handle \<Rightarrow> st \<Rightarrow> np \<times> st" where
  "objref E c h s = (if ncbs s h = None \<or> e_sys E (trace s) (c h) = 0
     then (None, record_call (c h) 0 s)
     else (Some h, record_call (c h) (e_sys E (trace s) (c h)) s))"

abbreviation "objrefr E \<equiv> objref E C_objrefr"
abbreviation "objreff E \<equiv> objref E C_objreff"

end
