(* ===== verification/Trace.thy ===== *)
theory Trace
  imports World
begin

text \<open>
  Views of the history (the events the user saw, the references each handle holds) and
  the rules that evaluate memory operations and calls.
\<close>

subsection \<open>Events and references\<close>

fun events :: "act list \<Rightarrow> event list" where
  "events [] = []"
| "events (Ev e # t) = e # events t"
| "events (Call c r # t) = events t"

lemma events_append [simp]: "events (a @ b) = events a @ events b"
  by (induction a rule: events.induct) auto

lemma events_map_Ev [simp]: "events (map Ev es) = es"
  by (induction es) auto

text \<open>The transfers asked of the system.\<close>

fun requests :: "act list \<Rightarrow> io_call list" where
  "requests [] = []"
| "requests (Call (Io c) r # t) = c # requests t"
| "requests (a # t) = requests t"

lemma requests_append [simp]: "requests (a @ b) = requests a @ requests b"
  by (induction a rule: requests.induct) auto

lemma requests_map_Ev [simp]: "requests (map Ev es) = []"
  by (induction es) auto

text \<open>What one entry of the history does to the number of references on a handle.\<close>

fun ref_delta :: "handle \<Rightarrow> act \<Rightarrow> int" where
  "ref_delta h (Ev e) = 0"
| "ref_delta h (Call c r) = (case c of
     Obj oc \<Rightarrow> (case oc of
       O_objrefr h' \<Rightarrow> if h' = h \<and> r \<noteq> 0 then 1 else 0
     | O_objreff h' \<Rightarrow> if h' = h \<and> r \<noteq> 0 then 1 else 0
     | O_objdefr h' \<Rightarrow> if h' = h then - 1 else 0
     | _ \<Rightarrow> 0)
   | _ \<Rightarrow> 0)"

definition refcnt :: "handle \<Rightarrow> act list \<Rightarrow> int" where
  "refcnt h t = sum_list (map (ref_delta h) t)"

lemma refcnt_append [simp]: "refcnt h (a @ b) = refcnt h a + refcnt h b"
  by (simp add: refcnt_def)

lemma refcnt_Nil [simp]: "refcnt h [] = 0"
  by (simp add: refcnt_def)

lemma refcnt_Cons [simp]: "refcnt h (a # t) = ref_delta h a + refcnt h t"
  by (simp add: refcnt_def)

lemma refcnt_Ev [simp]: "refcnt h (map Ev es) = 0"
  by (induction es) auto

subsection \<open>Calls and events leave the rest of the state alone\<close>

definition emits :: "event list \<Rightarrow> st \<Rightarrow> st" where
  "emits es s = s\<lparr>trace := trace s @ map Ev es\<rparr>"

lemma emits_Nil [simp]: "emits [] s = s"
  by (simp add: emits_def)

lemma emits_emits [simp]: "emits es' (emits es s) = emits (es @ es') s"
  by (simp add: emits_def)

lemma emit_emits: "emit e s = emits [e] s"
  by (simp add: emit_def emits_def)

lemma emits_fields [simp]:
  "heap (emits es s) = heap s" "ncbs (emits es s) = ncbs s" "nextb (emits es s) = nextb s"
  "unloads (emits es s) = unloads s" "trace (emits es s) = trace s @ map Ev es"
  "epos (emits es s) = epos s" "divisions (emits es s) = divisions s"
  by (simp_all add: emits_def)

lemma record_call_fields [simp]:
  "heap (record_call c r s) = heap s" "ncbs (record_call c r s) = ncbs s"
  "nextb (record_call c r s) = nextb s" "unloads (record_call c r s) = unloads s"
  "trace (record_call c r s) = trace s @ [Call c r]"
  "epos (record_call c r s) = epos s" "divisions (record_call c r s) = divisions s"
  "so_startup (record_call c r s) = so_startup s"
  "so_protocol_initialized (record_call c r s) = so_protocol_initialized s"
  "io_inited (record_call c r s) = io_inited s"
  "current_ecr (record_call c r s) = current_ecr s"
  "fn_GetAcceptExSockaddrs (record_call c r s) = fn_GetAcceptExSockaddrs s"
  "fn_TransmitPackets (record_call c r s) = fn_TransmitPackets s"
  by (simp_all add: record_call_def)

subsection \<open>Memory\<close>

lemma get_pkt_cong: "heap s' p = heap s p \<Longrightarrow> get_pkt p s' = get_pkt p s"
  by (simp add: get_pkt_def)

lemma get_pkt_state [simp]:
  "get_pkt p (emits es s) = get_pkt p s" "get_pkt p (record_call c r s) = get_pkt p s"
  "get_pkt p (s\<lparr>ncbs := m\<rparr>) = get_pkt p s" "get_pkt p (s\<lparr>nextb := i\<rparr>) = get_pkt p s"
  "get_pkt p (s\<lparr>trace := t\<rparr>) = get_pkt p s"
  by (simp_all add: get_pkt_def)

lemma get_pkt_upd [simp]:
  "get_pkt p (s\<lparr>heap := H(p \<mapsto> Pkt k)\<rparr>) = Some k"
  "b \<noteq> p \<Longrightarrow> get_pkt p (s\<lparr>heap := H(b := x)\<rparr>) = get_pkt p (s\<lparr>heap := H\<rparr>)"
  "get_pkt p (s\<lparr>heap := heap s\<rparr>) = get_pkt p s"
  "get_pkt p (s\<lparr>heap := H, nextb := i\<rparr>) = get_pkt p (s\<lparr>heap := H\<rparr>)"
  "get_pkt p (s\<lparr>heap := H, ncbs := m\<rparr>) = get_pkt p (s\<lparr>heap := H\<rparr>)"
  "get_pkt p ((emits es s)\<lparr>heap := H\<rparr>) = get_pkt p (s\<lparr>heap := H\<rparr>)"
  "get_pkt p ((record_call c r s)\<lparr>heap := H\<rparr>) = get_pkt p (s\<lparr>heap := H\<rparr>)"
  by (simp_all add: get_pkt_def)

lemma get_pkt_heap_upd:
  "get_pkt p (s\<lparr>heap := H\<rparr>) = (case H p of Some (Pkt k) \<Rightarrow> Some k | _ \<Rightarrow> None)"
  by (simp add: get_pkt_def)

lemma get_pkt_heapD: "get_pkt p s = Some k \<Longrightarrow> heap s p = Some (Pkt k)"
  by (auto simp: get_pkt_def split: option.splits obj.splits)

lemma load_bytes:
  "heap s b = Some (Bytes g xs) \<Longrightarrow> load (Ptr b i) n s =
     (if 0 \<le> n \<and> 0 \<le> i \<and> i + n \<le> int (length xs)
      then Some (take (nat n) (drop (nat i) xs)) else None)"
  by (simp add: load_def bytes_at_def)

lemma store_bytes:
  "heap s b = Some (Bytes g xs) \<Longrightarrow> store (Ptr b i) ys s =
     (if 0 \<le> i \<and> i + int (length ys) \<le> int (length xs)
      then Some (s\<lparr>heap := (heap s)(b \<mapsto> Bytes g (overwrite xs (nat i) ys))\<rparr>) else None)"
  by (simp add: store_def)

lemma load_cong: "(\<And>b i. p = Ptr b i \<Longrightarrow> heap s' b = heap s b) \<Longrightarrow> load p n s' = load p n s"
  by (auto simp: load_def bytes_at_def split: ptr.splits)

lemma load_state [simp]:
  "load p n (emits es s) = load p n s" "load p n (record_call c r s) = load p n s"
  "load p n (s\<lparr>ncbs := m\<rparr>) = load p n s" "load p n (s\<lparr>nextb := i\<rparr>) = load p n s"
  by (auto intro: load_cong)

lemma free_bytes:
  "heap s b = Some (Bytes Crt xs) \<Longrightarrow> free (Ptr b 0) s = Some (s\<lparr>heap := (heap s)(b := None)\<rparr>)"
  by (simp add: free_def)

lemma free_pkt:
  "heap s p = Some (Pkt k) \<Longrightarrow> free (Ptr p 0) s = Some (s\<lparr>heap := (heap s)(p := None)\<rparr>)"
  by (simp add: free_def)

lemma free_Null [simp]: "free Null s = Some s"
  by (simp add: free_def)

lemma mod_ncb_Some [simp]:
  "ncbs s h = Some n \<Longrightarrow> mod_ncb h f s = Some (s\<lparr>ncbs := (ncbs s)(h \<mapsto> f n)\<rparr>)"
  by (simp add: mod_ncb_def)

lemma mod_pkt_Some [simp]:
  "get_pkt p s = Some k \<Longrightarrow> mod_pkt p f s = Some (s\<lparr>heap := (heap s)(p \<mapsto> Pkt (f k))\<rparr>)"
  by (simp add: mod_pkt_def)

text \<open>Blocks are numbered in the order they are allocated.\<close>

definition wf_heap :: "st \<Rightarrow> bool" where
  "wf_heap s \<longleftrightarrow> (\<forall>b. nextb s \<le> b \<longrightarrow> heap s b = None)"

lemma wf_heap_fresh: "wf_heap s \<Longrightarrow> heap s b = Some x \<Longrightarrow> b < nextb s"
  by (rule ccontr) (auto simp: wf_heap_def not_less)

lemma wf_heap_None: "wf_heap s \<Longrightarrow> heap s (nextb s) = None"
  by (simp add: wf_heap_def)

lemma wf_heap_state [simp]:
  "wf_heap (emits es s) = wf_heap s" "wf_heap (record_call c r s) = wf_heap s"
  "wf_heap (s\<lparr>ncbs := m\<rparr>) = wf_heap s" "wf_heap (s\<lparr>trace := t\<rparr>) = wf_heap s"
  by (simp_all add: wf_heap_def)

lemma wf_heap_upd: "wf_heap s \<Longrightarrow> b < nextb s \<Longrightarrow> wf_heap (s\<lparr>heap := (heap s)(b := x)\<rparr>)"
  by (auto simp: wf_heap_def)

lemma wf_heap_free: "wf_heap s \<Longrightarrow> wf_heap (s\<lparr>heap := (heap s)(b := None)\<rparr>)"
  by (auto simp: wf_heap_def)

end
