(* ===== verification/Os.thy ===== *)
theory Os
  imports Trace
begin

text \<open>
  \<open>os.c\<close>: blocks of virtual memory and their promotion to locked (non-paged) pages.
  Sizes are \<open>uint32_t\<close>. A block handed out by \<open>VirtualAllocEx\<close> is zero filled.
\<close>

definition PAGE_SIZE :: int where
  "PAGE_SIZE = 4096"

definition os_is_page_aligned :: "u32 \<Rightarrow> bool" where
  "os_is_page_aligned sz \<longleftrightarrow> unat sz mod 4096 = 0"

text \<open>\<open>GetCurrentProcess\<close> is the pseudo handle -1, \<open>INVALID_HANDLE_VALUE\<close> as well.\<close>

abbreviation "INVALID_HANDLE_VALUE \<equiv> (- 1 :: int)"

definition os_allocate_block :: "env \<Rightarrow> int \<Rightarrow> u32 \<Rightarrow> st \<Rightarrow> ptr \<times> st" where
  "os_allocate_block E handleProcess blockSizeCb s =
     (if \<not> os_is_page_aligned blockSizeCb then (Null, s)
      else if handleProcess = 0 \<or> blockSizeCb = 0 then (Null, s)
      else let (r, s') = sysc E (C_VirtualAllocEx (unat blockSizeCb)) s in
        if r = 0 then (Null, s')
        else alloc_obj (Bytes Pages (replicate (unat blockSizeCb) 0)) s')"

text \<open>\<open>VirtualFree\<close> releases a block of pages; on any other pointer it only fails.\<close>

definition virtual_free :: "env \<Rightarrow> ptr \<Rightarrow> st \<Rightarrow> st" where
  "virtual_free E p s = (let (r, s') = sysc E (C_VirtualFree p) s in
     case p of
       Ptr b i \<Rightarrow> (case heap s' b of
         Some (Bytes Pages xs) \<Rightarrow>
           (if r \<noteq> 0 \<and> i = 0 then s'\<lparr>heap := (heap s')(b := None)\<rparr> else s')
       | _ \<Rightarrow> s')
     | Null \<Rightarrow> s')"

definition os_free_memory_block :: "env \<Rightarrow> ptr \<Rightarrow> st \<Rightarrow> st" where
  "os_free_memory_block E MemoryBlock s =
     (if MemoryBlock \<noteq> Null then virtual_free E MemoryBlock s else s)"

definition os_unlock_and_free_virtual_pages :: "env \<Rightarrow> ptr \<Rightarrow> u32 \<Rightarrow> st \<Rightarrow> bool \<times> st" where
  "os_unlock_and_free_virtual_pages E MemoryBlock sz s =
     (if MemoryBlock \<noteq> Null then
        let (r, s1) = sysc E (C_VirtualUnlock MemoryBlock (unat sz)) s in
        (True, os_free_memory_block E MemoryBlock s1)
      else (False, s))"

definition ERROR_WORKING_SET_QUOTA :: int where "ERROR_WORKING_SET_QUOTA = 1453"
definition ERROR_NOACCESS :: int where "ERROR_NOACCESS = 998"

text \<open>
  The body of the \<open>do ... while (TRUE)\<close> of \<open>os_lock_virtual_pages\<close>, as one iteration.
  \<open>Inl\<close> leaves the loop with \<open>Successful\<close>, \<open>MemoryBlock\<close> and \<open>handleProcess\<close>;
  \<open>Inr\<close> goes round again with \<open>MemoryBlock\<close>, \<open>handleProcess\<close> and \<open>LoopFlag\<close>.
\<close>

definition lock_adjust :: "env \<Rightarrow> ptr \<Rightarrow> u32 \<Rightarrow> int \<Rightarrow> bool \<Rightarrow> st
    \<Rightarrow> ((bool \<times> ptr \<times> int) + (ptr \<times> int \<times> bool)) \<times> st" where
  "lock_adjust E blk sz hp LoopFlag s =
     (let (r, s1) = sysc E (C_GetProcessWorkingSetSize hp) s;
          mn = word_of_int (e_val E (trace s) (C_GetProcessWorkingSetSize hp));
          mx = word_of_int (e_val2 E (trace s) (C_GetProcessWorkingSetSize hp)) in
      if r = 0 then (Inl (False, blk, hp), s1)
      else let (r2, s2) = sysc E (C_SetProcessWorkingSetSize hp (mn + ucast sz) (mx + ucast sz)) s1 in
        if r2 = 0 then (Inl (False, blk, hp), s2) else (Inr (blk, hp, LoopFlag), s2))"

definition lock_iteration :: "env \<Rightarrow> ptr \<Rightarrow> u32 \<Rightarrow> int \<Rightarrow> bool \<Rightarrow> st
    \<Rightarrow> ((bool \<times> ptr \<times> int) + (ptr \<times> int \<times> bool)) \<times> st" where
  "lock_iteration E blk sz hp LoopFlag s =
     (let (r, s1) = sysc E (C_VirtualLock blk (unat sz)) s in
      if r \<noteq> 0 then (Inl (True, blk, hp), s1)
      else let (err, s2) = sysc E C_GetLastError s1 in
        if err \<noteq> ERROR_WORKING_SET_QUOTA then
          (if err = ERROR_NOACCESS \<and> LoopFlag then
             let (r3, s3) = sysc E (C_VirtualCommit blk (unat sz)) s2 in
             if r3 = 0 then (Inl (False, Null, hp), s3) else (Inr (blk, hp, False), s3)
           else (Inl (False, blk, hp), s2))
        else if hp = INVALID_HANDLE_VALUE then
          let (hp', s3) = sysc E C_OpenProcess s2 in
          if hp' = INVALID_HANDLE_VALUE then (Inl (False, blk, hp'), s3)
          else lock_adjust E blk sz hp' LoopFlag s3
        else lock_adjust E blk sz hp LoopFlag s2)"

partial_function (option) lock_loop :: "env \<Rightarrow> ptr \<Rightarrow> u32 \<Rightarrow> int \<Rightarrow> bool \<Rightarrow> st
    \<Rightarrow> ((bool \<times> ptr \<times> int) \<times> st) option" where
  "lock_loop E blk sz hp LoopFlag s =
     (case lock_iteration E blk sz hp LoopFlag s of
        (Inl out, s') \<Rightarrow> Some (out, s')
      | (Inr (blk', hp', fl'), s') \<Rightarrow> lock_loop E blk' sz hp' fl' s')"

definition lock_epilogue :: "env \<Rightarrow> (bool \<times> ptr \<times> int) \<times> st \<Rightarrow> ptr \<times> st" where
  "lock_epilogue E out = (case out of ((Successful, blk, hp), s) \<Rightarrow>
     let s1 = (if hp \<noteq> INVALID_HANDLE_VALUE then snd (sysc E (C_CloseHandle hp) s) else s) in
     if Successful then (blk, s1) else (Null, virtual_free E blk s1))"

definition os_lock_virtual_pages :: "env \<Rightarrow> ptr \<Rightarrow> u32 \<Rightarrow> st \<Rightarrow> (ptr \<times> st) option" where
  "os_lock_virtual_pages E MemoryBlock sz s =
     (if MemoryBlock = Null then
        (case os_allocate_block E (- 1) sz s of
           (Null, s1) \<Rightarrow> Some (Null, s1)
         | (blk, s1) \<Rightarrow> map_option (lock_epilogue E) (lock_loop E blk sz INVALID_HANDLE_VALUE True s1))
      else if \<not> os_is_page_aligned sz then Some (Null, s)
      else map_option (lock_epilogue E)
             (lock_loop E MemoryBlock sz INVALID_HANDLE_VALUE True s))"

end
