(* ===== verification/Packet.thy ===== *)
theory Packet
  imports Os
begin

text \<open>
  \<open>packet.c\<close>, the life of a request packet: \<open>allocate_packet\<close> and \<open>freepkt\<close>. The
  asynchronous requests that the packets carry are in \<open>Asio\<close>.
\<close>

definition packet_raw :: packet_t where
  "packet_raw = \<lparr>pkt_kind = kUnknown, pkt_proto = kProto_IP, pkt_page_style = kNoAccess,
     pkt_flag = 0, from_length = 0, link = 0, accepted_link = 0, pkt_remote_addr = None,
     pkt_local_addr = None, size_for_req = 0, size_for_translation = 0,
     size_completion = 0, analyzed_offset = 0, ori_buffer = Null, irp = Null,
     grp_packets_cnt = 0\<rparr>"

text \<open>The fields that \<open>allocate_packet\<close> sets once it has the buffer.\<close>

definition packet_init :: "handle \<Rightarrow> proto_type \<Rightarrow> pkt_type \<Rightarrow> int \<Rightarrow> page_style \<Rightarrow> ptr
    \<Rightarrow> packet_t" where
  "packet_init h proto ty cbSize style p_buffer =
     \<lparr>pkt_kind = ty, pkt_proto = proto, pkt_page_style = style, pkt_flag = 0,
      from_length = 16, link = h, accepted_link = - 1,
      pkt_remote_addr = (if proto = kProto_UDP then Some sockaddr_zero else None),
      pkt_local_addr = (if proto = kProto_UDP then Some sockaddr_zero else None),
      size_for_req = cbSize, size_for_translation = 0, size_completion = 0,
      analyzed_offset = 0, ori_buffer = p_buffer, irp = p_buffer, grp_packets_cnt = 0\<rparr>"

text \<open>
  The choice of the buffer: \<open>Some p_buffer\<close> when the packet can be built (NULL for a
  packet without data), \<open>None\<close> when the C code leaves the block by \<open>break\<close>.
\<close>

definition packet_buffer :: "env \<Rightarrow> int \<Rightarrow> page_style \<Rightarrow> st \<Rightarrow> (ptr option \<times> st) option" where
  "packet_buffer E cbSize style s =
     (if cbSize > 0 then
        (case style of
           kNonPagedPool \<Rightarrow> do {
             (b, s') \<leftarrow> os_lock_virtual_pages E Null (word_of_int cbSize) s;
             Some (if b = Null then None else Some b, s') }
         | kVirtualHeap \<Rightarrow> (let (b, s') = malloc E cbSize s in
             Some (if b = Null then None else Some b, s'))
         | kNoAccess \<Rightarrow> Some (None, s))
      else Some (if style \<noteq> kNoAccess then None else Some Null, s))"

definition allocate_packet :: "env \<Rightarrow> handle \<Rightarrow> proto_type \<Rightarrow> pkt_type \<Rightarrow> int \<Rightarrow> page_style
    \<Rightarrow> st \<Rightarrow> ((int \<times> pp) \<times> st) option" where
  "allocate_packet E h proto ty cbSize style s =
     (if h < 0 then Some ((- 1, None), s)
      else let (packet, s1) = malloc_new E ''packet_t'' (Pkt packet_raw) s in
        case packet of
          Null \<Rightarrow> Some ((- 1, None), s1)
        | Ptr p i \<Rightarrow> do {
            (buf, s2) \<leftarrow> packet_buffer E cbSize style s1;
            case buf of
              None \<Rightarrow> do { s3 \<leftarrow> free packet s2; Some ((- 1, None), s3) }
            | Some p_buffer \<Rightarrow> do {
                s3 \<leftarrow> mod_pkt p (\<lambda>_. packet_init h proto ty cbSize style p_buffer) s2;
                Some ((0, Some p), s3) } })"

definition freepkt :: "env \<Rightarrow> pp \<Rightarrow> st \<Rightarrow> st option" where
  "freepkt E packet s = (case packet of
     None \<Rightarrow> Some s
   | Some p \<Rightarrow> do {
       k \<leftarrow> get_pkt p s;
       let style = pkt_page_style k;
       s1 \<leftarrow> (case style of
         kNoAccess \<Rightarrow>
           (if grp_packets_cnt k > 0 \<and> irp k \<noteq> Null then do {
              s1 \<leftarrow> free (irp k) s;
              mod_pkt p (\<lambda>k. k\<lparr>grp_packets_cnt := 0\<rparr>) s1 }
            else free (ori_buffer k) s)
       | kNonPagedPool \<Rightarrow>
           Some (snd (os_unlock_and_free_virtual_pages E (ori_buffer k)
             (word_of_int (size_for_req k)) s))
       | kVirtualHeap \<Rightarrow> free (ori_buffer k) s);
       s2 \<leftarrow> mod_pkt p (\<lambda>k. k\<lparr>irp := Null\<rparr>) s1;
       free (Ptr p 0) s2 })"

end
