(* ===== verification/Ncb.thy ===== *)
theory Ncb
  imports Packet
begin

text \<open>
  \<open>ncb.c\<close>: initialisation of a control block, the large-block buffer of a TCP link, the
  socket options, and the events posted to the user of a link. A control block pointer is
  \<open>Some\<close> of the handle it belongs to, or \<open>None\<close> for NULL.
\<close>

abbreviation "EINVAL \<equiv> (22 :: int)"
abbreviation "ENOENT \<equiv> (2 :: int)"
abbreviation "EEXIST \<equiv> (17 :: int)"
abbreviation "ENOMEM \<equiv> (12 :: int)"
abbreviation "EINTR \<equiv> (4 :: int)"
abbreviation "EPROTOTYPE \<equiv> (136 :: int)"

definition SOL_SOCKET :: int where "SOL_SOCKET = 0xFFFF"
definition SO_RCVTIMEO :: int where "SO_RCVTIMEO = 0x1006"
definition SO_SNDTIMEO :: int where "SO_SNDTIMEO = 0x1005"
definition SO_RCVBUF :: int where "SO_RCVBUF = 0x1002"
definition SO_SNDBUF :: int where "SO_SNDBUF = 0x1001"
definition SO_LINGER :: int where "SO_LINGER = 0x80"
definition SO_KEEPALIVE :: int where "SO_KEEPALIVE = 8"
definition SO_BROADCAST :: int where "SO_BROADCAST = 0x20"
definition IPPROTO_IP :: int where "IPPROTO_IP = 0"
definition IPPROTO_TCP :: int where "IPPROTO_TCP = 6"
definition IPPROTO_UDP :: int where "IPPROTO_UDP = 17"
definition IP_TOS :: int where "IP_TOS = 3"

subsection \<open>Initialisation and the large-block buffer\<close>

definition ncb_init :: "np \<Rightarrow> proto_type \<Rightarrow> st \<Rightarrow> st option" where
  "ncb_init ncb proto s = (case ncb of
     None \<Rightarrow> Some s
   | Some h \<Rightarrow> mod_ncb h (\<lambda>_. ncb_zero\<lparr>sockfd := INVALID_SOCKET, proto_type := proto\<rparr>) s)"

definition ncb_lb_marked :: "np \<Rightarrow> st \<Rightarrow> bool option" where
  "ncb_lb_marked ncb s = (case ncb of
     None \<Rightarrow> Some False
   | Some h \<Rightarrow> do { n \<leftarrow> ncbs s h; Some (lb_data n \<noteq> Null \<and> lb_length n > 0) })"

definition ncb_mark_lb :: "env \<Rightarrow> np \<Rightarrow> int \<Rightarrow> int \<Rightarrow> ptr \<Rightarrow> st \<Rightarrow> (int \<times> st) option" where
  "ncb_mark_lb E ncb cb current_size source s = (case ncb of
     None \<Rightarrow> Some (- 1, s)
   | Some h \<Rightarrow>
       if cb < current_size then Some (- 1, s)
       else do {
         s1 \<leftarrow> mod_ncb h (\<lambda>n. n\<lparr>lb_length := cb\<rparr>) s;
         let (p, s2) = malloc E cb s1;
         s3 \<leftarrow> mod_ncb h (\<lambda>n. n\<lparr>lb_data := p\<rparr>) s2;
         if p = Null then Some (- 1, s3)
         else do {
           s4 \<leftarrow> mod_ncb h (\<lambda>n. n\<lparr>lb_cpy_offset := current_size\<rparr>) s3;
           if current_size = 0 then Some (0, s4)
           else do { s5 \<leftarrow> memcpy p source current_size s4; Some (0, s5) } } })"

definition ncb_unmark_lb :: "np \<Rightarrow> st \<Rightarrow> st option" where
  "ncb_unmark_lb ncb s = (case ncb of
     None \<Rightarrow> Some s
   | Some h \<Rightarrow> do {
       n \<leftarrow> ncbs s h;
       s1 \<leftarrow> (if lb_data n \<noteq> Null then do {
           massert (lb_length n > 0);
           s1 \<leftarrow> (if lb_length n > 0 then do {
               s1 \<leftarrow> free (lb_data n) s;
               mod_ncb h (\<lambda>n. n\<lparr>lb_data := Null\<rparr>) s1 }
             else Some s);
           mod_ncb h (\<lambda>n. n\<lparr>lb_cpy_offset := 0\<rparr>) s1 }
         else Some s);
       mod_ncb h (\<lambda>n. n\<lparr>lb_length := 0\<rparr>) s1 })"

subsection \<open>Socket options\<close>

text \<open>\<open>setsockopt\<close> and \<open>getsockopt\<close> on the socket of a control block. What \<open>getsockopt\<close>
  reads reaches its destination only when the call succeeds.\<close>

definition setsockopt :: "env \<Rightarrow> handle \<Rightarrow> int \<Rightarrow> int \<Rightarrow> optval \<Rightarrow> st \<Rightarrow> (int \<times> st) option" where
  "setsockopt E h level opt v s = do {
     n \<leftarrow> ncbs s h; Some (sysc E (C_setsockopt (sockfd n) level opt v) s) }"

definition getsockopt :: "env \<Rightarrow> handle \<Rightarrow> int \<Rightarrow> int \<Rightarrow> st \<Rightarrow> ((int \<times> int \<times> int) \<times> st) option" where
  "getsockopt E h level opt s = do {
     n \<leftarrow> ncbs s h;
     let c = C_getsockopt (sockfd n) level opt;
     let (r, s') = sysc E c s;
     Some ((r, e_val E (trace s) c, e_val2 E (trace s) c), s') }"

definition ncb_set_rcvtimeo :: "env \<Rightarrow> np \<Rightarrow> (int \<times> int) option \<Rightarrow> st \<Rightarrow> (int \<times> st) option" where
  "ncb_set_rcvtimeo E ncb timeo s = (case (ncb, timeo) of
     (Some h, Some (sec, usec)) \<Rightarrow> setsockopt E h SOL_SOCKET SO_RCVTIMEO (V_timeval sec usec) s
   | _ \<Rightarrow> Some (- EINVAL, s))"

definition ncb_get_rcvtimeo :: "env \<Rightarrow> np \<Rightarrow> st \<Rightarrow> (int \<times> st) option" where
  "ncb_get_rcvtimeo E ncb s = (case ncb of
     None \<Rightarrow> Some (- EINVAL, s)
   | Some h \<Rightarrow> do {
       ((r, sec, usec), s1) \<leftarrow> getsockopt E h SOL_SOCKET SO_RCVTIMEO s;
       s2 \<leftarrow> (if r = 0 then mod_ncb h (\<lambda>n. n\<lparr>rcvtimeo := (sec, usec)\<rparr>) s1 else Some s1);
       Some (r, s2) })"

definition ncb_set_sndtimeo :: "env \<Rightarrow> np \<Rightarrow> (int \<times> int) option \<Rightarrow> st \<Rightarrow> (int \<times> st) option" where
  "ncb_set_sndtimeo E ncb timeo s = (case (ncb, timeo) of
     (Some h, Some (sec, usec)) \<Rightarrow> setsockopt E h SOL_SOCKET SO_SNDTIMEO (V_timeval sec usec) s
   | _ \<Rightarrow> Some (- EINVAL, s))"

definition ncb_get_sndtimeo :: "env \<Rightarrow> np \<Rightarrow> st \<Rightarrow> (int \<times> st) option" where
  "ncb_get_sndtimeo E ncb s = (case ncb of
     None \<Rightarrow> Some (- EINVAL, s)
   | Some h \<Rightarrow> do {
       ((r, sec, usec), s1) \<leftarrow> getsockopt E h SOL_SOCKET SO_SNDTIMEO s;
       s2 \<leftarrow> (if r = 0 then mod_ncb h (\<lambda>n. n\<lparr>sndtimeo := (sec, usec)\<rparr>) s1 else Some s1);
       Some (r, s2) })"

definition ncb_set_iptos :: "env \<Rightarrow> np \<Rightarrow> int \<Rightarrow> st \<Rightarrow> (int \<times> st) option" where
  "ncb_set_iptos E ncb tos s =
     (let type_of_service = word_of_int tos :: byte in
      case ncb of
        Some h \<Rightarrow> if type_of_service \<noteq> 0
          then setsockopt E h IPPROTO_IP IP_TOS (V_byte type_of_service) s
          else Some (- EINVAL, s)
      | None \<Rightarrow> Some (- EINVAL, s))"

definition ncb_get_iptos :: "env \<Rightarrow> np \<Rightarrow> st \<Rightarrow> (int \<times> st) option" where
  "ncb_get_iptos E ncb s = (case ncb of
     None \<Rightarrow> Some (- EINVAL, s)
   | Some h \<Rightarrow> do {
       ((r, v, _), s1) \<leftarrow> getsockopt E h IPPROTO_IP IP_TOS s;
       s2 \<leftarrow> (if r = 0 then mod_ncb h (\<lambda>n. n\<lparr>iptos := v\<rparr>) s1 else Some s1);
       Some (r, s2) })"

definition ncb_set_window_size :: "env \<Rightarrow> np \<Rightarrow> int \<Rightarrow> int \<Rightarrow> st \<Rightarrow> (int \<times> st) option" where
  "ncb_set_window_size E ncb dir sz s = (case ncb of
     Some h \<Rightarrow> setsockopt E h SOL_SOCKET dir (V_int sz) s
   | None \<Rightarrow> Some (- EINVAL, s))"

text \<open>The caller's \<open>int *size\<close> is the option \<open>sz\<close>; the result carries what it holds after.\<close>

definition ncb_get_window_size :: "env \<Rightarrow> np \<Rightarrow> int \<Rightarrow> int option \<Rightarrow> st
    \<Rightarrow> ((int \<times> int option) \<times> st) option" where
  "ncb_get_window_size E ncb dir sz s = (case (ncb, sz) of
     (Some h, Some old) \<Rightarrow> do {
       ((r, v, _), s1) \<leftarrow> getsockopt E h SOL_SOCKET dir s;
       let sz' = Some (if r = 0 then v else old);
       if r < 0 then Some ((- 1, sz'), s1) else Some ((- EINVAL, sz'), s1) }
   | _ \<Rightarrow> Some ((- EINVAL, sz), s))"

definition ncb_set_linger :: "env \<Rightarrow> np \<Rightarrow> int \<Rightarrow> int \<Rightarrow> st \<Rightarrow> (int \<times> st) option" where
  "ncb_set_linger E ncb onoff lin s = (case ncb of
     None \<Rightarrow> Some (- EINVAL, s)
   | Some h \<Rightarrow> setsockopt E h SOL_SOCKET SO_LINGER (V_linger onoff lin) s)"

definition ncb_get_linger :: "env \<Rightarrow> np \<Rightarrow> st \<Rightarrow> ((int \<times> (int \<times> int) option) \<times> st) option" where
  "ncb_get_linger E ncb s = (case ncb of
     None \<Rightarrow> Some ((- EINVAL, None), s)
   | Some h \<Rightarrow> do {
       ((r, onoff, lin), s1) \<leftarrow> getsockopt E h SOL_SOCKET SO_KEEPALIVE s;
       if r < 0 then Some ((- 1, None), s1) else Some ((0, Some (onoff, lin)), s1) })"

definition ncb_set_keepalive :: "env \<Rightarrow> np \<Rightarrow> int \<Rightarrow> st \<Rightarrow> (int \<times> st) option" where
  "ncb_set_keepalive E ncb enable s = (case ncb of
     Some h \<Rightarrow> setsockopt E h SOL_SOCKET SO_KEEPALIVE (V_int enable) s
   | None \<Rightarrow> Some (- EINVAL, s))"

definition ncb_get_keepalive :: "env \<Rightarrow> np \<Rightarrow> int option \<Rightarrow> st
    \<Rightarrow> ((int \<times> int option) \<times> st) option" where
  "ncb_get_keepalive E ncb enabled s = (case (ncb, enabled) of
     (Some h, Some old) \<Rightarrow> do {
       ((r, v, _), s1) \<leftarrow> getsockopt E h SOL_SOCKET SO_KEEPALIVE s;
       Some ((r, Some (if r = 0 then v else old)), s1) }
   | _ \<Rightarrow> Some ((- EINVAL, enabled), s))"

subsection \<open>Events posted to the user\<close>

text \<open>An event carries the bytes its data pointer shows the user during the callback.\<close>

definition ncb_post_preclose :: "np \<Rightarrow> st \<Rightarrow> st option" where
  "ncb_post_preclose ncb s = (case ncb of
     None \<Rightarrow> Some s
   | Some h \<Rightarrow> do {
       n \<leftarrow> ncbs s h;
       Some (if nis_callback n \<noteq> 0 then emit (EvPreClose (hld n) (context_ptr n)) s else s) })"

definition ncb_post_close :: "np \<Rightarrow> st \<Rightarrow> st option" where
  "ncb_post_close ncb s = (case ncb of
     None \<Rightarrow> Some s
   | Some h \<Rightarrow> do {
       n \<leftarrow> ncbs s h;
       Some (if nis_callback n \<noteq> 0 then emit (EvClosed (hld n)) s else s) })"

definition ncb_post_recvdata :: "np \<Rightarrow> int \<Rightarrow> ptr \<Rightarrow> st \<Rightarrow> st option" where
  "ncb_post_recvdata ncb cb data s = (case ncb of
     None \<Rightarrow> Some s
   | Some h \<Rightarrow> do {
       n \<leftarrow> ncbs s h;
       if nis_callback n \<noteq> 0 then do {
         bs \<leftarrow> load data cb s; Some (emit (EvRecv (hld n) cb bs) s) }
       else Some s })"

definition ncb_post_pipedata :: "np \<Rightarrow> int \<Rightarrow> ptr \<Rightarrow> st \<Rightarrow> st option" where
  "ncb_post_pipedata ncb cb data s = (case ncb of
     None \<Rightarrow> Some s
   | Some h \<Rightarrow> do {
       n \<leftarrow> ncbs s h;
       if nis_callback n \<noteq> 0 then do {
         bs \<leftarrow> load data cb s; Some (emit (EvPipe (hld n) cb bs) s) }
       else Some s })"

definition ncb_post_accepted :: "np \<Rightarrow> handle \<Rightarrow> st \<Rightarrow> st option" where
  "ncb_post_accepted ncb lnk s = (case ncb of
     None \<Rightarrow> Some s
   | Some h \<Rightarrow> do {
       n \<leftarrow> ncbs s h;
       Some (if nis_callback n \<noteq> 0 then emit (EvAccepted (hld n) lnk) s else s) })"

definition ncb_post_connected :: "np \<Rightarrow> st \<Rightarrow> st option" where
  "ncb_post_connected ncb s = (case ncb of
     None \<Rightarrow> Some s
   | Some h \<Rightarrow> do {
       n \<leftarrow> ncbs s h;
       Some (if nis_callback n \<noteq> 0 then emit (EvConnected (hld n)) s else s) })"

end
