(* ===== verification/Io.thy ===== *)
theory Io
  imports Ncb
begin

text \<open>
  \<open>io.c\<close>: the completion ports and their threads, the association of a socket with a
  port, and the closing of a socket. The array \<open>epmgr.epos\<close> is the field \<open>epos\<close>; the
  atomic macros of \<open>posix_atomic.h\<close> are calls of the environment.
\<close>

abbreviation "IOCP_INVALID_SIZE_TRANSFER \<equiv> (0xFFFFFFFF :: int)"

text \<open>The C remainder takes the sign of the dividend; division by zero is undefined.\<close>

definition c_mod :: "int \<Rightarrow> int \<Rightarrow> int option" where
  "c_mod a b = (if b = 0 then None else Some (sgn a * (\<bar>a\<bar> mod \<bar>b\<bar>)))"

definition epos_at :: "int \<Rightarrow> st \<Rightarrow> epoll_object option" where
  "epos_at i s = do {
     es \<leftarrow> epos s;
     if 0 \<le> i \<and> i < int (length es) then Some (es ! nat i) else None }"

text \<open>One round of the loop of \<open>__ioinit\<close>. A port handle is a pointer and never compares
  below zero, so the failure branch of the C code is never taken.\<close>

definition ioinit_one :: "env \<Rightarrow> nat \<Rightarrow> st \<Rightarrow> epoll_object \<times> st" where
  "ioinit_one E i s =
     (let (fd, s1) = sysc E C_CreatePort s;
          (th, s2) = sysc E (C_CreateThread i) s1 in
      (\<lparr>epfd = fd, actived = (th \<noteq> 0), thread = th, load_cnt = 0\<rparr>, s2))"

fun ioinit_loop :: "env \<Rightarrow> nat \<Rightarrow> nat \<Rightarrow> st \<Rightarrow> epoll_object list \<times> st" where
  "ioinit_loop E i 0 s = ([], s)"
| "ioinit_loop E i (Suc n) s =
     (let (e, s1) = ioinit_one E i s; (es, s2) = ioinit_loop E (Suc i) n s1 in (e # es, s2))"

definition ioinit_body :: "env \<Rightarrow> st \<Rightarrow> int \<times> st" where
  "ioinit_body E s =
     (let (n, s1) = sysc E C_getnprocs s;
          s2 = s1\<lparr>divisions := n\<rparr>;
          (r, s3) = sysc E (C_new ''epoll_object'') s2 in
      if r = 0 then (- 1, s3\<lparr>epos := None\<rparr>)
      else let (es, s4) = ioinit_loop E 0 (nat n) s3 in (0, s4\<lparr>epos := Some es\<rparr>))"

text \<open>\<open>__inited__\<close> is what the atomic macros leave in it.\<close>

definition ioinit :: "env \<Rightarrow> st \<Rightarrow> int \<times> st" where
  "ioinit E s =
     (let (go, s1) = sysc E C_atomic_try s in
      if go \<noteq> 0 then
        let (r, s2) = ioinit_body E s1;
            (v, s3) = sysc E (if r < 0 then C_atomic_exception else C_atomic_complete) s2 in
        (v, s3\<lparr>io_inited := v\<rparr>)
      else (io_inited s1, s1))"

definition ioatth :: "env \<Rightarrow> np \<Rightarrow> st \<Rightarrow> (int \<times> st) option" where
  "ioatth E ncb s =
     (let (passed, s1) = sysc E C_atomic_passed s in
      if passed = 0 then Some (- 1, s1)
      else case ncb of
        None \<Rightarrow> Some (- EINVAL, s1)
      | Some h \<Rightarrow> do {
          n \<leftarrow> ncbs s1 h;
          i \<leftarrow> c_mod (hld n) (divisions s1);
          e \<leftarrow> epos_at i s1;
          let (bind_iocp, s2) = sysc E (C_AssociatePort (sockfd n) (epfd e)) s1;
          if bind_iocp \<noteq> 0 \<and> bind_iocp = epfd e then Some (0, s2) else Some (- 1, s2) })"

definition ioclose :: "env \<Rightarrow> np \<Rightarrow> st \<Rightarrow> st option" where
  "ioclose E ncb s = (case ncb of
     None \<Rightarrow> Some s
   | Some h \<Rightarrow> do {
       n \<leftarrow> ncbs s h;
       if sockfd n \<noteq> INVALID_SOCKET then do {
         let (_, s1) = sysc E (C_shutdown (sockfd n)) s;
         let (_, s2) = sysc E (C_closesocket (sockfd n)) s1;
         mod_ncb h (\<lambda>n. n\<lparr>sockfd := INVALID_SOCKET\<rparr>) s2 }
       else Some s })"

definition iouninit_one :: "env \<Rightarrow> epoll_object \<Rightarrow> st \<Rightarrow> epoll_object \<times> st" where
  "iouninit_one E e s =
     (let (e1, s1) =
        (if actived e then
           let (_, s1) = sysc E (C_PostQueuedCompletionStatus (epfd e) IOCP_INVALID_SIZE_TRANSFER None) s;
               (_, s2) = sysc E (C_WaitForSingleObject (thread e)) s1;
               (_, s3) = sysc E (C_CloseHandle (thread e)) s2 in
           (e\<lparr>actived := False\<rparr>, s3)
         else (e, s)) in
      if epfd e1 \<noteq> 0 then
        (e1\<lparr>epfd := - 1\<rparr>, snd (sysc E (C_CloseHandle (epfd e1)) s1))
      else (e1, s1))"

fun iouninit_loop :: "env \<Rightarrow> epoll_object list \<Rightarrow> st \<Rightarrow> st" where
  "iouninit_loop E [] s = s"
| "iouninit_loop E (e # es) s = iouninit_loop E es (snd (iouninit_one E e s))"

definition iouninit :: "env \<Rightarrow> st \<Rightarrow> st" where
  "iouninit E s =
     (let (r, s1) = sysc E C_atomic_regress s in
      if r = 0 then s1
      else case epos s1 of
        None \<Rightarrow> s1
      | Some es \<Rightarrow> (iouninit_loop E es s1)\<lparr>epos := None\<rparr>)"

definition io_get_pipefd :: "handle \<Rightarrow> st \<Rightarrow> int option" where
  "io_get_pipefd h s = do {
     n \<leftarrow> ncbs s h;
     i \<leftarrow> c_mod (hld n) (divisions s);
     e \<leftarrow> epos_at i s;
     Some (epfd e) }"

end
