(* ===== verification/Objects.thy ===== *)
theory Objects
  imports Io
begin

text \<open>
  The objects behind the handles. The object manager (\<open>object.c\<close> of \<open>libnsp\<close>, not in the
  repository) counts references and, when a closed object loses its last one, runs the
  routine the object was created with: \<open>tcp_unload\<close>, \<open>udp_unload\<close> or \<open>arp_unload\<close>. Which
  release or close is the last one is the manager's answer: \<open>objdefr\<close> and \<open>objclos\<close> run the
  routine when the environment answers with a value other than 0.
\<close>

subsection \<open>The lock of the sender queue\<close>

definition InitializeCriticalSection :: "handle \<Rightarrow> st \<Rightarrow> st option" where
  "InitializeCriticalSection h = mod_ncb h (\<lambda>n. n\<lparr>tcp_sender_locker := Some 0\<rparr>)"

definition EnterCriticalSection :: "handle \<Rightarrow> st \<Rightarrow> st option" where
  "EnterCriticalSection h s = do {
     n \<leftarrow> ncbs s h; c \<leftarrow> tcp_sender_locker n;
     mod_ncb h (\<lambda>n. n\<lparr>tcp_sender_locker := Some (Suc c)\<rparr>) s }"

definition LeaveCriticalSection :: "handle \<Rightarrow> st \<Rightarrow> st option" where
  "LeaveCriticalSection h s = do {
     n \<leftarrow> ncbs s h; c \<leftarrow> tcp_sender_locker n; massert (c > 0);
     mod_ncb h (\<lambda>n. n\<lparr>tcp_sender_locker := Some (c - 1)\<rparr>) s }"

definition DeleteCriticalSection :: "handle \<Rightarrow> st \<Rightarrow> st option" where
  "DeleteCriticalSection h s = do {
     n \<leftarrow> ncbs s h; c \<leftarrow> tcp_sender_locker n;
     mod_ncb h (\<lambda>n. n\<lparr>tcp_sender_locker := None\<rparr>) s }"

subsection \<open>The unload routines\<close>

definition free_user_context :: "handle \<Rightarrow> st \<Rightarrow> st option" where
  "free_user_context h s = do {
     n \<leftarrow> ncbs s h;
     if ncb_ctx n \<noteq> Null \<and> ncb_ctx_size n \<noteq> 0 then free (ncb_ctx n) s else Some s }"

text \<open>The loop of \<open>tcp_unload\<close> over the packets that still wait in the queue.\<close>

fun tcp_drain :: "env \<Rightarrow> handle \<Rightarrow> nat list \<Rightarrow> st \<Rightarrow> st option" where
  "tcp_drain E h [] s = Some s"
| "tcp_drain E h (p # q) s = do {
     s1 \<leftarrow> mod_ncb h (\<lambda>n. n\<lparr>tcp_sender_cache_head := Some q\<rparr>) s;
     s2 \<leftarrow> freepkt E (Some p) s1;
     tcp_drain E h q s2 }"

definition tcp_unload :: "env \<Rightarrow> np \<Rightarrow> st \<Rightarrow> st option" where
  "tcp_unload E ncb s = (case ncb of
     None \<Rightarrow> Some s
   | Some h \<Rightarrow> do {
       s \<leftarrow> ncb_post_preclose ncb s;
       s \<leftarrow> ioclose E ncb s;
       s \<leftarrow> ncb_unmark_lb ncb s;
       s \<leftarrow> mod_ncb h (\<lambda>n. n\<lparr>tcp_sender_list_size := 0\<rparr>) s;
       s \<leftarrow> EnterCriticalSection h s;
       n \<leftarrow> ncbs s h;
       q \<leftarrow> tcp_sender_cache_head n;
       s \<leftarrow> tcp_drain E h q s;
       s \<leftarrow> LeaveCriticalSection h s;
       s \<leftarrow> DeleteCriticalSection h s;
       s \<leftarrow> free_user_context h s;
       ncb_post_close ncb s })"

definition udp_unload :: "env \<Rightarrow> np \<Rightarrow> st \<Rightarrow> st option" where
  "udp_unload E ncb s = (case ncb of
     None \<Rightarrow> Some s
   | Some h \<Rightarrow> do {
       s \<leftarrow> ncb_post_preclose ncb s;
       s \<leftarrow> ioclose E ncb s;
       s \<leftarrow> free_user_context h s;
       ncb_post_close ncb s })"

definition arp_unload :: "env \<Rightarrow> np \<Rightarrow> st \<Rightarrow> st option" where
  "arp_unload E ncb s = (case ncb of
     None \<Rightarrow> Some s
   | Some h \<Rightarrow> do {
       s \<leftarrow> ncb_post_preclose ncb s;
       s \<leftarrow> ioclose E ncb s;
       s \<leftarrow> free_user_context h s;
       ncb_post_close ncb s })"

subsection \<open>Creation, release and closing of objects\<close>

definition objallo :: "env \<Rightarrow> unload_fn \<Rightarrow> st \<Rightarrow> handle \<times> st" where
  "objallo E u s = (let (h, s1) = sysc E C_objallo s in
     if h < 0 then (h, s1)
     else (h, s1\<lparr>ncbs := (ncbs s1)(h \<mapsto> e_ncb E (trace s)),
                 unloads := (unloads s1)(h \<mapsto> u)\<rparr>))"

definition finalize :: "env \<Rightarrow> handle \<Rightarrow> st \<Rightarrow> st option" where
  "finalize E h s = (case unloads s h of
     None \<Rightarrow> Some s
   | Some u \<Rightarrow> do {
       s1 \<leftarrow> (case u of
           Tcp_unload \<Rightarrow> tcp_unload E (Some h) s
         | Udp_unload \<Rightarrow> udp_unload E (Some h) s
         | Arp_unload \<Rightarrow> arp_unload E (Some h) s);
       Some (s1\<lparr>ncbs := (ncbs s1)(h := None), unloads := (unloads s1)(h := None)\<rparr>) })"

definition objdefr :: "env \<Rightarrow> handle \<Rightarrow> st \<Rightarrow> st option" where
  "objdefr E h s = (let (r, s1) = sysc E (C_objdefr h) s in
     if r = 0 then Some s1 else finalize E h s1)"

definition objclos :: "env \<Rightarrow> handle \<Rightarrow> st \<Rightarrow> st option" where
  "objclos E h s = (let (r, s1) = sysc E (C_objclos h) s in
     if r = 0 then Some s1 else finalize E h s1)"

text \<open>\<open>objdefr( ncb->hld )\<close> and \<open>objclos( ncb->hld )\<close> read the control block first.\<close>

definition objdefr_ncb :: "env \<Rightarrow> handle \<Rightarrow> st \<Rightarrow> st option" where
  "objdefr_ncb E h s = do { n \<leftarrow> ncbs s h; objdefr E (hld n) s }"

definition objclos_ncb :: "env \<Rightarrow> handle \<Rightarrow> st \<Rightarrow> st option" where
  "objclos_ncb E h s = do { n \<leftarrow> ncbs s h; objclos E (hld n) s }"

end
