(* ===== verification/Asio.thy ===== *)
theory Asio
  imports Objects
begin

text \<open>
  \<open>packet.c\<close>, the requests: every routine takes a reference on the link of its packet,
  issues one Winsock request for it and releases the reference. A request the system
  accepts for later completion (\<open>ERROR_IO_PENDING\<close>) counts as success.
\<close>

definition ERROR_IO_PENDING :: int where "ERROR_IO_PENDING = 997"

text \<open>The common end of the overlapped requests: \<open>retval\<close> after the Winsock call.\<close>

definition pending_retval :: "env \<Rightarrow> int \<Rightarrow> st \<Rightarrow> int \<times> st" where
  "pending_retval E retval s =
     (if retval = SOCKET_ERROR then
        let (e, s1) = sysc E C_WSAGetLastError s in
        if e = ERROR_IO_PENDING then (0, s1) else (- 1, s1)
      else (retval, s))"

definition asio_tcp_accept :: "env \<Rightarrow> pp \<Rightarrow> st \<Rightarrow> (int \<times> st) option" where
  "asio_tcp_accept E packet s = (case packet of
     None \<Rightarrow> Some (- 1, s)
   | Some p \<Rightarrow> do {
       k \<leftarrow> get_pkt p s;
       let (ncb_listen, s1) = objrefr E (link k) s;
       case ncb_listen of
         None \<Rightarrow> Some (- 1, s1)
       | Some hl \<Rightarrow> do {
           nl \<leftarrow> ncbs s1 hl;
           let (status, s2) = sysc E (C_WSAIoctl (sockfd nl) IO_AcceptEx) s1;
           if status < 0 then do { s3 \<leftarrow> objdefr_ncb E hl s2; Some (- 1, s3) }
           else do {
             let (ncb_income, s3) = objrefr E (accepted_link k) s2;
             (retval, s4) \<leftarrow> (case ncb_income of
                 None \<Rightarrow> Some (0, s3)
               | Some hi \<Rightarrow> do {
                   ni \<leftarrow> ncbs s3 hi;
                   let (ok, s4) = sysc E (C_AcceptEx (sockfd nl) (sockfd ni) p) s3;
                   let (retval, s5) = (if ok = 0 then pending_retval E SOCKET_ERROR s4 else (0, s4));
                   s6 \<leftarrow> objdefr_ncb E hi s5;
                   Some (retval, s6) });
             s5 \<leftarrow> objdefr_ncb E hl s4;
             Some (retval, s5) } } })"

definition asio_tcp_send :: "env \<Rightarrow> pp \<Rightarrow> st \<Rightarrow> (int \<times> st) option" where
  "asio_tcp_send E packet s = (case packet of
     None \<Rightarrow> Some (- 1, s)
   | Some p \<Rightarrow> do {
       k \<leftarrow> get_pkt p s;
       let (ncb, s1) = objrefr E (link k) s;
       case ncb of
         None \<Rightarrow> Some (- 1, s1)
       | Some h \<Rightarrow> do {
           n \<leftarrow> ncbs s1 h;
           bs \<leftarrow> load (irp k) (size_for_req k) s1;
           let (r, s2) = sysc E (C_WSASend (sockfd n) p bs) s1;
           let (retval, s3) = pending_retval E r s2;
           s4 \<leftarrow> objdefr_ncb E h s3;
           Some (retval, s4) } })"

definition asio_tcp_recv :: "env \<Rightarrow> pp \<Rightarrow> st \<Rightarrow> (int \<times> st) option" where
  "asio_tcp_recv E packet s = (case packet of
     None \<Rightarrow> Some (- 1, s)
   | Some p \<Rightarrow> do {
       k \<leftarrow> get_pkt p s;
       let (ncb, s1) = objrefr E (link k) s;
       case ncb of
         None \<Rightarrow> Some (- 1, s1)
       | Some h \<Rightarrow> do {
           n \<leftarrow> ncbs s1 h;
           let (r, s2) = sysc E (C_WSARecv (sockfd n) p (irp k) (size_for_req k)) s1;
           let (retval, s3) = pending_retval E r s2;
           s4 \<leftarrow> objdefr_ncb E h s3;
           Some (retval, s4) } })"

definition asio_tcp_connect :: "env \<Rightarrow> pp \<Rightarrow> st \<Rightarrow> (int \<times> st) option" where
  "asio_tcp_connect E packet s = (case packet of
     None \<Rightarrow> Some (- 1, s)
   | Some p \<Rightarrow> do {
       k \<leftarrow> get_pkt p s;
       let (ncb, s1) = objrefr E (link k) s;
       case ncb of
         None \<Rightarrow> Some (- 1, s1)
       | Some h \<Rightarrow> do {
           n \<leftarrow> ncbs s1 h;
           let (status, s2) = sysc E (C_WSAIoctl (sockfd n) IO_ConnectEx) s1;
           (retval, s3) \<leftarrow> (if status < 0 then Some (- 1, s2)
             else do {
               let (ok, s3) = sysc E (C_ConnectEx (sockfd n) (pkt_remote_addr k) p) s2;
               Some (if ok = 0 then pending_retval E SOCKET_ERROR s3 else (0, s3)) });
           s4 \<leftarrow> objdefr_ncb E h s3;
           Some (retval, s4) } })"

definition asio_udp_recv :: "env \<Rightarrow> pp \<Rightarrow> st \<Rightarrow> (int \<times> st) option" where
  "asio_udp_recv E packet s = (case packet of
     None \<Rightarrow> Some (- 1, s)
   | Some p \<Rightarrow> do {
       k \<leftarrow> get_pkt p s;
       let (ncb, s1) = objrefr E (link k) s;
       case ncb of
         None \<Rightarrow> Some (- 1, s1)
       | Some h \<Rightarrow> do {
           n \<leftarrow> ncbs s1 h;
           let (r, s2) = sysc E (C_WSARecvFrom (sockfd n) p (irp k) (size_for_req k)) s1;
           let (retval, s3) = pending_retval E r s2;
           s4 \<leftarrow> objdefr_ncb E h s3;
           Some (retval, s4) } })"

abbreviation "AF_INET \<equiv> (2 :: int)"

definition syio_udp_send :: "env \<Rightarrow> pp \<Rightarrow> string \<Rightarrow> u16 \<Rightarrow> st \<Rightarrow> (int \<times> st) option" where
  "syio_udp_send E packet r_ipstr r_port s = (case packet of
     None \<Rightarrow> Some (- 1, s)
   | Some p \<Rightarrow> do {
       k \<leftarrow> get_pkt p s;
       let (ncb, s1) = objrefr E (link k) s;
       case ncb of
         None \<Rightarrow> Some (- 1, s1)
       | Some h \<Rightarrow>
           (case e_pton E r_ipstr of
              None \<Rightarrow> do { s2 \<leftarrow> objdefr E (link k) s1; Some (- 1, s2) }
            | Some a \<Rightarrow> do {
                let dst = \<lparr>sin_family = AF_INET, sin_port = htons r_port, sin_addr = a\<rparr>;
                s2 \<leftarrow> mod_pkt p (\<lambda>k. k\<lparr>pkt_remote_addr := Some dst\<rparr>) s1;
                n \<leftarrow> ncbs s2 h;
                bs \<leftarrow> load (irp k) (size_for_req k) s2;
                let (r, s3) = sysc E (C_WSASendTo (sockfd n) bs dst) s2;
                let retval = (if r = SOCKET_ERROR then - 1 else r);
                s4 \<leftarrow> freepkt E (Some p) s3;
                s5 \<leftarrow> objdefr_ncb E h s4;
                Some (retval, s5) }) })"

subsection \<open>Pseudo connections and grouped transmission\<close>

definition syio_v_disconnect :: "env \<Rightarrow> handle \<Rightarrow> st \<Rightarrow> (int \<times> st) option" where
  "syio_v_disconnect E h s = do {
     n \<leftarrow> ncbs s h;
     if proto_type n \<noteq> kProto_UDP then Some (- 1, s)
     else if connected n = 0 then Some (0, s)
     else do {
       s1 \<leftarrow> mod_ncb h (\<lambda>n. n\<lparr>connected := 0\<rparr>) s;
       Some (sysc E (C_WSAConnect (sockfd n) sockaddr_zero) s1) } }"

definition syio_v_connect :: "env \<Rightarrow> handle \<Rightarrow> sockaddr_in \<Rightarrow> st \<Rightarrow> (int \<times> st) option" where
  "syio_v_connect E h r_addr s = do {
     n \<leftarrow> ncbs s h;
     let (r, s1) = sysc E (C_WSAConnect (sockfd n) r_addr) s;
     if r = SOCKET_ERROR then Some (- 1, s1)
     else if sin_port (local_addr n) = 0 \<or> sin_addr (local_addr n) = 0 then do {
       let (r2, s2) = sysc E (C_getsockname (sockfd n)) s1;
       let nm = e_addr E (trace s1) (C_getsockname (sockfd n));
       s3 \<leftarrow> (if r2 \<ge> 0 then mod_ncb h (\<lambda>n. n\<lparr>local_addr := (local_addr n)
               \<lparr>sin_port := sin_port nm, sin_addr := htonl (sin_addr nm)\<rparr>\<rparr>) s2
             else Some s2);
       Some (0, s3) }
     else Some (0, s1) }"

fun load_elements :: "(ptr \<times> int) list \<Rightarrow> st \<Rightarrow> byte list list option" where
  "load_elements [] s = Some []"
| "load_elements ((d, n) # es) s = do {
     bs \<leftarrow> load d n s; bss \<leftarrow> load_elements es s; Some (bs # bss) }"

definition grp_array :: "ptr \<Rightarrow> st \<Rightarrow> (ptr \<times> int) list option" where
  "grp_array p s = (case p of
     Null \<Rightarrow> None
   | Ptr b i \<Rightarrow> (case heap s b of Some (GrpArr es) \<Rightarrow> Some es | _ \<Rightarrow> None))"

definition syio_grp_send :: "env \<Rightarrow> nat \<Rightarrow> st \<Rightarrow> (int \<times> st) option" where
  "syio_grp_send E p s = do {
     k \<leftarrow> get_pkt p s;
     let (ncb, s1) = objrefr E (link k) s;
     case ncb of
       None \<Rightarrow> Some (- 1, s1)
     | Some h \<Rightarrow> do {
         n \<leftarrow> ncbs s1 h;
         let (status, s2) = (if fn_TransmitPackets s1 then (0, s1)
           else sysc E (C_WSAIoctl (sockfd n) IO_TransmitPackets) s1);
         (retval, s3) \<leftarrow> (if status < 0 then Some (- 1, s2)
           else do {
             es \<leftarrow> grp_array (irp k) s2;
             bss \<leftarrow> load_elements (take (nat (grp_packets_cnt k)) es) s2;
             let (ok, s3) = sysc E (C_TransmitPackets (sockfd n) bss)
               (s2\<lparr>fn_TransmitPackets := True\<rparr>);
             Some (if ok = 0 then - 1 else 0, s3) });
         s4 \<leftarrow> objdefr_ncb E h s3;
         Some (retval, s4) } }"

end
