(* ===== verification/Refs.thy ===== *)
theory Refs
  imports Asio
begin

text \<open>
  The references the program holds: \<open>refs s h\<close> is the number of references on handle \<open>h\<close>
  it took and did not release. The facts below say what each operation of the lower
  layers does to \<open>refs\<close>; what a typed reference (\<open>tcprefr\<close>, \<open>udprefr\<close>, \<open>arprefr\<close>)
  promises its callers is the locale \<open>typed_ref\<close>.
\<close>

definition refs :: "st \<Rightarrow> handle \<Rightarrow> int" where
  "refs s = (\<lambda>h. refcnt h (trace s))"

subsection \<open>Operations that take and release no reference\<close>

lemma refs_upd [simp]:
  "refs (s\<lparr>heap := H\<rparr>) = refs s" "refs (s\<lparr>ncbs := N\<rparr>) = refs s" "refs (s\<lparr>nextb := i\<rparr>) = refs s"
  "refs (s\<lparr>unloads := u\<rparr>) = refs s" "refs (emit e s) = refs s" "refs (emits es s) = refs s"
  "refs (s\<lparr>fn_GetAcceptExSockaddrs := b\<rparr>) = refs s" "refs (s\<lparr>fn_TransmitPackets := b\<rparr>) = refs s"
  by (simp_all add: refs_def fun_eq_iff emit_def)

lemma refs_record_call:
  "(\<And>h. ref_delta h (Call c r) = 0) \<Longrightarrow> refs (record_call c r s) = refs s"
  by (simp add: refs_def)

lemma refs_sysc:
  "sysc E c s = (r, s') \<Longrightarrow> (\<And>h. ref_delta h (Call c (e_sys E (trace s) c)) = 0) \<Longrightarrow> refs s' = refs s"
  by (auto simp: sysc_def Let_def refs_def)

lemma refs_groups [simp]:
  "refs (record_call (Mem m) r s) = refs s" "refs (record_call (Sock k) r s) = refs s"
  "refs (record_call (Io i) r s) = refs s" "refs (record_call (Sys y) r s) = refs s"
  "refs (record_call (Host t) r s) = refs s"
  by (simp_all add: refs_record_call)

lemma sysc_refs [simp]:
  "refs (snd (sysc E (Mem m) s)) = refs s" "refs (snd (sysc E (Sock k) s)) = refs s"
  "refs (snd (sysc E (Io i) s)) = refs s" "refs (snd (sysc E (Sys y) s)) = refs s"
  "refs (snd (sysc E (Host t) s)) = refs s"
  by (simp_all add: sysc_def Let_def)

lemma refs_mod_ncb: "mod_ncb h f s = Some s' \<Longrightarrow> refs s' = refs s"
  by (auto simp: mod_ncb_def bind_eq_Some_conv)

lemma refs_mod_pkt: "mod_pkt p f s = Some s' \<Longrightarrow> refs s' = refs s"
  by (auto simp: mod_pkt_def bind_eq_Some_conv)

lemma refs_free: "free p s = Some s' \<Longrightarrow> refs s' = refs s"
  by (auto simp: free_def split: ptr.splits option.splits if_splits)

lemma refs_store: "store p ys s = Some s' \<Longrightarrow> refs s' = refs s"
  by (auto simp: store_def split: ptr.splits option.splits obj.splits if_splits)

lemma refs_memcpy: "memcpy p q n s = Some s' \<Longrightarrow> refs s' = refs s"
  by (auto simp: memcpy_def bind_eq_Some_conv dest: refs_store)

lemma refs_virtual_free [simp]: "refs (virtual_free E p s) = refs s"
  by (auto simp: virtual_free_def sysc_def Let_def split: ptr.splits option.splits obj.splits region.splits)

lemma refs_unlock [simp]: "refs (snd (os_unlock_and_free_virtual_pages E p n s)) = refs s"
  by (simp add: os_unlock_and_free_virtual_pages_def os_free_memory_block_def sysc_def Let_def)

lemma refs_freepkt:
  assumes "freepkt E p s = Some s'"
  shows "refs s' = refs s"
proof (cases p)
  case (Some q)
  with assms obtain k where "get_pkt q s = Some k" by (auto simp: freepkt_def bind_eq_Some_conv)
  with assms Some show ?thesis
    by (cases "pkt_page_style k") (auto simp: freepkt_def bind_eq_Some_conv Let_def
      dest!: refs_free refs_mod_pkt split: if_splits)
qed (use assms in \<open>simp add: freepkt_def\<close>)

lemma refs_post:
  "ncb_post_preclose ncb s = Some s' \<Longrightarrow> refs s' = refs s"
  "ncb_post_close ncb s = Some s' \<Longrightarrow> refs s' = refs s"
  "ncb_post_recvdata ncb n p s = Some s' \<Longrightarrow> refs s' = refs s"
  "ncb_post_pipedata ncb n p s = Some s' \<Longrightarrow> refs s' = refs s"
  "ncb_post_accepted ncb h s = Some s' \<Longrightarrow> refs s' = refs s"
  "ncb_post_connected ncb s = Some s' \<Longrightarrow> refs s' = refs s"
  by (auto simp: ncb_post_preclose_def ncb_post_close_def ncb_post_recvdata_def
      ncb_post_pipedata_def ncb_post_accepted_def ncb_post_connected_def bind_eq_Some_conv
      split: option.splits if_splits)

lemma refs_ioclose: "ioclose E ncb s = Some s' \<Longrightarrow> refs s' = refs s"
  by (auto simp: ioclose_def sysc_def Let_def bind_eq_Some_conv dest!: refs_mod_ncb
      split: option.splits if_splits)

lemma refs_ncb_unmark_lb: "ncb_unmark_lb ncb s = Some s' \<Longrightarrow> refs s' = refs s"
  by (auto simp: ncb_unmark_lb_def bind_eq_Some_conv dest!: refs_mod_ncb refs_free
      split: option.splits if_splits)

lemma refs_lock:
  "EnterCriticalSection h s = Some s' \<Longrightarrow> refs s' = refs s"
  "LeaveCriticalSection h s = Some s' \<Longrightarrow> refs s' = refs s"
  "DeleteCriticalSection h s = Some s' \<Longrightarrow> refs s' = refs s"
  "InitializeCriticalSection h s = Some s' \<Longrightarrow> refs s' = refs s"
  by (auto simp: EnterCriticalSection_def LeaveCriticalSection_def DeleteCriticalSection_def
      InitializeCriticalSection_def bind_eq_Some_conv dest: refs_mod_ncb)

lemma refs_free_user_context: "free_user_context h s = Some s' \<Longrightarrow> refs s' = refs s"
  by (auto simp: free_user_context_def bind_eq_Some_conv dest: refs_free split: if_splits)

lemma refs_tcp_drain: "tcp_drain E h q s = Some s' \<Longrightarrow> refs s' = refs s"
proof (induction q arbitrary: s)
  case (Cons p q)
  then obtain s1 s2 where 1: "mod_ncb h (\<lambda>n. n\<lparr>tcp_sender_cache_head := Some q\<rparr>) s = Some s1"
    "freepkt E (Some p) s1 = Some s2" "tcp_drain E h q s2 = Some s'"
    by (auto simp: bind_eq_Some_conv)
  with Cons.IH [OF 1(3)] show ?case by (simp add: refs_mod_ncb refs_freepkt)
qed simp

lemmas refs_ops = refs_mod_ncb refs_mod_pkt refs_free refs_memcpy refs_freepkt refs_post
  refs_ioclose refs_ncb_unmark_lb refs_lock refs_free_user_context refs_tcp_drain

lemma refs_unload:
  "tcp_unload E ncb s = Some s' \<Longrightarrow> refs s' = refs s"
  "udp_unload E ncb s = Some s' \<Longrightarrow> refs s' = refs s"
  "arp_unload E ncb s = Some s' \<Longrightarrow> refs s' = refs s"
  by (auto simp: tcp_unload_def udp_unload_def arp_unload_def bind_eq_Some_conv dest!: refs_ops
      split: option.splits)

lemma refs_finalize: "finalize E h s = Some s' \<Longrightarrow> refs s' = refs s"
  by (auto simp: finalize_def bind_eq_Some_conv dest!: refs_unload
      split: option.splits unload_fn.splits)

lemma refs_objclos: "objclos E h s = Some s' \<Longrightarrow> refs s' = refs s"
  by (auto simp: objclos_def sysc_def Let_def refs_record_call dest!: refs_finalize split: if_splits)

subsection \<open>References\<close>

lemma refs_objdefr: "objdefr E h s = Some s' \<Longrightarrow> refs s' = (refs s)(h := refs s h - 1)"
proof -
  have *: "refs (record_call (C_objdefr h) r s) = (refs s)(h := refs s h - 1)" for r s
    by (auto simp: refs_def fun_eq_iff)
  show "objdefr E h s = Some s' \<Longrightarrow> refs s' = (refs s)(h := refs s h - 1)"
    by (auto simp: objdefr_def sysc_def Let_def * dest!: refs_finalize split: if_splits)
qed

lemma objrefr_Some:
  "objrefr E h s = (Some g, s') \<Longrightarrow> g = h \<and> heap s' = heap s \<and> ncbs s' = ncbs s
     \<and> ncbs s h \<noteq> None \<and> refs s' = (refs s)(h := refs s h + 1)"
  by (auto simp: objref_def refs_def fun_eq_iff split: if_splits)

lemma objrefr_None:
  "objrefr E h s = (None, s') \<Longrightarrow> refs s' = refs s \<and> heap s' = heap s \<and> ncbs s' = ncbs s"
  by (auto simp: objref_def refs_def fun_eq_iff split: if_splits)

text \<open>The object manager knows the handle and grants a reference on it.\<close>

definition granted :: "env \<Rightarrow> handle \<Rightarrow> st \<Rightarrow> bool" where
  "granted E h s \<longleftrightarrow> ncbs s h \<noteq> None \<and> e_sys E (trace s) (C_objrefr h) \<noteq> 0"

lemma objrefr_granted: "(\<exists>s'. objrefr E h s = (Some g, s')) \<longleftrightarrow> g = h \<and> granted E h s"
  by (auto simp: objref_def granted_def)

text \<open>
  What a typed reference promises: on success the caller holds one more reference, on an
  existing control block of the right protocol, and nothing else changed; on failure it
  gets no control block and every count is as before. It succeeds exactly on the handles of its
  protocol on which the object manager grants a reference.
\<close>

locale typed_ref =
  fixes ref :: "env \<Rightarrow> handle \<Rightarrow> st \<Rightarrow> ((int \<times> np) \<times> st) option"
    and good :: "proto_type \<Rightarrow> bool"
  assumes ref_success: "ref E h s = Some ((r, ncb), s') \<Longrightarrow> 0 \<le> r \<Longrightarrow>
       ncb = Some h \<and> heap s' = heap s \<and> ncbs s' = ncbs s
       \<and> (\<exists>n. ncbs s h = Some n \<and> good (proto_type n))
       \<and> refs s' = (refs s)(h := refs s h + 1)"
    and ref_accepts: "(\<exists>s'. ref E h s = Some ((0, Some h), s')) \<longleftrightarrow>
       0 \<le> h \<and> granted E h s \<and> (\<exists>n. ncbs s h = Some n \<and> good (proto_type n))"
    and ref_code: "ref E h s = Some ((r, ncb), s') \<Longrightarrow> r \<le> 0"
    and ref_failure: "ref E h s = Some ((r, ncb), s') \<Longrightarrow> r < 0 \<Longrightarrow> ncb = None \<and> refs s' = refs s"
begin

text \<open>
  The pattern of the library's functions: take a reference, work, release it. If the work
  keeps the counts and the release is of the same handle, the whole keeps them.
\<close>

lemma bracket:
  assumes "ref E h s = Some ((r, ncb), s1)" "0 \<le> r" "refs s2 = refs s1" "objdefr E h s2 = Some s3"
  shows "refs s3 = refs s"
  using ref_success [OF assms(1,2)] assms(3) refs_objdefr [OF assms(4)] by simp

lemma ref_exact:
  "((\<exists>s'. ref E h s = Some ((0, Some h), s')) \<longleftrightarrow> 0 \<le> h \<and> granted E h s \<and> (\<exists>n. ncbs s h = Some n \<and> good (proto_type n)))
   \<and> (\<forall>r ncb s'. ref E h s = Some ((r, ncb), s') \<longrightarrow>
      (if r = 0 then ncb = Some h \<and> heap s' = heap s \<and> ncbs s' = ncbs s \<and> refs s' = (refs s)(h := refs s h + 1)
       else r < 0 \<and> ncb = None \<and> refs s' = refs s))"
proof (intro conjI allI impI)
  fix r ncb s' assume e: "ref E h s = Some ((r, ncb), s')"
  show "if r = 0 then ncb = Some h \<and> heap s' = heap s \<and> ncbs s' = ncbs s \<and> refs s' = (refs s)(h := refs s h + 1)
      else r < 0 \<and> ncb = None \<and> refs s' = refs s"
    using ref_success [OF e] ref_failure [OF e] ref_code [OF e] by (cases "r = 0") auto
qed (rule ref_accepts)

lemma held:
  assumes "ref E h s = Some ((r, ncb), s1)" "0 \<le> r"
  shows "refs s1 h = refs s h + 1"
  using ref_success [OF assms] by simp

end

end
