(* ===== verification/Sockets.thy ===== *)
theory Sockets
  imports Refs
begin

text \<open>The socket helpers of \<open>network.c\<close>.\<close>

abbreviation "SOCK_STREAM \<equiv> (1 :: int)"
abbreviation "SOCK_DGRAM \<equiv> (2 :: int)"
abbreviation "SOCK_RAW \<equiv> (3 :: int)"
abbreviation "PF_INET \<equiv> (2 :: int)"

definition so_create :: "env \<Rightarrow> int \<Rightarrow> int \<Rightarrow> st \<Rightarrow> sock \<times> st" where
  "so_create E ty protocol s =
     (let (r, s1) = sysc E (C_WSASocket ty protocol) s in (word_of_int r, s1))"

definition so_bind :: "env \<Rightarrow> sock \<Rightarrow> u32 \<Rightarrow> u16 \<Rightarrow> st \<Rightarrow> int \<times> st" where
  "so_bind E sk ip port s =
     (if sk = INVALID_SOCKET then (- 1, s) else sysc E (C_bind sk ip port) s)"

definition so_asio_count :: int where
  "so_asio_count = 1"

end
