(* ===== verification/Tcp_Link.thy ===== *)
theory Tcp_Link
  imports Sockets
begin

text \<open>
  \<open>tcp.c\<close>, the link objects: the typed reference \<open>tcprefr\<close>, creation and destruction, the
  protocol template, addresses, options and attributes.
\<close>

definition TCP_RECV_BUFFER_SIZE :: int where "TCP_RECV_BUFFER_SIZE = 17 * PAGE_SIZE"
definition TCP_ACCEPT_EXTENSION_SIZE :: int where "TCP_ACCEPT_EXTENSION_SIZE = 1024"
definition TCP_LISTEN_BLOCK_COUNT :: int where "TCP_LISTEN_BLOCK_COUNT = 5"
definition TCP_SYN_REQ_TIMES :: nat where "TCP_SYN_REQ_TIMES = 150"
definition TCP_BUFFER_SIZE :: int where "TCP_BUFFER_SIZE = 0x11000"
definition TCP_MAXIMUM_PACKET_SIZE :: int where "TCP_MAXIMUM_PACKET_SIZE = 50 * 2 ^ 20"
definition TCP_MAXIMUM_TEMPLATE_SIZE :: int where "TCP_MAXIMUM_TEMPLATE_SIZE = 32"
definition TCP_MAXIMUM_SENDER_CACHED_CNT_PRE_LINK :: int where
  "TCP_MAXIMUM_SENDER_CACHED_CNT_PRE_LINK = 500"

definition SO_UPDATE_ACCEPT_CONTEXT :: int where "SO_UPDATE_ACCEPT_CONTEXT = 0x700B"
definition SO_UPDATE_CONNECT_CONTEXT :: int where "SO_UPDATE_CONNECT_CONTEXT = 0x7010"
definition TCP_NODELAY :: int where "TCP_NODELAY = 1"
definition TCP_MAXSEG :: int where "TCP_MAXSEG = 4"

subsection \<open>The typed reference\<close>

definition tcprefr :: "env \<Rightarrow> handle \<Rightarrow> st \<Rightarrow> ((int \<times> np) \<times> st) option" where
  "tcprefr E h s =
     (if h < 0 then Some ((- EINVAL, None), s)
      else let (ncb, s1) = objrefr E h s in
        case ncb of
          Some h' \<Rightarrow> do {
            n \<leftarrow> ncbs s1 h';
            if proto_type n = kProto_TCP then Some ((0, ncb), s1)
            else do { s2 \<leftarrow> objdefr E h s1; Some ((- EPROTOTYPE, None), s2) } }
        | None \<Rightarrow> Some ((- ENOENT, None), s1))"

interpretation tcp_ref: typed_ref tcprefr "\<lambda>p. p = kProto_TCP"
proof unfold_locales
  fix E h s r ncb s'
  assume t: "tcprefr E h s = Some ((r, ncb), s')"
  obtain np s1 where o: "objrefr E h s = (np, s1)" by (cases "objrefr E h s")
  { assume "0 \<le> r"
    with t o show "ncb = Some h \<and> heap s' = heap s \<and> ncbs s' = ncbs s
       \<and> (\<exists>n. ncbs s h = Some n \<and> proto_type n = kProto_TCP) \<and> refs s' = (refs s)(h := refs s h + 1)"
      by (cases np) (auto simp: tcprefr_def bind_eq_Some_conv
          dest!: objrefr_Some split: if_splits) }
  assume "r < 0"
  with t o show "ncb = None \<and> refs s' = refs s"
    by (cases np) (auto simp: tcprefr_def bind_eq_Some_conv fun_eq_iff
        dest!: objrefr_Some objrefr_None refs_objdefr split: if_splits)
next
  fix E h s
  show "(\<exists>s'. tcprefr E h s = Some ((0, Some h), s')) \<longleftrightarrow>
      0 \<le> h \<and> granted E h s \<and> (\<exists>n. ncbs s h = Some n \<and> proto_type n = kProto_TCP)"
    by (auto simp: tcprefr_def objref_def granted_def Let_def bind_eq_Some_conv)
next
  fix E h s r ncb s'
  assume "tcprefr E h s = Some ((r, ncb), s')"
  then show "r \<le> 0"
    by (auto simp: tcprefr_def objref_def Let_def bind_eq_Some_conv split: if_splits)
qed

subsection \<open>Socket options of a TCP link\<close>

definition tcp_setmss :: "env \<Rightarrow> np \<Rightarrow> int \<Rightarrow> st \<Rightarrow> (int \<times> st) option" where
  "tcp_setmss E ncb m s = (case ncb of
     Some h \<Rightarrow> if m > 0 then setsockopt E h IPPROTO_TCP TCP_MAXSEG (V_int m) s
       else Some (- EINVAL, s)
   | None \<Rightarrow> Some (- EINVAL, s))"

definition tcp_getmss :: "env \<Rightarrow> np \<Rightarrow> st \<Rightarrow> (int \<times> st) option" where
  "tcp_getmss E ncb s = (case ncb of
     None \<Rightarrow> Some (- EINVAL, s)
   | Some h \<Rightarrow> do {
       ((r, v, _), s1) \<leftarrow> getsockopt E h IPPROTO_TCP TCP_MAXSEG s;
       s2 \<leftarrow> (if r = 0 then mod_ncb h (\<lambda>n. n\<lparr>mss := v\<rparr>) s1 else Some s1);
       Some (r, s2) })"

definition tcp_set_nodelay :: "env \<Rightarrow> np \<Rightarrow> int \<Rightarrow> st \<Rightarrow> (int \<times> st) option" where
  "tcp_set_nodelay E ncb v s = (case ncb of
     Some h \<Rightarrow> setsockopt E h IPPROTO_TCP TCP_NODELAY (V_int v) s
   | None \<Rightarrow> Some (- EINVAL, s))"

definition tcp_get_nodelay :: "env \<Rightarrow> np \<Rightarrow> int option \<Rightarrow> st
    \<Rightarrow> ((int \<times> int option) \<times> st) option" where
  "tcp_get_nodelay E ncb v s = (case (ncb, v) of
     (Some h, Some old) \<Rightarrow> do {
       ((r, x, _), s1) \<leftarrow> getsockopt E h IPPROTO_TCP TCP_NODELAY s;
       Some ((r, Some (if r = 0 then x else old)), s1) }
   | _ \<Rightarrow> Some ((- EINVAL, v), s))"

definition tcp_update_opts :: "env \<Rightarrow> np \<Rightarrow> st \<Rightarrow> (int \<times> st) option" where
  "tcp_update_opts E ncb s = (case ncb of
     None \<Rightarrow> Some (- 1, s)
   | Some _ \<Rightarrow> do {
       (_, s1) \<leftarrow> ncb_set_window_size E ncb SO_RCVBUF TCP_BUFFER_SIZE s;
       (_, s2) \<leftarrow> ncb_set_window_size E ncb SO_SNDBUF TCP_BUFFER_SIZE s1;
       (_, s3) \<leftarrow> ncb_set_linger E ncb 1 0 s2;
       (_, s4) \<leftarrow> ncb_set_keepalive E ncb 1 s3;
       (_, s5) \<leftarrow> tcp_set_nodelay E ncb 1 s4;
       Some (0, s5) })"

subsection \<open>Creation and destruction\<close>

record tcp_cinit_t =
  ip :: u32
  port :: u16
  callback :: fptr
  is_remote :: bool

definition tcp_entry_body :: "env \<Rightarrow> handle \<Rightarrow> handle \<Rightarrow> tcp_cinit_t \<Rightarrow> st \<Rightarrow> (int \<times> st) option" where
  "tcp_entry_body E h ncb ctx s = do {
     s \<leftarrow> ncb_init (Some ncb) kProto_TCP s;
     s \<leftarrow> mod_ncb ncb (\<lambda>n. n\<lparr>nis_callback := callback ctx\<rparr>) s;
     s \<leftarrow> mod_ncb ncb (\<lambda>n. n\<lparr>hld := h\<rparr>) s;
     let (fd, s) = so_create E SOCK_STREAM IPPROTO_TCP s;
     s \<leftarrow> mod_ncb ncb (\<lambda>n. n\<lparr>sockfd := fd\<rparr>) s;
     if fd = INVALID_SOCKET then Some (- 1, s)
     else do {
       s \<leftarrow> InitializeCriticalSection ncb s;
       s \<leftarrow> mod_ncb ncb (\<lambda>n. n\<lparr>tcp_sender_cache_head := Some []\<rparr>) s;
       s \<leftarrow> mod_ncb ncb (\<lambda>n. n\<lparr>tcp_sender_list_size := 0, tcp_write_pending := 0\<rparr>) s;
       if is_remote ctx then Some (0, s)
       else do {
         (r, s) \<leftarrow> tcp_update_opts E (Some ncb) s;
         if r < 0 then Some (- 1, s)
         else do {
           s \<leftarrow> mod_ncb ncb (\<lambda>n. n\<lparr>local_addr :=
                 \<lparr>sin_family = PF_INET, sin_port = port ctx, sin_addr = ip ctx\<rparr>\<rparr>) s;
           let (r, s) = so_bind E fd (ip ctx) (port ctx) s;
           if r < 0 then Some (- 1, s)
           else do {
             (r, s) \<leftarrow> ioatth E (Some ncb) s;
             Some (if r < 0 then - 1 else 0, s) } } } } }"

definition tcp_entry :: "env \<Rightarrow> handle \<Rightarrow> np \<Rightarrow> tcp_cinit_t \<Rightarrow> st \<Rightarrow> (int \<times> st) option" where
  "tcp_entry E h ncb ctx s = (case ncb of
     None \<Rightarrow> Some (- 1, s)
   | Some b \<Rightarrow>
       if h < 0 then Some (- 1, s)
       else do {
         (retval, s1) \<leftarrow> tcp_entry_body E h b ctx s;
         n \<leftarrow> ncbs s1 b;
         s2 \<leftarrow> (if retval < 0 \<and> sockfd n > 0 then ioclose E ncb s1 else Some s1);
         Some (retval, s2) })"

definition tcp_allocate_object :: "env \<Rightarrow> tcp_cinit_t \<Rightarrow> st \<Rightarrow> (handle \<times> st) option" where
  "tcp_allocate_object E ctx s =
     (let (h, s1) = objallo E Tcp_unload s in
      if h < 0 then Some (- 1, s1)
      else do {
        let (ncb, s2) = objrefr E h s1;
        (retval, s3) \<leftarrow> tcp_entry E h ncb ctx s2;
        s4 \<leftarrow> objdefr E h s3;
        if retval < 0 then do { s5 \<leftarrow> objclos E h s4; Some (- 1, s5) }
        else Some (h, s4) })"

definition tcp_create :: "env \<Rightarrow> fptr \<Rightarrow> string option \<Rightarrow> u16 \<Rightarrow> st \<Rightarrow> (handle \<times> st) option" where
  "tcp_create E user_callback l_ipstr l_port s =
     (if user_callback = 0 then Some (INVALID_HTCPLINK (e_nis E), s)
      else case (case l_ipstr of None \<Rightarrow> Some 0 | Some str \<Rightarrow> e_pton E str) of
        None \<Rightarrow> Some (INVALID_HTCPLINK (e_nis E), s)
      | Some a \<Rightarrow> tcp_allocate_object E
          \<lparr>ip = a, port = htons l_port, callback = user_callback, is_remote = False\<rparr> s)"

definition tcp_destroy :: "env \<Rightarrow> handle \<Rightarrow> st \<Rightarrow> st option" where
  "tcp_destroy E lnk s =
     (let (ncb, s1) = objreff E lnk s in
      case ncb of
        None \<Rightarrow> Some s1
      | Some h \<Rightarrow> do { s2 \<leftarrow> ioclose E (Some h) s1; objdefr E lnk s2 })"

subsection \<open>The protocol template\<close>

text \<open>A \<open>tst_t *\<close> of the caller is an option, \<open>None\<close> for NULL.\<close>

definition tcp_settst :: "env \<Rightarrow> handle \<Rightarrow> tst_t option \<Rightarrow> st \<Rightarrow> (int \<times> st) option" where
  "tcp_settst E lnk tst s = (case tst of
     None \<Rightarrow> Some (- 1, s)
   | Some t \<Rightarrow> do {
       ((r, ncb), s1) \<leftarrow> tcprefr E lnk s;
       if r < 0 then Some (- 1, s1)
       else do {
         h \<leftarrow> ncb;
         s2 \<leftarrow> mod_ncb h (\<lambda>n. n\<lparr>tcp_tst := t\<rparr>) s1;
         s3 \<leftarrow> objdefr_ncb E h s2;
         Some (0, s3) } })"

text \<open>
  \<open>x = InterlockedExchange(&x, v)\<close>: the exchange stores \<open>v\<close> and returns the old value,
  which the assignment then stores back.
\<close>

definition tcp_settst_r :: "env \<Rightarrow> handle \<Rightarrow> tst_t option \<Rightarrow> st \<Rightarrow> (int \<times> st) option" where
  "tcp_settst_r E lnk tst s = (case tst of
     None \<Rightarrow> Some (- EINVAL, s)
   | Some t \<Rightarrow>
       if tst_cb t > TCP_MAXIMUM_TEMPLATE_SIZE then Some (- EINVAL, s)
       else do {
         ((r, ncb), s1) \<leftarrow> tcprefr E lnk s;
         if r < 0 then Some (r, s1)
         else do {
           h \<leftarrow> ncb;
           n \<leftarrow> ncbs s1 h;
           let old = tcp_tst n;
           s2 \<leftarrow> mod_ncb h (\<lambda>n. n\<lparr>tcp_tst := (tcp_tst n)\<lparr>tst_cb := tst_cb t\<rparr>\<rparr>) s1;
           s2 \<leftarrow> mod_ncb h (\<lambda>n. n\<lparr>tcp_tst := (tcp_tst n)\<lparr>tst_cb := tst_cb old\<rparr>\<rparr>) s2;
           s3 \<leftarrow> mod_ncb h (\<lambda>n. n\<lparr>tcp_tst := (tcp_tst n)\<lparr>builder := builder t\<rparr>\<rparr>) s2;
           s3 \<leftarrow> mod_ncb h (\<lambda>n. n\<lparr>tcp_tst := (tcp_tst n)\<lparr>builder := builder old\<rparr>\<rparr>) s3;
           s4 \<leftarrow> mod_ncb h (\<lambda>n. n\<lparr>tcp_tst := (tcp_tst n)\<lparr>parser := parser t\<rparr>\<rparr>) s3;
           s4 \<leftarrow> mod_ncb h (\<lambda>n. n\<lparr>tcp_tst := (tcp_tst n)\<lparr>parser := parser old\<rparr>\<rparr>) s4;
           s5 \<leftarrow> objdefr E lnk s4;
           Some (r, s5) } })"

text \<open>The results carry what the caller's structures hold afterwards.\<close>

definition tcp_gettst :: "env \<Rightarrow> handle \<Rightarrow> tst_t option \<Rightarrow> st
    \<Rightarrow> ((int \<times> tst_t option) \<times> st) option" where
  "tcp_gettst E lnk tst s = do {
     ((r, ncb), s1) \<leftarrow> tcprefr E lnk s;
     if r < 0 then Some ((- 1, tst), s1)
     else do {
       h \<leftarrow> ncb;
       n \<leftarrow> ncbs s1 h;
       _ \<leftarrow> tst;
       s2 \<leftarrow> objdefr_ncb E h s1;
       Some ((0, Some (tcp_tst n)), s2) } }"

definition tcp_gettst_r :: "env \<Rightarrow> handle \<Rightarrow> tst_t option \<Rightarrow> tst_t option \<Rightarrow> st
    \<Rightarrow> ((int \<times> tst_t option \<times> tst_t option) \<times> st) option" where
  "tcp_gettst_r E lnk tst previous s = (case tst of
     None \<Rightarrow> Some ((- EINVAL, None, previous), s)
   | Some t \<Rightarrow> do {
       ((r, ncb), s1) \<leftarrow> tcprefr E lnk s;
       if r < 0 then Some ((r, tst, previous), s1)
       else do {
         h \<leftarrow> ncb;
         n \<leftarrow> ncbs s1 h;
         s2 \<leftarrow> objdefr E lnk s1;
         Some ((r, Some (tcp_tst n), map_option (\<lambda>_. t) previous), s2) } })"

subsection \<open>Addresses, options and attributes\<close>

definition tcp_getaddr :: "env \<Rightarrow> handle \<Rightarrow> int \<Rightarrow> u32 option \<Rightarrow> u16 option \<Rightarrow> st
    \<Rightarrow> ((int \<times> u32 option \<times> u16 option) \<times> st) option" where
  "tcp_getaddr E lnk nType ipv4 portp s =
     (if lnk = INVALID_HTCPLINK (e_nis E) \<or> ipv4 = None \<or> portp = None
      then Some ((- 1, ipv4, portp), s)
      else do {
        ((r, ncb), s1) \<leftarrow> tcprefr E lnk s;
        if r < 0 then Some ((- 1, ipv4, portp), s1)
        else do {
          h \<leftarrow> ncb;
          n \<leftarrow> ncbs s1 h;
          let out = (if nType = LINK_ADDR_LOCAL (e_nis E) then
                (0, Some (htonl (sin_addr (local_addr n))), Some (htons (sin_port (local_addr n))))
              else if nType = LINK_ADDR_REMOTE (e_nis E) then
                (0, Some (htonl (sin_addr (remote_addr n))), Some (htons (sin_port (remote_addr n))))
              else (- 1, ipv4, portp));
          s2 \<leftarrow> objdefr_ncb E h s1;
          Some (out, s2) } })"

definition tcp_setopt :: "env \<Rightarrow> handle \<Rightarrow> int \<Rightarrow> int \<Rightarrow> byte list option \<Rightarrow> st
    \<Rightarrow> (int \<times> st) option" where
  "tcp_setopt E lnk level opt val s =
     (case val of
        None \<Rightarrow> Some (- 1, s)
      | Some v \<Rightarrow>
          if lnk = INVALID_HTCPLINK (e_nis E) then Some (- 1, s)
          else do {
            ((r, ncb), s1) \<leftarrow> tcprefr E lnk s;
            if r < 0 then Some (- 1, s1)
            else do {
              h \<leftarrow> ncb;
              n \<leftarrow> ncbs s1 h;
              (retval, s2) \<leftarrow> (if proto_type n = kProto_TCP
                then setsockopt E h level opt (V_bytes v) s1 else Some (- 1, s1));
              s3 \<leftarrow> objdefr_ncb E h s2;
              Some (retval, s3) } })"

definition tcp_getopt :: "env \<Rightarrow> handle \<Rightarrow> int \<Rightarrow> int \<Rightarrow> int option \<Rightarrow> st
    \<Rightarrow> ((int \<times> int option) \<times> st) option" where
  "tcp_getopt E lnk level opt val s =
     (case val of
        None \<Rightarrow> Some ((- 1, None), s)
      | Some old \<Rightarrow>
          if lnk = INVALID_HTCPLINK (e_nis E) then Some ((- 1, val), s)
          else do {
            ((r, ncb), s1) \<leftarrow> tcprefr E lnk s;
            if r < 0 then Some ((- 1, val), s1)
            else do {
              h \<leftarrow> ncb;
              n \<leftarrow> ncbs s1 h;
              (out, s2) \<leftarrow> (if proto_type n = kProto_TCP then do {
                    ((r, v, _), s2) \<leftarrow> getsockopt E h level opt s1;
                    Some ((r, Some (if r = 0 then v else old)), s2) }
                  else Some ((- 1, val), s1));
              s3 \<leftarrow> objdefr_ncb E h s2;
              Some (out, s3) } })"

definition tcp_setattr :: "env \<Rightarrow> handle \<Rightarrow> u32 \<Rightarrow> int \<Rightarrow> st \<Rightarrow> (int \<times> st) option" where
  "tcp_setattr E lnk a enable s = do {
     ((r, ncb), s1) \<leftarrow> tcprefr E lnk s;
     if r < 0 then Some (r, s1)
     else do {
       h \<leftarrow> ncb;
       (retval, s2) \<leftarrow>
         (if a = LINKATTR_TCP_FULLY_RECEIVE (e_nis E) \<or> a = LINKATTR_TCP_NO_BUILD (e_nis E)
             \<or> a = LINKATTR_TCP_UPDATE_ACCEPT_CONTEXT (e_nis E) then do {
            s2 \<leftarrow> mod_ncb h (\<lambda>n. n\<lparr>attr := if enable > 0 then attr n OR a
                 else attr n AND NOT a\<rparr>) s1;
            Some (0, s2) }
          else Some (- EINVAL, s1));
       s3 \<leftarrow> objdefr E lnk s2;
       Some (retval, s3) } }"

definition tcp_getattr :: "env \<Rightarrow> handle \<Rightarrow> u32 \<Rightarrow> int option \<Rightarrow> st
    \<Rightarrow> ((int \<times> int option) \<times> st) option" where
  "tcp_getattr E lnk a enabled s = do {
     ((r, ncb), s1) \<leftarrow> tcprefr E lnk s;
     if r < 0 then Some ((r, enabled), s1)
     else do {
       h \<leftarrow> ncb;
       n \<leftarrow> ncbs s1 h;
       _ \<leftarrow> enabled;
       s2 \<leftarrow> objdefr E lnk s1;
       Some ((r, Some (if attr n AND a \<noteq> 0 then 1 else 0)), s2) } }"

end
