(* ===== verification/Tcp_Accept.thy ===== *)
theory Tcp_Accept
  imports Tcp_Link
begin

text \<open>
  \<open>tcp.c\<close>, the passive side of a TCP link: \<open>tcp_syn\<close> posts an accept request,
  \<open>tcp_dispatch_io_syn\<close> takes an accepted connection over and re-arms the listener, and
  \<open>tcp_listen\<close> starts it. \<open>tcp_shutdown_by_packet\<close> gives up a request.
\<close>

text \<open>
  The \<open>do ... while ( i++ < TCP_SYN_REQ_TIMES )\<close> of \<open>tcp_syn\<close>; the number counts the
  rounds that may still follow. The result says whether a request was posted.
\<close>

fun tcp_syn_loop :: "env \<Rightarrow> handle \<Rightarrow> nat \<Rightarrow> nat \<Rightarrow> st \<Rightarrow> (bool \<times> st) option" where
  "tcp_syn_loop E hl p retries s = do {
     nl \<leftarrow> ncbs s hl;
     (h, s1) \<leftarrow> tcp_allocate_object E
       \<lparr>ip = 0, port = 0, callback = nis_callback nl, is_remote = True\<rparr> s;
     if h < 0 then Some (False, s1)
     else do {
       s2 \<leftarrow> mod_pkt p (\<lambda>k. k\<lparr>accepted_link := h\<rparr>) s1;
       (r, s3) \<leftarrow> asio_tcp_accept E (Some p) s2;
       if r \<ge> 0 then Some (True, s3)
       else do {
         s4 \<leftarrow> objclos E h s3;
         case retries of
           0 \<Rightarrow> Some (False, s4)
         | Suc m \<Rightarrow> tcp_syn_loop E hl p m s4 } } }"

definition tcp_syn :: "env \<Rightarrow> np \<Rightarrow> st \<Rightarrow> (int \<times> st) option" where
  "tcp_syn E ncb_listen s = (case ncb_listen of
     None \<Rightarrow> Some (- 1, s)
   | Some hl \<Rightarrow> do {
       nl \<leftarrow> ncbs s hl;
       ((r, syn_packet), s1) \<leftarrow>
         allocate_packet E (hld nl) kProto_TCP kSyn TCP_ACCEPT_EXTENSION_SIZE kVirtualHeap s;
       if r < 0 then Some (- 1, s1)
       else do {
         p \<leftarrow> syn_packet;
         (posted, s2) \<leftarrow> tcp_syn_loop E hl p TCP_SYN_REQ_TIMES s1;
         if posted then Some (0, s2)
         else do { s3 \<leftarrow> objclos_ncb E hl s2; Some (- 1, s3) } } })"

definition tcp_syn_copy :: "env \<Rightarrow> np \<Rightarrow> np \<Rightarrow> pp \<Rightarrow> st \<Rightarrow> (int \<times> st) option" where
  "tcp_syn_copy E ncb_listen ncb_accepted packet s =
     (case (ncb_listen, ncb_accepted, packet) of
        (Some hl, Some ha, Some p) \<Rightarrow> do {
          na \<leftarrow> ncbs s ha;
          let (status, s1) = (if fn_GetAcceptExSockaddrs s then (0, s)
            else sysc E (C_WSAIoctl (sockfd na) IO_GetAcceptExSockaddrs) s);
          if status < 0 then Some (- 1, s1)
          else do {
            let s1 = s1\<lparr>fn_GetAcceptExSockaddrs := True\<rparr>;
            nl \<leftarrow> ncbs s1 hl;
            (r, s2) \<leftarrow> setsockopt E ha SOL_SOCKET SO_UPDATE_ACCEPT_CONTEXT (V_sock (sockfd nl)) s1;
            if r \<ge> 0 then do {
              k \<leftarrow> get_pkt p s2;
              let (_, s3) = sysc E (C_GetAcceptExSockaddrs p) s2;
              let l = e_addr E (trace s2) (C_GetAcceptExSockaddrs p);
              let ra = e_addr2 E (trace s2) (C_GetAcceptExSockaddrs p);
              nl \<leftarrow> ncbs s3 hl;
              s4 \<leftarrow> (if attr nl AND LINKATTR_TCP_UPDATE_ACCEPT_CONTEXT (e_nis E) \<noteq> 0
                then mod_ncb ha (\<lambda>n. n\<lparr>attr := attr nl, tcp_tst := tcp_tst nl\<rparr>) s3
                else Some s3);
              s5 \<leftarrow> mod_ncb ha (\<lambda>n. n\<lparr>remote_addr := ra\<rparr>) s4;
              s6 \<leftarrow> mod_ncb ha (\<lambda>n. n\<lparr>local_addr := l\<rparr>) s5;
              (r2, s7) \<leftarrow> ioatth E ncb_accepted s6;
              if r2 \<ge> 0 then do {
                na \<leftarrow> ncbs s7 ha;
                s8 \<leftarrow> ncb_post_accepted ncb_listen (hld na) s7;
                Some (0, s8) }
              else Some (- 1, s7) }
            else Some (- 1, s2) } }
      | _ \<Rightarrow> Some (- 1, s))"

text \<open>The accepted side of \<open>tcp_dispatch_io_syn\<close>: \<open>retval\<close> of the copy, of the receive
  packet and of the first receive request.\<close>

definition tcp_accept_one :: "env \<Rightarrow> handle \<Rightarrow> handle \<Rightarrow> nat \<Rightarrow> st \<Rightarrow> (int \<times> st) option" where
  "tcp_accept_one E hl ha p s = do {
     (r, s1) \<leftarrow> tcp_syn_copy E (Some hl) (Some ha) (Some p) s;
     if r \<ge> 0 then do {
       na \<leftarrow> ncbs s1 ha;
       ((r2, packet_recv), s2) \<leftarrow>
         allocate_packet E (hld na) kProto_TCP kRecv TCP_RECV_BUFFER_SIZE kVirtualHeap s1;
       if r2 \<ge> 0 then asio_tcp_recv E packet_recv s2 else Some (r2, s2) }
     else Some (r, s1) }"

definition tcp_dispatch_io_syn :: "env \<Rightarrow> pp \<Rightarrow> st \<Rightarrow> st option" where
  "tcp_dispatch_io_syn E packet s = (case packet of
     None \<Rightarrow> Some s
   | Some p \<Rightarrow> do {
       k \<leftarrow> get_pkt p s;
       ((r, ncb_listen), s1) \<leftarrow> tcprefr E (link k) s;
       if r < 0 then Some s1
       else do {
         hl \<leftarrow> ncb_listen;
         ((r2, ncb_accepted), s2) \<leftarrow> tcprefr E (accepted_link k) s1;
         s3 \<leftarrow> (if r2 \<ge> 0 then do {
             ha \<leftarrow> ncb_accepted;
             (retval, s3) \<leftarrow> tcp_accept_one E hl ha p s2;
             s4 \<leftarrow> (if retval < 0 then objclos_ncb E ha s3 else Some s3);
             objdefr_ncb E ha s4 }
           else Some s2);
         (r3, s4) \<leftarrow> tcp_syn E ncb_listen s3;
         s5 \<leftarrow> (if r3 < 0 then objclos_ncb E hl s4 else Some s4);
         objdefr_ncb E hl s5 } })"

text \<open>The \<open>do ... while\<close> of \<open>tcp_listen\<close>, called with the number of requests still due.\<close>

fun tcp_listen_loop :: "env \<Rightarrow> handle \<Rightarrow> nat \<Rightarrow> st \<Rightarrow> (int \<times> st) option" where
  "tcp_listen_loop E h due s = do {
     (r, s1) \<leftarrow> tcp_syn E (Some h) s;
     case due of
       0 \<Rightarrow> Some (r, s1)
     | Suc m \<Rightarrow> (if r \<ge> 0 then tcp_listen_loop E h m s1 else Some (r, s1)) }"

definition tcp_listen :: "env \<Rightarrow> handle \<Rightarrow> int \<Rightarrow> st \<Rightarrow> (int \<times> st) option" where
  "tcp_listen E lnk blk s = do {
     ((r, ncb), s1) \<leftarrow> tcprefr E lnk s;
     if r < 0 then Some (- 1, s1)
     else do {
       h \<leftarrow> ncb;
       let blk = (if blk = 0 then TCP_LISTEN_BLOCK_COUNT else blk);
       n \<leftarrow> ncbs s1 h;
       let (r2, s2) = sysc E (C_listen (sockfd n) blk) s1;
       (retval, s3) \<leftarrow> (if r2 < 0 then Some (r2, s2)
         else tcp_listen_loop E h (nat (blk - 1)) s2);
       s4 \<leftarrow> objdefr_ncb E h s3;
       Some (retval, s4) } }"

definition tcp_shutdown_by_packet :: "env \<Rightarrow> pp \<Rightarrow> st \<Rightarrow> st option" where
  "tcp_shutdown_by_packet E packet s = (case packet of
     None \<Rightarrow> Some s
   | Some p \<Rightarrow> do {
       k \<leftarrow> get_pkt p s;
       if pkt_kind k = kRecv \<or> pkt_kind k = kSend \<or> pkt_kind k = kConnect then do {
         s1 \<leftarrow> objclos E (link k) s;
         freepkt E packet s1 }
       else if pkt_kind k = kSyn then do {
         ((r, ncb), s1) \<leftarrow> tcprefr E (link k) s;
         s2 \<leftarrow> (if r \<ge> 0 then do {
             h \<leftarrow> ncb;
             (_, s2) \<leftarrow> tcp_syn E ncb s1;
             objdefr_ncb E h s2 }
           else Some s1);
         s3 \<leftarrow> objclos E (accepted_link k) s2;
         freepkt E packet s3 }
       else Some s })"

end
