(* ===== verification/Tcp_Send.thy ===== *)
theory Tcp_Send
  imports Tcp_Accept
begin

text \<open>
  \<open>tcp.c\<close>, the sending side: \<open>tcp_write\<close> builds a packet and hands it to
  \<open>tcp_try_write\<close>, which queues it and, when no send of the link is in progress, posts the
  head of the queue; the completion of a send releases its packet and posts the next.
\<close>

subsection \<open>The queue and the write slot\<close>

text \<open>
  \<open>while (InterlockedIncrement(&pending) > 1) { if (InterlockedDecrement(&pending) > 0)
  return; }\<close>: \<open>True\<close> when the loop ends by its condition, which claims the slot. Between
  the two operations other threads may run; \<open>Sender_Conc\<close> models that.
\<close>

partial_function (option) write_slot :: "handle \<Rightarrow> st \<Rightarrow> (bool \<times> st) option" where
  "write_slot h s = do {
     s1 \<leftarrow> mod_ncb h (\<lambda>n. n\<lparr>tcp_write_pending := i32 (tcp_write_pending n + 1)\<rparr>) s;
     n1 \<leftarrow> ncbs s1 h;
     if tcp_write_pending n1 > 1 then do {
       s2 \<leftarrow> mod_ncb h (\<lambda>n. n\<lparr>tcp_write_pending := i32 (tcp_write_pending n - 1)\<rparr>) s1;
       n2 \<leftarrow> ncbs s2 h;
       if tcp_write_pending n2 > 0 then Some (False, s2) else write_slot h s2 }
     else Some (True, s1) }"

text \<open>
  The part of \<open>tcp_try_write\<close> that decides whether there is something to send: \<open>True\<close> when
  it goes on with \<open>retval = 0\<close>, \<open>False\<close> when it leaves the block with \<open>retval = -1\<close>.
\<close>

definition try_enqueue :: "handle \<Rightarrow> pp \<Rightarrow> st \<Rightarrow> (bool \<times> st) option" where
  "try_enqueue h packet s = (case packet of
     Some p \<Rightarrow> do {
       s1 \<leftarrow> mod_ncb h (\<lambda>n. n\<lparr>tcp_sender_list_size := i32 (tcp_sender_list_size n + 1)\<rparr>) s;
       n1 \<leftarrow> ncbs s1 h;
       if tcp_sender_list_size n1 \<ge> TCP_MAXIMUM_SENDER_CACHED_CNT_PRE_LINK then do {
         s2 \<leftarrow> mod_ncb h (\<lambda>n. n\<lparr>tcp_sender_list_size := i32 (tcp_sender_list_size n - 1)\<rparr>) s1;
         Some (False, s2) }
       else do {
         q \<leftarrow> tcp_sender_cache_head n1;
         s2 \<leftarrow> mod_ncb h (\<lambda>n. n\<lparr>tcp_sender_cache_head := Some (q @ [p])\<rparr>) s1;
         Some (True, s2) } }
   | None \<Rightarrow> do {
       n \<leftarrow> ncbs s h;
       q \<leftarrow> tcp_sender_cache_head n;
       Some (q \<noteq> [], s) })"

text \<open>\<open>list_first_entry\<close>, \<open>list_del_init\<close> and the decrease of the count.\<close>

definition pop_sender :: "handle \<Rightarrow> st \<Rightarrow> (nat \<times> st) option" where
  "pop_sender h s = do {
     n \<leftarrow> ncbs s h;
     q \<leftarrow> tcp_sender_cache_head n;
     case q of
       [] \<Rightarrow> None
     | p # q' \<Rightarrow> do {
         s1 \<leftarrow> mod_ncb h (\<lambda>n. n\<lparr>tcp_sender_cache_head := Some q'\<rparr>) s;
         s2 \<leftarrow> mod_ncb h (\<lambda>n. n\<lparr>tcp_sender_list_size := i32 (tcp_sender_list_size n - 1)\<rparr>) s1;
         Some (p, s2) } }"

definition tcp_try_write :: "env \<Rightarrow> np \<Rightarrow> pp \<Rightarrow> st \<Rightarrow> (int \<times> st) option" where
  "tcp_try_write E ncb packet s = (case ncb of
     None \<Rightarrow> Some (- 1, s)
   | Some h \<Rightarrow> do {
       s1 \<leftarrow> EnterCriticalSection h s;
       (go, s2) \<leftarrow> try_enqueue h packet s1;
       if \<not> go then do { s3 \<leftarrow> LeaveCriticalSection h s2; Some (- 1, s3) }
       else do {
         (slot, s3) \<leftarrow> write_slot h s2;
         if \<not> slot then do { s4 \<leftarrow> LeaveCriticalSection h s3; Some (0, s4) }
         else do {
           (next_packet, s4) \<leftarrow> pop_sender h s3;
           s5 \<leftarrow> LeaveCriticalSection h s4;
           (r, s6) \<leftarrow> asio_tcp_send E (Some next_packet) s5;
           s7 \<leftarrow> (if r < 0 then tcp_shutdown_by_packet E (Some next_packet) s6 else Some s6);
           Some (0, s7) } } })"

subsection \<open>Writing\<close>

text \<open>
  The buffer of a packet: \<open>(ok, buffer, total_packet_length)\<close>, where \<open>ok\<close> is false when
  the C code leaves the block by \<open>break\<close> with \<open>buffer\<close> as it is then. The user's data is
  \<open>origin\<close>; reading more of it than it has, or from NULL, is undefined.
\<close>

definition copy_origin :: "ptr \<Rightarrow> byte list \<Rightarrow> int \<Rightarrow> st \<Rightarrow> st option" where
  "copy_origin dst origin cb s =
     (if 0 \<le> cb \<and> cb \<le> int (length origin) then store dst (take (nat cb) origin) s else None)"

definition run_serializer :: "env \<Rightarrow> fptr \<Rightarrow> ptr \<Rightarrow> byte list option \<Rightarrow> int \<Rightarrow> st \<Rightarrow> (bool \<times> st) option" where
  "run_serializer E f dst origin cb s =
     (let (r, out) = e_serializer E f origin cb in
      do { s1 \<leftarrow> store dst out s; Some (\<not> r < 0, s1) })"

definition fill_payload :: "env \<Rightarrow> fptr \<Rightarrow> ptr \<Rightarrow> byte list option \<Rightarrow> int \<Rightarrow> int \<Rightarrow> st \<Rightarrow> (bool \<times> st) option" where
  "fill_payload E serializer dst origin cb cb_serial s =
     (if serializer \<noteq> 0 then run_serializer E serializer dst origin cb_serial s
      else do { data \<leftarrow> origin; s1 \<leftarrow> copy_origin dst data cb s; Some (True, s1) })"

definition tcp_build_buffer :: "env \<Rightarrow> handle \<Rightarrow> byte list \<Rightarrow> int \<Rightarrow> fptr \<Rightarrow> st
    \<Rightarrow> ((bool \<times> ptr \<times> int) \<times> st) option" where
  "tcp_build_buffer E h origin cb serializer s = do {
     n \<leftarrow> ncbs s h;
     let t = tcp_tst n;
     if builder t = 0 \<or> attr n AND LINKATTR_TCP_NO_BUILD (e_nis E) \<noteq> 0 then do {
       let (buffer, s1) = malloc E cb s;
       if buffer = Null then Some ((False, buffer, cb), s1)
       else do {
         (ok, s2) \<leftarrow> fill_payload E serializer buffer (Some origin) cb cb s1;
         Some ((ok, buffer, cb), s2) } }
     else do {
       total \<leftarrow> int32 (tst_cb t + cb);
       let (buffer, s1) = malloc E total s;
       if buffer = Null then Some ((False, buffer, total), s1)
       else do {
         let (r, hdr) = e_builder E (builder t) cb;
         s2 \<leftarrow> store buffer hdr s1;
         if r < 0 then Some ((False, buffer, total), s2)
         else do {
           (ok, s3) \<leftarrow> fill_payload E serializer (padd buffer (tst_cb t)) (Some origin) cb (cb - tst_cb t) s2;
           Some ((ok, buffer, total), s3) } } } }"

definition tcp_write :: "env \<Rightarrow> handle \<Rightarrow> byte list option \<Rightarrow> int \<Rightarrow> fptr \<Rightarrow> st
    \<Rightarrow> (int \<times> st) option" where
  "tcp_write E lnk origin cb serializer s =
     (case origin of
        None \<Rightarrow> Some (- 1, s)
      | Some data \<Rightarrow>
          if lnk = INVALID_HTCPLINK (e_nis E) \<or> cb \<le> 0 \<or> cb > TCP_MAXIMUM_PACKET_SIZE
          then Some (- 1, s)
          else do {
            ((r, ncb), s1) \<leftarrow> tcprefr E lnk s;
            if r < 0 then Some (- ENOENT, s1)
            else do {
              h \<leftarrow> ncb;
              n \<leftarrow> ncbs s1 h;
              (retval, s6) \<leftarrow>
                (if tcp_sender_list_size n \<ge> TCP_MAXIMUM_SENDER_CACHED_CNT_PRE_LINK
                 then Some (- 1, s1)
                 else do {
                   ((ok, buffer, total), s2) \<leftarrow> tcp_build_buffer E h data cb serializer s1;
                   if \<not> ok then do { s3 \<leftarrow> free buffer s2; Some (- 1, s3) }
                   else do {
                     ((r2, packet), s3) \<leftarrow>
                       allocate_packet E lnk kProto_TCP kSend 0 kNoAccess s2;
                     if r2 < 0 then do { s4 \<leftarrow> free buffer s3; Some (- 1, s4) }
                     else do {
                       p \<leftarrow> packet;
                       s4 \<leftarrow> mod_pkt p (\<lambda>k. k\<lparr>ori_buffer := buffer, irp := buffer,
                               size_for_req := total\<rparr>) s3;
                       (r3, s5) \<leftarrow> tcp_try_write E ncb packet s4;
                       s6 \<leftarrow> (if r3 < 0 then freepkt E packet s5 else Some s5);
                       Some (r3, s6) } } });
              s7 \<leftarrow> objdefr_ncb E h s6;
              Some (retval, s7) } })"

subsection \<open>Completions of sends\<close>

definition tcp_dispatch_io_send :: "env \<Rightarrow> pp \<Rightarrow> st \<Rightarrow> st option" where
  "tcp_dispatch_io_send E packet s = (case packet of
     None \<Rightarrow> Some s
   | Some p \<Rightarrow> do {
       k \<leftarrow> get_pkt p s;
       if size_for_translation k \<le> 0 then tcp_shutdown_by_packet E packet s
       else do {
         ((r, ncb), s1) \<leftarrow> tcprefr E (link k) s;
         if r < 0 then freepkt E packet s1
         else do {
           h \<leftarrow> ncb;
           s2 \<leftarrow> mod_ncb h (\<lambda>n. n\<lparr>tcp_write_pending := i32 (tcp_write_pending n - 1)\<rparr>) s1;
           (_, s3) \<leftarrow> tcp_try_write E ncb None s2;
           s4 \<leftarrow> freepkt E packet s3;
           objdefr E (link k) s4 } } })"

text \<open>The \<open>NTSTATUS\<close> values are 32-bit patterns read as signed numbers.\<close>

definition STATUS_REMOTE_DISCONNECT :: int where
  "STATUS_REMOTE_DISCONNECT = 0xC000013C - 2 ^ 32"
definition STATUS_CONNECTION_DISCONNECTED :: int where
  "STATUS_CONNECTION_DISCONNECTED = 0xC000020C - 2 ^ 32"
definition STATUS_CONNECTION_RESET :: int where
  "STATUS_CONNECTION_RESET = 0xC000020D - 2 ^ 32"

definition tcp_dispatch_io_exception :: "env \<Rightarrow> pp \<Rightarrow> int \<Rightarrow> st \<Rightarrow> st option" where
  "tcp_dispatch_io_exception E packet status s = (case packet of
     None \<Rightarrow> Some s
   | Some p \<Rightarrow> do {
       k \<leftarrow> get_pkt p s;
       ((r, ncb), s1) \<leftarrow> tcprefr E (link k) s;
       if r < 0 then freepkt E packet s1
       else do {
         h \<leftarrow> ncb;
         s4 \<leftarrow>
           (if pkt_kind k \<noteq> kSend \<or> status = STATUS_REMOTE_DISCONNECT
               \<or> status = STATUS_CONNECTION_DISCONNECTED \<or> status = STATUS_CONNECTION_RESET
            then tcp_shutdown_by_packet E packet s1
            else do {
              s2 \<leftarrow> mod_ncb h (\<lambda>n. n\<lparr>tcp_write_pending := i32 (tcp_write_pending n - 1)\<rparr>) s1;
              s3 \<leftarrow> freepkt E packet s2;
              (_, s4) \<leftarrow> tcp_try_write E ncb None s3;
              Some s4 });
         objdefr_ncb E h s4 } })"

end
