(* ===== verification/Tcp_Recv.thy ===== *)
theory Tcp_Recv
  imports Tcp_Send
begin

text \<open>
  \<open>tcp.c\<close>, the receiving side: the split of the byte stream of a link into the logical
  packets of its protocol template. A packet that does not fit the receive buffer is
  collected in the large-block buffer of the control block.
\<close>

subsection \<open>Large packets\<close>

definition tcp_lb_assemble :: "env \<Rightarrow> np \<Rightarrow> pp \<Rightarrow> st \<Rightarrow> (int \<times> st) option" where
  "tcp_lb_assemble E ncb packet s = (case (packet, ncb) of
     (Some p, Some h) \<Rightarrow> do {
       k \<leftarrow> get_pkt p s;
       n \<leftarrow> ncbs s h;
       if size_for_translation k = 0 then Some (- 1, s)
       else if parser (tcp_tst n) = 0 then Some (- 1, s)
       else do {
         let current_usefule_size = size_for_translation k;
         hdr \<leftarrow> load (lb_data n) (tst_cb (tcp_tst n)) s;
         let (r, user_size) = e_parser E (parser (tcp_tst n)) hdr;
         if r < 0 then Some (- 1, s)
         else do {
           logic_revise_acquire_size \<leftarrow> int32 (user_size + tst_cb (tcp_tst n));
           lb_acquire_size \<leftarrow> int32 (logic_revise_acquire_size - lb_cpy_offset n);
           if current_usefule_size < lb_acquire_size then do {
             massert (lb_cpy_offset n + current_usefule_size \<le> lb_length n);
             s1 \<leftarrow> memcpy (padd (lb_data n) (lb_cpy_offset n)) (ori_buffer k) current_usefule_size s;
             s2 \<leftarrow> mod_ncb h (\<lambda>n. n\<lparr>lb_cpy_offset := lb_cpy_offset n + current_usefule_size\<rparr>) s1;
             Some (0, s2) }
           else do {
             massert (lb_cpy_offset n + lb_acquire_size \<le> lb_length n);
             s1 \<leftarrow> memcpy (padd (lb_data n) (lb_cpy_offset n)) (ori_buffer k) lb_acquire_size s;
             s2 \<leftarrow> ncb_post_recvdata ncb user_size (padd (lb_data n) (tst_cb (tcp_tst n))) s1;
             s3 \<leftarrow> ncb_unmark_lb ncb s2;
             s4 \<leftarrow> (if current_usefule_size \<noteq> lb_acquire_size then do {
                 s4 \<leftarrow> memmove (ori_buffer k) (padd (ori_buffer k) lb_acquire_size)
                         (current_usefule_size - lb_acquire_size) s3;
                 mod_pkt p (\<lambda>k. k\<lparr>size_for_translation := size_for_translation k - lb_acquire_size\<rparr>) s4 }
               else Some s3);
             Some (current_usefule_size - lb_acquire_size, s4) } } } }
   | _ \<Rightarrow> Some (- 1, s))"

subsection \<open>The parse loop\<close>

text \<open>
  The loop of \<open>tcp_prase_logic_packet\<close> over \<open>current_parse_offset\<close> and
  \<open>current_usefule_size\<close>. \<open>Break\<close> leaves the loop with both, \<open>Return\<close> leaves the function.
  A call of the parser through a NULL pointer is undefined.
\<close>

datatype parse_exit = Break int int | Return int

definition deliver_logic_packet :: "env \<Rightarrow> handle \<Rightarrow> packet_t \<Rightarrow> ncb_t \<Rightarrow> int \<Rightarrow> int \<Rightarrow> st \<Rightarrow> st option" where
  "deliver_logic_packet E h k n current_parse_offset user_size s =
     (if attr n AND LINKATTR_TCP_FULLY_RECEIVE (e_nis E) \<noteq> 0
      then ncb_post_recvdata (Some h) (user_size + tst_cb (tcp_tst n))
             (padd (ori_buffer k) current_parse_offset) s
      else ncb_post_recvdata (Some h) user_size
             (padd (ori_buffer k) (current_parse_offset + tst_cb (tcp_tst n))) s)"

partial_function (option) parse_loop :: "env \<Rightarrow> handle \<Rightarrow> nat \<Rightarrow> int \<Rightarrow> int \<Rightarrow> st
    \<Rightarrow> (parse_exit \<times> st) option" where
  "parse_loop E h p current_parse_offset current_usefule_size s = do {
     k \<leftarrow> get_pkt p s;
     n \<leftarrow> ncbs s h;
     let cb = tst_cb (tcp_tst n);
     if current_usefule_size < cb then Some (Break current_parse_offset current_usefule_size, s)
     else do {
       massert (parser (tcp_tst n) \<noteq> 0);
       hdr \<leftarrow> load (padd (ori_buffer k) current_parse_offset) cb s;
       let (r, user_size) = e_parser E (parser (tcp_tst n)) hdr;
       if r < 0 then Some (Return (- 1), s)
       else if user_size > TCP_MAXIMUM_PACKET_SIZE \<or> user_size < 0 then Some (Return (- 1), s)
       else do {
         total_packet_length \<leftarrow> int32 (user_size + cb);
         if total_packet_length > TCP_RECV_BUFFER_SIZE then do {
           (m, s1) \<leftarrow> ncb_mark_lb E (Some h) total_packet_length current_usefule_size
                       (padd (ori_buffer k) current_parse_offset) s;
           if m < 0 then Some (Return (- 1), s1)
           else do {
             s2 \<leftarrow> mod_pkt p (\<lambda>k. k\<lparr>analyzed_offset := 0\<rparr>) s1;
             Some (Return 0, s2) } }
         else if current_usefule_size < total_packet_length
         then Some (Break current_parse_offset current_usefule_size, s)
         else do {
           s1 \<leftarrow> deliver_logic_packet E h k n current_parse_offset user_size s;
           parse_loop E h p (current_parse_offset + total_packet_length)
             (current_usefule_size - total_packet_length) s1 } } } }"

definition tcp_prase_logic_packet :: "env \<Rightarrow> np \<Rightarrow> pp \<Rightarrow> st \<Rightarrow> (int \<times> st) option" where
  "tcp_prase_logic_packet E ncb packet s = (case (packet, ncb) of
     (Some p, Some h) \<Rightarrow> do {
       k \<leftarrow> get_pkt p s;
       n \<leftarrow> ncbs s h;
       if size_for_translation k = 0 then Some (- 1, s)
       else do {
         current_usefule_size \<leftarrow> int32 (analyzed_offset k + size_for_translation k);
         if tst_cb (tcp_tst n) = 0 then do {
           s1 \<leftarrow> ncb_post_recvdata ncb current_usefule_size (ori_buffer k) s;
           s2 \<leftarrow> mod_pkt p (\<lambda>k. k\<lparr>analyzed_offset := 0\<rparr>) s1;
           Some (0, s2) }
         else do {
           (out, s1) \<leftarrow> parse_loop E h p 0 current_usefule_size s;
           case out of
             Return r \<Rightarrow> Some (r, s1)
           | Break off useful \<Rightarrow> do {
               s2 \<leftarrow> mod_pkt p (\<lambda>k. k\<lparr>analyzed_offset := useful\<rparr>) s1;
               s3 \<leftarrow> (if useful \<noteq> 0 \<and> off \<noteq> 0
                 then memmove (ori_buffer k) (padd (ori_buffer k) off) useful s2
                 else Some s2);
               Some (0, s3) } } } }
   | _ \<Rightarrow> Some (- 1, s))"

subsection \<open>The receive completion\<close>

text \<open>
  The \<open>do { ... } while ( FALSE )\<close> block of \<open>tcp_dispatch_io_recv\<close>: its second part, which
  parses and prepares the next request, and the whole block. Both give its \<open>retval\<close>.
\<close>

definition tcp_recv_parse :: "env \<Rightarrow> handle \<Rightarrow> nat \<Rightarrow> st \<Rightarrow> (int \<times> st) option" where
  "tcp_recv_parse E h p s = do {
     (r, s1) \<leftarrow> tcp_prase_logic_packet E (Some h) (Some p) s;
     if r < 0 then Some (r, s1)
     else do {
       s2 \<leftarrow> mod_pkt p (\<lambda>k. k\<lparr>irp := padd (ori_buffer k) (analyzed_offset k),
               size_for_req := TCP_RECV_BUFFER_SIZE - analyzed_offset k\<rparr>) s1;
       Some (r, s2) } }"

definition tcp_recv_block :: "env \<Rightarrow> handle \<Rightarrow> nat \<Rightarrow> st \<Rightarrow> (int \<times> st) option" where
  "tcp_recv_block E h p s = do {
     marked \<leftarrow> ncb_lb_marked (Some h) s;
     if marked then do {
       (r, s1) \<leftarrow> tcp_lb_assemble E (Some h) (Some p) s;
       if r \<le> 0 then Some (r, s1) else tcp_recv_parse E h p s1 }
     else tcp_recv_parse E h p s }"

definition tcp_dispatch_io_recv :: "env \<Rightarrow> pp \<Rightarrow> st \<Rightarrow> st option" where
  "tcp_dispatch_io_recv E packet s = (case packet of
     None \<Rightarrow> Some s
   | Some p \<Rightarrow> do {
       k \<leftarrow> get_pkt p s;
       if size_for_translation k \<le> 0 then tcp_shutdown_by_packet E packet s
       else do {
         ((r, ncb), s1) \<leftarrow> tcprefr E (link k) s;
         if r < 0 then freepkt E packet s1
         else do {
           h \<leftarrow> ncb;
           (retval, s2) \<leftarrow> tcp_recv_block E h p s1;
           (retval, s3) \<leftarrow> (if retval \<ge> 0 then asio_tcp_recv E packet s2 else Some (retval, s2));
           s4 \<leftarrow> (if retval < 0 then do {
               s4 \<leftarrow> objclos_ncb E h s3;
               freepkt E packet s4 }
             else Some s3);
           objdefr_ncb E h s4 } } })"

end
