(* ===== verification/Tcp_Conn.thy ===== *)
theory Tcp_Conn
  imports Tcp_Recv
begin

text \<open>
  \<open>tcp.c\<close>, connecting (\<open>tcp_connect\<close> blocks, \<open>tcp_connect2\<close> completes in
  \<open>tcp_dispatch_io_connected\<close>), waking a worker through the completion port
  (\<open>tcp_awaken\<close>), and the dispatch of the completions of TCP requests.
\<close>

text \<open>
  When the local address was left to the system, the address it chose is asked for. The
  address is stored in host order, the port in network order.
\<close>

definition update_local_addr :: "env \<Rightarrow> handle \<Rightarrow> st \<Rightarrow> st option" where
  "update_local_addr E h s = do {
     n \<leftarrow> ncbs s h;
     if sin_port (local_addr n) = 0 \<or> sin_addr (local_addr n) = 0 then do {
       let (r, s1) = sysc E (C_getsockname (sockfd n)) s;
       let nm = e_addr E (trace s) (C_getsockname (sockfd n));
       if r \<ge> 0 then mod_ncb h (\<lambda>n. n\<lparr>local_addr := (local_addr n)
             \<lparr>sin_port := sin_port nm, sin_addr := ntohl (sin_addr nm)\<rparr>\<rparr>) s1
       else Some s1 }
     else Some s }"

text \<open>
  The completion of a connect asks for the remote address; \<open>r\<close> is what the update of the
  connect context returned.
\<close>

definition update_remote_addr :: "env \<Rightarrow> handle \<Rightarrow> int \<Rightarrow> st \<Rightarrow> st option" where
  "update_remote_addr E h r s = do {
     n \<leftarrow> ncbs s h;
     if r \<ge> 0 then do {
       let (r3, s5) = sysc E (C_getpeername (sockfd n)) s;
       let a = e_addr E (trace s) (C_getpeername (sockfd n));
       if r3 = 0 then mod_ncb h (\<lambda>n. n\<lparr>remote_addr := a\<rparr>) s5 else Some s5 }
     else Some s }"

definition tcp_dispatch_io_connected :: "env \<Rightarrow> pp \<Rightarrow> st \<Rightarrow> st option" where
  "tcp_dispatch_io_connected E packet_connect s = (case packet_connect of
     None \<Rightarrow> Some s
   | Some p \<Rightarrow> do {
       k \<leftarrow> get_pkt p s;
       ((r, ncb), s1) \<leftarrow> tcprefr E (link k) s;
       if r < 0 then freepkt E packet_connect s1
       else do {
         h \<leftarrow> ncb;
         s2 \<leftarrow> freepkt E packet_connect s1;
         s3 \<leftarrow> update_local_addr E h s2;
         (r2, s4) \<leftarrow> setsockopt E h SOL_SOCKET SO_UPDATE_CONNECT_CONTEXT V_none s3;
         s5 \<leftarrow> update_remote_addr E h r2 s4;
         n \<leftarrow> ncbs s5 h;
         ((r4, packet_recv), s6) \<leftarrow>
           allocate_packet E (hld n) kProto_TCP kRecv TCP_RECV_BUFFER_SIZE kVirtualHeap s5;
         (ok, s7) \<leftarrow> (if r4 < 0 then Some (False, s6)
           else do {
             (r5, s7) \<leftarrow> asio_tcp_recv E packet_recv s6;
             if r5 < 0 then do { s8 \<leftarrow> tcp_shutdown_by_packet E packet_recv s7; Some (False, s8) }
             else Some (True, s7) });
         if ok then do {
           s8 \<leftarrow> ncb_post_connected ncb s7;
           objdefr_ncb E h s8 }
         else do {
           s8 \<leftarrow> objdefr_ncb E h s7;
           objclos_ncb E h s8 } } })"

definition tcp_dispatch_io_event :: "env \<Rightarrow> pp \<Rightarrow> int \<Rightarrow> st \<Rightarrow> st option" where
  "tcp_dispatch_io_event E packet status s = (case packet of
     None \<Rightarrow> Some s
   | Some p \<Rightarrow>
       if status < 0 then tcp_dispatch_io_exception E packet status s
       else do {
         k \<leftarrow> get_pkt p s;
         (case pkt_kind k of
            kSyn \<Rightarrow> tcp_dispatch_io_syn E packet s
          | kRecv \<Rightarrow> tcp_dispatch_io_recv E packet s
          | kSend \<Rightarrow> tcp_dispatch_io_send E packet s
          | kConnect \<Rightarrow> tcp_dispatch_io_connected E packet s
          | _ \<Rightarrow> Some s) })"

subsection \<open>Connecting\<close>

text \<open>
  The block of \<open>tcp_connect\<close> after the address is known: \<open>Some p\<close> besides a failure is the
  packet to free.
\<close>

definition tcp_connect_body :: "env \<Rightarrow> handle \<Rightarrow> u32 \<Rightarrow> u16 \<Rightarrow> st \<Rightarrow> ((int \<times> pp) \<times> st) option" where
  "tcp_connect_body E h a r_port s = do {
     n \<leftarrow> ncbs s h;
     let (r, s1) = sysc E (C_connect (sockfd n) \<lparr>sin_family = AF_INET, sin_port = htons r_port, sin_addr = a\<rparr>) s;
     if r = SOCKET_ERROR then Some ((- 1, None), s1)
     else do {
       s2 \<leftarrow> update_local_addr E h s1;
       ((r2, packet), s3) \<leftarrow>
         allocate_packet E (hld n) kProto_TCP kRecv TCP_RECV_BUFFER_SIZE kVirtualHeap s2;
       if r2 < 0 then Some ((- 1, None), s3)
       else do {
         (r3, s4) \<leftarrow> asio_tcp_recv E packet s3;
         if r3 < 0 then Some ((- 1, packet), s4)
         else do {
           s5 \<leftarrow> ncb_post_connected (Some h) s4;
           s6 \<leftarrow> mod_ncb h (\<lambda>n. n\<lparr>remote_addr := (remote_addr n)\<lparr>sin_addr := a\<rparr>\<rparr>) s5;
           s7 \<leftarrow> mod_ncb h (\<lambda>n. n\<lparr>remote_addr := (remote_addr n)\<lparr>sin_port := htons r_port\<rparr>\<rparr>) s6;
           Some ((0, None), s7) } } } }"

definition tcp_connect :: "env \<Rightarrow> handle \<Rightarrow> string option \<Rightarrow> u16 \<Rightarrow> st \<Rightarrow> (int \<times> st) option" where
  "tcp_connect E lnk r_ipstr r_port s = (case r_ipstr of
     None \<Rightarrow> Some (- EINVAL, s)
   | Some str \<Rightarrow>
       if r_port = 0 then Some (- EINVAL, s)
       else do {
         ((r, ncb), s1) \<leftarrow> tcprefr E lnk s;
         if r < 0 then Some (- 1, s1)
         else do {
           h \<leftarrow> ncb;
           (case e_pton E str of
              None \<Rightarrow> do { s2 \<leftarrow> objdefr_ncb E h s1; Some (- 1, s2) }
            | Some a \<Rightarrow> do {
                ((retval, packet), s2) \<leftarrow> tcp_connect_body E h a r_port s1;
                s3 \<leftarrow> freepkt E packet s2;
                s4 \<leftarrow> objdefr_ncb E h s3;
                Some (retval, s4) }) } })"

definition tcp_connect2 :: "env \<Rightarrow> handle \<Rightarrow> string option \<Rightarrow> u16 \<Rightarrow> st \<Rightarrow> (int \<times> st) option" where
  "tcp_connect2 E lnk r_ipstr r_port s = (case r_ipstr of
     None \<Rightarrow> Some (- EINVAL, s)
   | Some str \<Rightarrow>
       if r_port = 0 then Some (- EINVAL, s)
       else do {
         ((r, ncb), s1) \<leftarrow> tcprefr E lnk s;
         if r < 0 then Some (- 1, s1)
         else do {
           h \<leftarrow> ncb;
           n \<leftarrow> ncbs s1 h;
           ((r2, packet), s2) \<leftarrow> allocate_packet E (hld n) kProto_TCP kConnect 0 kNoAccess s1;
           (retval, s3) \<leftarrow> (if r2 < 0 then Some (- 1, s2)
             else do {
               p \<leftarrow> packet;
               case e_pton E str of
                 None \<Rightarrow> Some (- 1, s2)
               | Some a \<Rightarrow> do {
                   s3 \<leftarrow> mod_pkt p (\<lambda>k. k\<lparr>pkt_remote_addr :=
                       Some \<lparr>sin_family = AF_INET, sin_port = htons r_port, sin_addr = a\<rparr>\<rparr>) s2;
                   (r3, s4) \<leftarrow> asio_tcp_connect E packet s3;
                   Some (if r3 < 0 then - 1 else 0, s4) } });
           s4 \<leftarrow> (if retval < 0 then freepkt E packet s3 else Some s3);
           s5 \<leftarrow> objdefr_ncb E h s4;
           Some (retval, s5) } })"

subsection \<open>Waking a worker\<close>

text \<open>
  \<open>tcp_awaken\<close>; \<open>udp_awaken\<close> has the same body. The packet carries a copy of the caller's
  data to the pipe event. The \<open>memcpy\<close> runs for every \<open>cb\<close>, also when no buffer was made.
\<close>

definition tcp_awaken :: "env \<Rightarrow> handle \<Rightarrow> byte list option \<Rightarrow> int \<Rightarrow> st \<Rightarrow> (int \<times> st) option" where
  "tcp_awaken E lnk pipedata cb s =
     (let (ncb, s1) = objrefr E lnk s in
      case ncb of
        None \<Rightarrow> Some (- ENOENT, s1)
      | Some h \<Rightarrow> do {
          epfd \<leftarrow> io_get_pipefd h s1;
          if epfd = 0 then Some (- 1, s1)
          else do {
            let want = (cb > 0 \<and> pipedata \<noteq> None);
            let (buffer, s2) = (if want then malloc E cb s1 else (Null, s1));
            if want \<and> buffer = Null then Some (- 1, s2)
            else do {
              ((r, packet), s3) \<leftarrow> allocate_packet E lnk kProto_PIPE kPipe 0 kNoAccess s2;
              if r < 0 then do { s4 \<leftarrow> free buffer s3; Some (- 1, s4) }
              else do {
                p \<leftarrow> packet;
                s4 \<leftarrow> mod_pkt p (\<lambda>k. k\<lparr>link := lnk, ori_buffer := buffer\<rparr>) s3;
                s5 \<leftarrow> copy_origin buffer (case pipedata of None \<Rightarrow> [] | Some d \<Rightarrow> d) cb s4;
                let (ok, s6) = sysc E (C_PostQueuedCompletionStatus epfd cb (Some p)) s5;
                if ok = 0 then do { s7 \<leftarrow> freepkt E packet s6; Some (- 1, s7) }
                else Some (0, s6) } } } })"

definition tcp_save_info :: "ncb_t \<Rightarrow> int" where
  "tcp_save_info n = - 1"

end
