(* ===== verification/Udp.thy ===== *)
theory Udp
  imports Tcp_Conn
begin

text \<open>
  \<open>udp.c\<close>: UDP objects, their receive requests, datagrams, broadcast and multicast, grouped
  sending. A \<open>packet_grp_t\<close> of the caller is the list of its items, pointer and length.
\<close>

record udp_cinit_t =
  ipv4 :: u32
  u_port :: u16
  f_user_callback :: fptr
  u_flag :: u32

definition MULTICAST_LOOP :: int where "MULTICAST_LOOP = 11"
definition ADD_MEMBERSHIP :: int where "ADD_MEMBERSHIP = 12"
definition DROP_MEMBERSHIP :: int where "DROP_MEMBERSHIP = 13"

definition udprefr :: "env \<Rightarrow> handle \<Rightarrow> st \<Rightarrow> ((int \<times> np) \<times> st) option" where
  "udprefr E h s =
     (if h < 0 then Some ((- ENOENT, None), s)
      else let (ncb, s1) = objrefr E h s in
        case ncb of
          Some h' \<Rightarrow> do {
            n \<leftarrow> ncbs s1 h';
            if proto_type n = kProto_UDP then Some ((0, ncb), s1)
            else do { s2 \<leftarrow> objdefr E h s1; Some ((- EPROTOTYPE, None), s2) } }
        | None \<Rightarrow> Some ((- ENOENT, None), s1))"

interpretation udp_ref: typed_ref udprefr "\<lambda>p. p = kProto_UDP"
proof unfold_locales
  fix E h s r ncb s'
  assume t: "udprefr E h s = Some ((r, ncb), s')"
  obtain np s1 where o: "objrefr E h s = (np, s1)" by (cases "objrefr E h s")
  { assume "0 \<le> r"
    with t o show "ncb = Some h \<and> heap s' = heap s \<and> ncbs s' = ncbs s
       \<and> (\<exists>n. ncbs s h = Some n \<and> proto_type n = kProto_UDP) \<and> refs s' = (refs s)(h := refs s h + 1)"
      by (cases np) (auto simp: udprefr_def bind_eq_Some_conv dest!: objrefr_Some split: if_splits) }
  assume "r < 0"
  with t o show "ncb = None \<and> refs s' = refs s"
    by (cases np) (auto simp: udprefr_def bind_eq_Some_conv fun_eq_iff
        dest!: objrefr_Some objrefr_None refs_objdefr split: if_splits)
next
  fix E h s
  show "(\<exists>s'. udprefr E h s = Some ((0, Some h), s')) \<longleftrightarrow>
      0 \<le> h \<and> granted E h s \<and> (\<exists>n. ncbs s h = Some n \<and> proto_type n = kProto_UDP)"
    by (auto simp: udprefr_def objref_def granted_def Let_def bind_eq_Some_conv)
next
  fix E h s r ncb s'
  assume "udprefr E h s = Some ((r, ncb), s')"
  then show "r \<le> 0"
    by (auto simp: udprefr_def objref_def Let_def bind_eq_Some_conv split: if_splits)
qed

subsection \<open>Completions\<close>

definition udp_shutdown_by_packet :: "env \<Rightarrow> pp \<Rightarrow> st \<Rightarrow> st option" where
  "udp_shutdown_by_packet E packet s = (case packet of
     None \<Rightarrow> Some s
   | Some p \<Rightarrow> do {
       k \<leftarrow> get_pkt p s;
       s1 \<leftarrow> objclos E (link k) s;
       freepkt E packet s1 })"

text \<open>The remote address was written into the packet by the system.\<close>

definition udp_dispatch_io_recv :: "env \<Rightarrow> pp \<Rightarrow> st \<Rightarrow> st option" where
  "udp_dispatch_io_recv E packet s = (case packet of
     None \<Rightarrow> Some s
   | Some p \<Rightarrow> do {
       k \<leftarrow> get_pkt p s;
       ((r, ncb), s1) \<leftarrow> udprefr E (link k) s;
       if r < 0 then Some s1
       else do {
         h \<leftarrow> ncb;
         n \<leftarrow> ncbs s1 h;
         s2 \<leftarrow> (if nis_callback n \<noteq> 0 then do {
             a \<leftarrow> pkt_remote_addr k;
             bs \<leftarrow> load (irp k) (size_for_translation k) s1;
             Some (emit (EvUdpRecv (link k) (size_for_translation k) bs (ntohs (sin_port a)) (sin_addr a)) s1) }
           else Some s1);
         s3 \<leftarrow> mod_pkt p (\<lambda>k. k\<lparr>size_for_translation := 0\<rparr>) s2;
         (_, s4) \<leftarrow> asio_udp_recv E packet s3;
         objdefr_ncb E h s4 } })"

definition udp_dispatch_io_send :: "env \<Rightarrow> pp \<Rightarrow> st \<Rightarrow> st option" where
  "udp_dispatch_io_send E packet s = freepkt E packet s"

definition STATUS_HOST_UNREACHABLE :: int where
  "STATUS_HOST_UNREACHABLE = 0xC000023D - 2 ^ 32"
definition STATUS_PROTOCOL_UNREACHABLE :: int where
  "STATUS_PROTOCOL_UNREACHABLE = 0xC000023E - 2 ^ 32"
definition STATUS_PORT_UNREACHABLE :: int where
  "STATUS_PORT_UNREACHABLE = 0xC000023F - 2 ^ 32"

definition udp_dispatch_io_exception :: "env \<Rightarrow> pp \<Rightarrow> int \<Rightarrow> st \<Rightarrow> st option" where
  "udp_dispatch_io_exception E packet status s = (case packet of
     None \<Rightarrow> Some s
   | Some p \<Rightarrow> do {
       k \<leftarrow> get_pkt p s;
       ((r, ncb), s1) \<leftarrow> udprefr E (link k) s;
       if r < 0 then Some s1
       else do {
         h \<leftarrow> ncb;
         s3 \<leftarrow> (if status = STATUS_PORT_UNREACHABLE \<or> status = STATUS_PROTOCOL_UNREACHABLE
               \<or> status = STATUS_HOST_UNREACHABLE
             then do {
               s2 \<leftarrow> mod_pkt p (\<lambda>k. k\<lparr>size_for_translation := 0\<rparr>) s1;
               (_, s3) \<leftarrow> asio_udp_recv E packet s2;
               Some s3 }
             else udp_shutdown_by_packet E packet s1);
         objdefr_ncb E h s3 } })"

definition udp_dispatch_io_event :: "env \<Rightarrow> nat \<Rightarrow> int \<Rightarrow> st \<Rightarrow> st option" where
  "udp_dispatch_io_event E p status s =
     (if status < 0 then udp_dispatch_io_exception E (Some p) status s
      else do {
        k \<leftarrow> get_pkt p s;
        if size_for_translation k = 0 then udp_shutdown_by_packet E (Some p) s
        else (case pkt_kind k of
            kRecv \<Rightarrow> udp_dispatch_io_recv E (Some p) s
          | kSend \<Rightarrow> udp_dispatch_io_send E (Some p) s
          | _ \<Rightarrow> Some s) })"

subsection \<open>Creation and destruction\<close>

definition udp_update_opts :: "env \<Rightarrow> np \<Rightarrow> st \<Rightarrow> (int \<times> st) option" where
  "udp_update_opts E ncb s = (case ncb of
     None \<Rightarrow> Some (- EINVAL, s)
   | Some _ \<Rightarrow> do {
       (_, s1) \<leftarrow> ncb_set_window_size E ncb SO_RCVBUF 0xFFFF s;
       (_, s2) \<leftarrow> ncb_set_window_size E ncb SO_SNDBUF 0xFFFF s1;
       (_, s3) \<leftarrow> ncb_set_linger E ncb 1 0 s2;
       Some (0, s3) })"

definition udp_set_boardcast :: "env \<Rightarrow> np \<Rightarrow> int \<Rightarrow> st \<Rightarrow> (int \<times> st) option" where
  "udp_set_boardcast E ncb enable s = (case ncb of
     Some h \<Rightarrow> setsockopt E h SOL_SOCKET SO_BROADCAST (V_int enable) s
   | None \<Rightarrow> Some (- EINVAL, s))"

definition udp_get_boardcast :: "env \<Rightarrow> np \<Rightarrow> int option \<Rightarrow> st \<Rightarrow> ((int \<times> int option) \<times> st) option" where
  "udp_get_boardcast E ncb enabled s = (case (ncb, enabled) of
     (Some h, Some old) \<Rightarrow> do {
       ((r, v, _), s1) \<leftarrow> getsockopt E h SOL_SOCKET SO_BROADCAST s;
       Some ((r, Some (if r = 0 then v else old)), s1) }
   | _ \<Rightarrow> Some ((- EINVAL, enabled), s))"

text \<open>
  The \<open>do { ... } while ( FALSE )\<close> of \<open>udp_entry\<close>, in four parts: the local address, the flags,
  the attachment to a completion port, and the whole. A \<open>bool\<close> result is false when the block
  ended by \<open>break\<close>.
\<close>

definition udp_entry_addr :: "env \<Rightarrow> handle \<Rightarrow> udp_cinit_t \<Rightarrow> st \<Rightarrow> st option" where
  "udp_entry_addr E h ctx s = do {
     n \<leftarrow> ncbs s h;
     s \<leftarrow> mod_ncb h (\<lambda>n. n\<lparr>local_addr :=
           \<lparr>sin_family = AF_INET, sin_port = u_port ctx, sin_addr = ipv4 ctx\<rparr>\<rparr>) s;
     if u_port ctx = 0 then do {
       let (r, s') = sysc E (C_getsockname (sockfd n)) s;
       let a = e_addr E (trace s) (C_getsockname (sockfd n));
       if r \<ge> 0 then mod_ncb h (\<lambda>n. n\<lparr>local_addr := (local_addr n)\<lparr>sin_port := ntohs (sin_port a)\<rparr>\<rparr>) s'
       else Some s' }
     else Some s }"

definition udp_entry_flags :: "env \<Rightarrow> handle \<Rightarrow> udp_cinit_t \<Rightarrow> st \<Rightarrow> (bool \<times> st) option" where
  "udp_entry_flags E h ctx s =
     (if u_flag ctx AND UDP_FLAG_BROADCAST (e_nis E) \<noteq> 0 then do {
        (r, s) \<leftarrow> udp_set_boardcast E (Some h) 1 s;
        if r < 0 then Some (False, s)
        else do {
          s \<leftarrow> mod_ncb h (\<lambda>n. n\<lparr>ncb_flag := ncb_flag n OR UDP_FLAG_BROADCAST (e_nis E)\<rparr>) s;
          Some (True, s) } }
      else if u_flag ctx AND UDP_FLAG_MULTICAST (e_nis E) \<noteq> 0 then do {
        s \<leftarrow> mod_ncb h (\<lambda>n. n\<lparr>ncb_flag := ncb_flag n OR UDP_FLAG_MULTICAST (e_nis E)\<rparr>) s;
        Some (True, s) }
      else Some (True, s))"

definition udp_entry_attach :: "env \<Rightarrow> handle \<Rightarrow> udp_cinit_t \<Rightarrow> st \<Rightarrow> (bool \<times> st) option" where
  "udp_entry_attach E h ctx s = do {
     n \<leftarrow> ncbs s h;
     let (r, s) = sysc E (C_WSAIoctl (sockfd n) IO_UDP_CONNRESET) s;
     if r < 0 then Some (False, s)
     else do {
       (r, s) \<leftarrow> ioatth E (Some h) s;
       if r < 0 then Some (False, s)
       else do {
         s \<leftarrow> mod_ncb h (\<lambda>n. n\<lparr>nis_callback := f_user_callback ctx\<rparr>) s;
         Some (True, s) } } }"

definition udp_entry_body :: "env \<Rightarrow> handle \<Rightarrow> udp_cinit_t \<Rightarrow> st \<Rightarrow> (bool \<times> st) option" where
  "udp_entry_body E h ctx s = do {
     n \<leftarrow> ncbs s h;
     let (r, s) = so_bind E (sockfd n) (ipv4 ctx) (u_port ctx) s;
     if r < 0 then Some (False, s)
     else do {
       s \<leftarrow> udp_entry_addr E h ctx s;
       (_, s) \<leftarrow> udp_update_opts E (Some h) s;
       (ok, s) \<leftarrow> udp_entry_flags E h ctx s;
       if \<not> ok then Some (False, s) else udp_entry_attach E h ctx s } }"

definition udp_entry :: "env \<Rightarrow> handle \<Rightarrow> np \<Rightarrow> udp_cinit_t \<Rightarrow> st \<Rightarrow> (int \<times> st) option" where
  "udp_entry E h ncb ctx s = (case ncb of
     None \<Rightarrow> Some (- 1, s)
   | Some b \<Rightarrow> do {
       s \<leftarrow> ncb_init ncb kProto_UDP s;
       s \<leftarrow> mod_ncb b (\<lambda>n. n\<lparr>hld := h\<rparr>) s;
       let (fd, s) = so_create E SOCK_DGRAM IPPROTO_UDP s;
       s \<leftarrow> mod_ncb b (\<lambda>n. n\<lparr>sockfd := fd\<rparr>) s;
       if fd = INVALID_SOCKET then Some (- 1, s)
       else do {
         (ok, s) \<leftarrow> udp_entry_body E b ctx s;
         if ok then Some (0, s)
         else do { s \<leftarrow> ioclose E ncb s; Some (- 1, s) } } })"

definition udp_allocate_object :: "env \<Rightarrow> udp_cinit_t \<Rightarrow> st \<Rightarrow> (handle \<times> st) option" where
  "udp_allocate_object E ctx s =
     (let (h, s1) = objallo E Udp_unload s in
      if h < 0 then Some (- 1, s1)
      else do {
        let (ncb, s2) = objrefr E h s1;
        (retval, s3) \<leftarrow> udp_entry E h ncb ctx s2;
        s4 \<leftarrow> objdefr E h s3;
        if retval < 0 then do { s5 \<leftarrow> objclos E h s4; Some (- 1, s5) }
        else Some (h, s4) })"

definition set_pkt_array :: "nat \<Rightarrow> nat \<Rightarrow> pp \<Rightarrow> st \<Rightarrow> st option" where
  "set_pkt_array a i p s = (case heap s a of
     Some (PktArr ps) \<Rightarrow> if i < length ps then Some (s\<lparr>heap := (heap s)(a \<mapsto> PktArr (ps[i := p]))\<rparr>) else None
   | _ \<Rightarrow> None)"

definition pkt_array :: "nat \<Rightarrow> st \<Rightarrow> pp list option" where
  "pkt_array a s = (case heap s a of Some (PktArr ps) \<Rightarrow> Some ps | _ \<Rightarrow> None)"

text \<open>The loop that fills the array, from index \<open>i\<close>, and the one that frees the packets.\<close>

fun udp_fill_array :: "env \<Rightarrow> handle \<Rightarrow> nat \<Rightarrow> nat \<Rightarrow> nat \<Rightarrow> int \<Rightarrow> st \<Rightarrow> (int \<times> st) option" where
  "udp_fill_array E h a i 0 retval s = Some (retval, s)"
| "udp_fill_array E h a i (Suc m) retval s = do {
     ((r, packet), s1) \<leftarrow> allocate_packet E h kProto_UDP kRecv PAGE_SIZE kNonPagedPool s;
     if r < 0 then Some (r, s1)
     else do {
       s2 \<leftarrow> set_pkt_array a i packet s1;
       udp_fill_array E h a (Suc i) m r s2 } }"

fun free_packets :: "env \<Rightarrow> pp list \<Rightarrow> st \<Rightarrow> st option" where
  "free_packets E [] s = Some s"
| "free_packets E (p # ps) s = do { s1 \<leftarrow> freepkt E p s; free_packets E ps s1 }"

definition udp_allocate_recv_array :: "env \<Rightarrow> handle \<Rightarrow> nat \<Rightarrow> st \<Rightarrow> (nat option \<times> st) option" where
  "udp_allocate_recv_array E h cnt s =
     (case malloc_new E ''packet_t *[]'' (PktArr (replicate cnt None)) s of
        (Null, s1) \<Rightarrow> Some (None, s1)
      | (Ptr a i, s1) \<Rightarrow> do {
          (retval, s2) \<leftarrow> udp_fill_array E h a 0 cnt (- 1) s1;
          if retval < 0 then do {
            ps \<leftarrow> pkt_array a s2;
            s3 \<leftarrow> free_packets E ps s2;
            s4 \<leftarrow> free (Ptr a 0) s3;
            Some (None, s4) }
          else Some (Some a, s2) })"

text \<open>The loop of \<open>udp_create\<close> that posts the receive requests; their results are not used.\<close>

fun udp_post_recvs :: "env \<Rightarrow> pp list \<Rightarrow> st \<Rightarrow> st option" where
  "udp_post_recvs E [] s = Some s"
| "udp_post_recvs E (p # ps) s = do { (_, s1) \<leftarrow> asio_udp_recv E p s; udp_post_recvs E ps s1 }"

definition udp_create :: "env \<Rightarrow> fptr \<Rightarrow> string option \<Rightarrow> u16 \<Rightarrow> u32 \<Rightarrow> st \<Rightarrow> (handle \<times> st) option" where
  "udp_create E user_callback l_ipstr l_port fl s =
     (if user_callback = 0 \<or> so_asio_count = 0 then Some (INVALID_HUDPLINK (e_nis E), s)
      else case (case l_ipstr of None \<Rightarrow> Some 0 | Some str \<Rightarrow> e_pton E str) of
        None \<Rightarrow> Some (INVALID_HUDPLINK (e_nis E), s)
      | Some a \<Rightarrow> do {
          (h, s1) \<leftarrow> udp_allocate_object E \<lparr>ipv4 = a, u_port = htons l_port,
            f_user_callback = user_callback, u_flag = fl\<rparr> s;
          if h < 0 then Some (- 1, s1)
          else do {
            (arr, s2) \<leftarrow> udp_allocate_recv_array E h (nat so_asio_count) s1;
            case arr of
              None \<Rightarrow> do { s3 \<leftarrow> objclos E h s2; Some (INVALID_HUDPLINK (e_nis E), s3) }
            | Some ar \<Rightarrow> do {
                ps \<leftarrow> pkt_array ar s2;
                s3 \<leftarrow> udp_post_recvs E ps s2;
                s4 \<leftarrow> free (Ptr ar 0) s3;
                Some (h, s4) } } })"

definition udp_destroy :: "env \<Rightarrow> handle \<Rightarrow> st \<Rightarrow> st option" where
  "udp_destroy E lnk s =
     (let (ncb, s1) = objreff E lnk s in
      case ncb of
        None \<Rightarrow> Some s1
      | Some h \<Rightarrow> do { s2 \<leftarrow> ioclose E (Some h) s1; objdefr E lnk s2 })"

subsection \<open>Sending datagrams\<close>

text \<open>
  The loop of \<open>__udp_tx_single_packet\<close>. A \<open>sendto\<close> that fails with \<open>EINTR\<close> is repeated,
  so the loop may run for ever: a \<open>partial_function\<close>.
\<close>

partial_function (option) udp_tx_loop :: "env \<Rightarrow> handle \<Rightarrow> ptr \<Rightarrow> int \<Rightarrow> sockaddr_in \<Rightarrow> int \<Rightarrow> st
    \<Rightarrow> (int \<times> st) option" where
  "udp_tx_loop E h data cb addr off s =
     (if off < cb then do {
        n \<leftarrow> ncbs s h;
        bs \<leftarrow> load (padd data off) (cb - off) s;
        let (wcb, s1) = sysc E (C_sendto (sockfd n) bs addr) s;
        if wcb \<le> 0 then
          (let (e, s2) = sysc E C_errno s1 in
           if e = EINTR then udp_tx_loop E h data cb addr off s2 else Some (- 1, s2))
        else do {
          off' \<leftarrow> int32 (off + wcb);
          udp_tx_loop E h data cb addr off' s1 } }
      else Some (0, s))"

definition udp_tx_single_packet :: "env \<Rightarrow> handle \<Rightarrow> ptr \<Rightarrow> int \<Rightarrow> string \<Rightarrow> u16 \<Rightarrow> st \<Rightarrow> (int \<times> st) option" where
  "udp_tx_single_packet E h data cb r_ipstr r_port s =
     udp_tx_loop E h data cb \<lparr>sin_family = AF_INET, sin_port = htons r_port,
       sin_addr = e_inet_addr E r_ipstr\<rparr> 0 s"

definition udp_write :: "env \<Rightarrow> handle \<Rightarrow> byte list option \<Rightarrow> int \<Rightarrow> string option \<Rightarrow> u16 \<Rightarrow> fptr \<Rightarrow> st
    \<Rightarrow> (int \<times> st) option" where
  "udp_write E lnk origin cb r_ipstr r_port serializer s = (case r_ipstr of
     None \<Rightarrow> Some (- EINVAL, s)
   | Some str \<Rightarrow>
       if r_port = 0 \<or> cb \<le> 0 \<or> lnk < 0 \<or> cb > MAX_UDP_UNIT (e_nis E) then Some (- EINVAL, s)
       else let (ncb, s1) = objrefr E lnk s in
         case ncb of
           None \<Rightarrow> Some (- ENOENT, s1)
         | Some h \<Rightarrow> do {
             let (buffer, s2) = malloc E cb s1;
             (retval, s3) \<leftarrow> (if buffer = Null then Some (- ENOMEM, s2)
               else do {
                 (ok, s3) \<leftarrow> fill_payload E serializer buffer origin cb cb s2;
                 if \<not> ok then Some (- 1, s3)
                 else udp_tx_single_packet E h buffer cb str r_port s3 });
             s4 \<leftarrow> free buffer s3;
             s5 \<leftarrow> objdefr E lnk s4;
             Some (retval, s5) })"

definition udp_awaken :: "env \<Rightarrow> handle \<Rightarrow> byte list option \<Rightarrow> int \<Rightarrow> st \<Rightarrow> (int \<times> st) option" where
  "udp_awaken = tcp_awaken"

end
