(* ===== verification/Udp_Group.thy ===== *)
theory Udp_Group
  imports Udp
begin

text \<open>
  The rest of the interface of \<open>udp.c\<close>: address and socket options of a link, sending a group
  of datagrams in one call over a pseudo connection, membership of a multicast group. A
  \<open>packet_grp_t\<close> of the caller is the list of its items (data pointer and length), \<open>None\<close>
  for NULL; a function that changes the items returns them.
\<close>

type_synonym packet_grp = "(ptr \<times> int) list"

subsection \<open>Address and options\<close>

definition udp_getaddr :: "env \<Rightarrow> handle \<Rightarrow> u32 option \<Rightarrow> u16 option \<Rightarrow> st
    \<Rightarrow> ((int \<times> u32 option \<times> u16 option) \<times> st) option" where
  "udp_getaddr E lnk ip_out port_out s =
     (if lnk = INVALID_HUDPLINK (e_nis E) \<or> ip_out = None \<or> port_out = None
      then Some ((- 1, ip_out, port_out), s)
      else do {
        ((r, ncb), s1) \<leftarrow> udprefr E lnk s;
        if r \<ge> 0 then do {
          h \<leftarrow> ncb;
          n \<leftarrow> ncbs s1 h;
          s2 \<leftarrow> objdefr_ncb E h s1;
          Some ((0, Some (htonl (sin_addr (local_addr n))), Some (htons (sin_port (local_addr n)))), s2) }
        else Some ((- 1, ip_out, port_out), s1) })"

definition udp_setopt :: "env \<Rightarrow> handle \<Rightarrow> int \<Rightarrow> int \<Rightarrow> byte list option \<Rightarrow> st \<Rightarrow> (int \<times> st) option" where
  "udp_setopt E lnk level opt val s = (case val of
     None \<Rightarrow> Some (- 1, s)
   | Some v \<Rightarrow>
       if lnk = INVALID_HUDPLINK (e_nis E) then Some (- 1, s)
       else do {
         ((r, ncb), s1) \<leftarrow> udprefr E lnk s;
         if r < 0 then Some (- 1, s1)
         else do {
           h \<leftarrow> ncb;
           (retval, s2) \<leftarrow> setsockopt E h level opt (V_bytes v) s1;
           s3 \<leftarrow> objdefr_ncb E h s2;
           Some (retval, s3) } })"

definition udp_getopt :: "env \<Rightarrow> handle \<Rightarrow> int \<Rightarrow> int \<Rightarrow> int option \<Rightarrow> st
    \<Rightarrow> ((int \<times> int option) \<times> st) option" where
  "udp_getopt E lnk level opt val s = (case val of
     None \<Rightarrow> Some ((- 1, None), s)
   | Some old \<Rightarrow>
       if lnk = INVALID_HUDPLINK (e_nis E) then Some ((- 1, val), s)
       else do {
         ((r, ncb), s1) \<leftarrow> udprefr E lnk s;
         if r < 0 then Some ((- 1, val), s1)
         else do {
           h \<leftarrow> ncb;
           ((retval, v, _), s2) \<leftarrow> getsockopt E h level opt s1;
           s3 \<leftarrow> objdefr_ncb E h s2;
           Some ((retval, Some (if retval = 0 then v else old)), s3) } })"

subsection \<open>Groups of datagrams\<close>

text \<open>
  The loop that gives every item a buffer: whether it reached the end, and the items. It
  stops at an item whose length is 0 or above the MTU, whose pointer it leaves as it was,
  or at a failing \<open>malloc\<close>, whose NULL it stores.
\<close>

fun grp_fill :: "env \<Rightarrow> packet_grp \<Rightarrow> st \<Rightarrow> (bool \<times> packet_grp) \<times> st" where
  "grp_fill E [] s = ((True, []), s)"
| "grp_fill E ((d, n) # g) s =
     (if n = 0 \<or> n > MTU (e_nis E) then ((False, (d, n) # g), s)
      else let (p, s1) = malloc E n s in
        if p = Null then ((False, (Null, n) # g), s1)
        else let ((ok, g'), s2) = grp_fill E g s1 in ((ok, (p, n) # g'), s2))"

text \<open>The loop that frees the items up to the first without data.\<close>

fun grp_clear :: "packet_grp \<Rightarrow> st \<Rightarrow> (packet_grp \<times> st) option" where
  "grp_clear [] s = Some ([], s)"
| "grp_clear ((d, n) # g) s =
     (if d = Null then Some ((d, n) # g, s)
      else do {
        s1 \<leftarrow> free d s;
        (g', s2) \<leftarrow> grp_clear g s1;
        Some ((Null, n) # g', s2) })"

definition udp_initialize_grp :: "env \<Rightarrow> handle \<Rightarrow> packet_grp option \<Rightarrow> st
    \<Rightarrow> ((int \<times> packet_grp option) \<times> st) option" where
  "udp_initialize_grp E lnk grp s = (case grp of
     None \<Rightarrow> Some ((- 1, None), s)
   | Some g \<Rightarrow>
       if g = [] then Some ((- 1, grp), s)
       else do {
         ((r, ncb), s1) \<leftarrow> udprefr E lnk s;
         if r < 0 then Some ((- 1, grp), s1)
         else do {
           h \<leftarrow> ncb;
           n \<leftarrow> ncbs s1 h;
           ((retval, g1), s2) \<leftarrow>
             (if connected n = 0 then Some ((- 1, g), s1)
              else let ((ok, g1), s2) = grp_fill E g s1 in
                if ok then Some ((0, g1), s2)
                else do { (g2, s3) \<leftarrow> grp_clear g1 s2; Some ((- 1, g2), s3) });
           s3 \<leftarrow> objdefr_ncb E h s2;
           Some ((retval, Some g1), s3) } })"

definition udp_release_grp :: "packet_grp option \<Rightarrow> st \<Rightarrow> (packet_grp option \<times> st) option" where
  "udp_release_grp grp s = (case grp of
     None \<Rightarrow> Some (None, s)
   | Some g \<Rightarrow> do { (g', s1) \<leftarrow> grp_clear g s; Some (Some g', s1) })"

definition udp_raise_grp :: "env \<Rightarrow> handle \<Rightarrow> string \<Rightarrow> u16 \<Rightarrow> st \<Rightarrow> (int \<times> st) option" where
  "udp_raise_grp E lnk r_ipstr r_port s = do {
     ((r, ncb), s1) \<leftarrow> udprefr E lnk s;
     if r < 0 then Some (- 1, s1)
     else do {
       h \<leftarrow> ncb;
       n \<leftarrow> ncbs s1 h;
       (retval, s2) \<leftarrow>
         (if proto_type n \<noteq> kProto_UDP then Some (- 1, s1)
          else case e_pton E r_ipstr of
            None \<Rightarrow> Some (- 1, s1)
          | Some a \<Rightarrow>
              if connected n \<noteq> 0 then Some (if connected n = a then 0 else - 1, s1)
              else do {
                (retval, s2) \<leftarrow> syio_v_connect E h
                  \<lparr>sin_family = AF_INET, sin_port = htons r_port, sin_addr = a\<rparr> s1;
                s3 \<leftarrow> (if retval \<ge> 0 then mod_ncb h (\<lambda>n. n\<lparr>connected := a\<rparr>) s2 else Some s2);
                Some (retval, s3) });
       s3 \<leftarrow> objdefr_ncb E h s2;
       Some (retval, s3) } }"

definition udp_detach_grp :: "env \<Rightarrow> handle \<Rightarrow> st \<Rightarrow> st option" where
  "udp_detach_grp E lnk s = do {
     ((r, ncb), s1) \<leftarrow> udprefr E lnk s;
     if r < 0 then Some s1
     else do {
       h \<leftarrow> ncb;
       n \<leftarrow> ncbs s1 h;
       s2 \<leftarrow> (if connected n \<noteq> 0 then do { (_, s2) \<leftarrow> syio_v_disconnect E h s1; Some s2 } else Some s1);
       objdefr_ncb E h s2 } }"

text \<open>
  \<open>packet->grp_packets_\<close> shares its word with \<open>irp_\<close>, so the array is reached through the
  field \<open>irp\<close>; its elements point to the data of the caller's items.
\<close>

definition udp_write_grp :: "env \<Rightarrow> handle \<Rightarrow> packet_grp option \<Rightarrow> st \<Rightarrow> (int \<times> st) option" where
  "udp_write_grp E lnk grp s = (case grp of
     None \<Rightarrow> Some (- 1, s)
   | Some g \<Rightarrow>
       if g = [] then Some (- 1, s)
       else do {
         ((r, ncb), s1) \<leftarrow> udprefr E lnk s;
         if r < 0 then Some (- 1, s1)
         else do {
           h \<leftarrow> ncb;
           n \<leftarrow> ncbs s1 h;
           (retval, s2) \<leftarrow>
             (if connected n = 0 then Some (- 1, s1)
              else do {
                ((retval, packet), s2) \<leftarrow> allocate_packet E lnk kProto_UDP kSend 0 kNoAccess s1;
                if retval < 0 then Some (retval, s2)
                else do {
                  p \<leftarrow> packet;
                  s3 \<leftarrow> mod_pkt p (\<lambda>k. k\<lparr>grp_packets_cnt := int (length g)\<rparr>) s2;
                  let (arr, s4) = malloc_new E ''TRANSMIT_PACKETS_ELEMENT[]'' (GrpArr g) s3;
                  s5 \<leftarrow> mod_pkt p (\<lambda>k. k\<lparr>irp := arr\<rparr>) s4;
                  (retval, s6) \<leftarrow> (if arr \<noteq> Null then syio_grp_send E p s5 else Some (retval, s5));
                  s7 \<leftarrow> freepkt E packet s6;
                  Some (retval, s7) } });
           s3 \<leftarrow> objdefr_ncb E h s2;
           Some (retval, s3) } })"

subsection \<open>Multicast\<close>

definition set_mreq :: "nat \<Rightarrow> u32 \<Rightarrow> u32 \<Rightarrow> st \<Rightarrow> st option" where
  "set_mreq b multiaddr interface s = (case heap s b of
     Some (Mreq _ _) \<Rightarrow> Some (s\<lparr>heap := (heap s)(b \<mapsto> Mreq multiaddr interface)\<rparr>)
   | _ \<Rightarrow> None)"

definition get_mreq :: "nat \<Rightarrow> st \<Rightarrow> (u32 \<times> u32) option" where
  "get_mreq b s = (case heap s b of Some (Mreq m i) \<Rightarrow> Some (m, i) | _ \<Rightarrow> None)"

definition join_body :: "env \<Rightarrow> handle \<Rightarrow> string \<Rightarrow> st \<Rightarrow> (int \<times> st) option" where
  "join_body E h g_ipstr s = do {
     n \<leftarrow> ncbs s h;
     if ncb_flag n AND UDP_FLAG_MULTICAST (e_nis E) = 0 then Some (- 1, s)
     else do {
       (retval, s1) \<leftarrow> setsockopt E h IPPROTO_IP MULTICAST_LOOP (V_int 1) s;
       if retval = SOCKET_ERROR then Some (retval, s1)
       else do {
         s2 \<leftarrow> (if mreq n = None then
             (case malloc_new E ''ip_mreq'' (Mreq 0 0) s1 of
                (Null, s2) \<Rightarrow> Some s2
              | (Ptr b i, s2) \<Rightarrow> mod_ncb h (\<lambda>n. n\<lparr>mreq := Some b\<rparr>) s2)
           else Some s1);
         n2 \<leftarrow> ncbs s2 h;
         case mreq n2 of
           None \<Rightarrow> Some (retval, s2)
         | Some b \<Rightarrow> do {
             s3 \<leftarrow> set_mreq b (e_inet_addr E g_ipstr) (sin_addr (local_addr n2)) s2;
             (retval, s4) \<leftarrow> setsockopt E h IPPROTO_IP ADD_MEMBERSHIP
               (V_mreq (e_inet_addr E g_ipstr) (sin_addr (local_addr n2))) s3;
             Some (if retval = SOCKET_ERROR then retval else 0, s4) } } } }"

definition udp_joingrp :: "env \<Rightarrow> handle \<Rightarrow> string option \<Rightarrow> u16 \<Rightarrow> st \<Rightarrow> (int \<times> st) option" where
  "udp_joingrp E lnk g_ipstr g_port s = (case g_ipstr of
     None \<Rightarrow> Some (- EINVAL, s)
   | Some str \<Rightarrow>
       if lnk < 0 \<or> g_port = 0 then Some (- EINVAL, s)
       else let (ncb, s1) = objrefr E lnk s in
         case ncb of
           None \<Rightarrow> Some (- 1, s1)
         | Some h \<Rightarrow> do {
             (retval, s2) \<leftarrow> join_body E h str s1;
             s3 \<leftarrow> objdefr E lnk s2;
             Some (retval, s3) })"

definition drop_body :: "env \<Rightarrow> handle \<Rightarrow> st \<Rightarrow> (int \<times> st) option" where
  "drop_body E h s = do {
     n \<leftarrow> ncbs s h;
     case mreq n of
       None \<Rightarrow> Some (- 1, s)
     | Some b \<Rightarrow>
         if ncb_flag n AND UDP_FLAG_MULTICAST (e_nis E) = 0 then Some (- 1, s)
         else do {
           (retval, s1) \<leftarrow> setsockopt E h IPPROTO_IP MULTICAST_LOOP (V_int 0) s;
           if retval = SOCKET_ERROR then Some (retval, s1)
           else do {
             (m, i) \<leftarrow> get_mreq b s1;
             (retval, s2) \<leftarrow> setsockopt E h IPPROTO_IP DROP_MEMBERSHIP (V_mreq m i) s1;
             Some (if retval = SOCKET_ERROR then retval else 0, s2) } } }"

definition udp_dropgrp :: "env \<Rightarrow> handle \<Rightarrow> st \<Rightarrow> (int \<times> st) option" where
  "udp_dropgrp E lnk s =
     (if lnk < 0 then Some (- EINVAL, s)
      else let (ncb, s1) = objrefr E lnk s in
        case ncb of
          None \<Rightarrow> Some (- 1, s1)
        | Some h \<Rightarrow> do {
            (retval, s2) \<leftarrow> drop_body E h s1;
            s3 \<leftarrow> objdefr E lnk s2;
            Some (retval, s3) })"

end
