(* ===== verification/Arp.thy ===== *)
theory Arp
  imports Sockets
begin

text \<open>
  \<open>arp.c\<close>: ARP objects and requests. The adapter list of \<open>GetAdaptersInfo\<close> is an argument of
  \<open>get_eth_MAC\<close>, as are the hardware address of an answer of \<open>SendARP\<close> and the function
  \<open>posix__makeerror\<close> of \<open>libnsp\<close>.
\<close>

definition arprefr :: "env \<Rightarrow> handle \<Rightarrow> st \<Rightarrow> ((int \<times> np) \<times> st) option" where
  "arprefr E h s =
     (if h < 0 then Some ((- EINVAL, None), s)
      else let (ncb, s1) = objrefr E h s in
        case ncb of
          Some h' \<Rightarrow> do {
            n \<leftarrow> ncbs s1 h';
            if proto_type n = kProto_IP then Some ((0, ncb), s1)
            else do { s2 \<leftarrow> objdefr E h s1; Some ((- EPROTOTYPE, None), s2) } }
        | None \<Rightarrow> Some ((- ENOENT, None), s1))"

interpretation arp_ref: typed_ref arprefr "\<lambda>p. p = kProto_IP"
proof unfold_locales
  fix E h s r ncb s'
  assume t: "arprefr E h s = Some ((r, ncb), s')"
  obtain np s1 where o: "objrefr E h s = (np, s1)" by (cases "objrefr E h s")
  { assume "0 \<le> r"
    with t o show "ncb = Some h \<and> heap s' = heap s \<and> ncbs s' = ncbs s
       \<and> (\<exists>n. ncbs s h = Some n \<and> proto_type n = kProto_IP) \<and> refs s' = (refs s)(h := refs s h + 1)"
      by (cases np) (auto simp: arprefr_def bind_eq_Some_conv dest!: objrefr_Some split: if_splits) }
  assume "r < 0"
  with t o show "ncb = None \<and> refs s' = refs s"
    by (cases np) (auto simp: arprefr_def bind_eq_Some_conv fun_eq_iff
        dest!: objrefr_Some objrefr_None refs_objdefr split: if_splits)
next
  fix E h s
  show "(\<exists>s'. arprefr E h s = Some ((0, Some h), s')) \<longleftrightarrow>
      0 \<le> h \<and> granted E h s \<and> (\<exists>n. ncbs s h = Some n \<and> proto_type n = kProto_IP)"
    by (auto simp: arprefr_def objref_def granted_def Let_def bind_eq_Some_conv)
next
  fix E h s r ncb s'
  assume "arprefr E h s = Some ((r, ncb), s')"
  then show "r \<le> 0"
    by (auto simp: arprefr_def objref_def Let_def bind_eq_Some_conv split: if_splits)
qed

text \<open>
  An adapter is its address string and its hardware address. The loop stops at the first
  match, whose address it copies; the function returns -1 in every case, and the buffer of
  the list is not freed. The size that the first call of \<open>GetAdaptersInfo\<close> leaves is
  \<open>e_val\<close> of that call.
\<close>

type_synonym adapters = "(string \<times> byte list) list"

fun find_adapter :: "adapters \<Rightarrow> string \<Rightarrow> byte list \<Rightarrow> byte list" where
  "find_adapter [] ip mac = mac"
| "find_adapter ((a, m) # as) ip mac = (if a = ip then take 6 m else find_adapter as ip mac)"

definition get_eth_MAC :: "env \<Rightarrow> adapters \<Rightarrow> string \<Rightarrow> byte list \<Rightarrow> st \<Rightarrow> (int \<times> byte list) \<times> st" where
  "get_eth_MAC E as ip mac s =
     (let sz = e_val E (trace s) C_GetAdaptersInfo;
          (_, s1) = sysc E C_GetAdaptersInfo s;
          (pInfo, s2) = malloc E sz s1;
          (_, s3) = sysc E C_GetAdaptersInfo s2 in
      ((- 1, if pInfo = Null then mac else find_adapter as ip mac), s3))"

text \<open>
  A \<open>SOCKET\<close> is unsigned, so the failure branch on \<open>fd < 0\<close> is never taken; the handle of a
  failed \<open>WSASocket\<close> is stored as it is. \<open>assert(ncb)\<close> stops the program without an object.
\<close>

definition arp_create :: "env \<Rightarrow> adapters \<Rightarrow> fptr \<Rightarrow> string \<Rightarrow> st \<Rightarrow> (handle \<times> st) option" where
  "arp_create E as cb source s =
     (let (fd, s1) = so_create E SOCK_RAW IPPROTO_IP s;
          (h, s2) = objallo E Arp_unload s1 in
      if h < 0 then Some (- 1, snd (sysc E (C_closesocket fd) s2))
      else do {
        let (ncb, s3) = objrefr E h s2;
        b \<leftarrow> ncb;
        s4 \<leftarrow> ncb_init ncb kProto_IP s3;
        s5 \<leftarrow> mod_ncb b (\<lambda>n. n\<lparr>nis_callback := cb, sockfd := fd, hld := h\<rparr>) s4;
        s6 \<leftarrow> mod_ncb b (\<lambda>n. n\<lparr>local_addr := (local_addr n)\<lparr>sin_addr := e_inet_addr E source\<rparr>\<rparr>) s5;
        n \<leftarrow> ncbs s6 b;
        let ((_, mac), s7) = get_eth_MAC E as source (source_mac n) s6;
        s8 \<leftarrow> mod_ncb b (\<lambda>n. n\<lparr>source_mac := mac\<rparr>) s7;
        s9 \<leftarrow> objdefr E h s8;
        Some (h, s9) })"

definition arp_destroy :: "env \<Rightarrow> handle \<Rightarrow> st \<Rightarrow> st option" where
  "arp_destroy E lnk s =
     (let (ncb, s1) = objreff E lnk s in
      case ncb of
        None \<Rightarrow> Some s1
      | Some h \<Rightarrow> do { s2 \<leftarrow> ioclose E (Some h) s1; objdefr E lnk s2 })"

text \<open>
  The event of an answer carries the handle, the sender's and the target's IP in host order
  and their hardware addresses; calling a NULL callback is undefined.
\<close>

definition arp_nrequest :: "env \<Rightarrow> (u32 \<Rightarrow> byte list) \<Rightarrow> (int \<Rightarrow> int) \<Rightarrow> handle \<Rightarrow> u32 \<Rightarrow> st
    \<Rightarrow> (int \<times> st) option" where
  "arp_nrequest E mac_of makeerror lnk target s = do {
     ((r, ncb), s1) \<leftarrow> arprefr E lnk s;
     if r < 0 then Some (r, s1)
     else do {
       h \<leftarrow> ncb;
       n \<leftarrow> ncbs s1 h;
       let (retval, s2) = sysc E (C_SendARP target (sin_addr (local_addr n))) s1;
       s3 \<leftarrow> (if retval = 0 then do {
           massert (nis_callback n \<noteq> 0);
           Some (emit (EvArp (hld n) (ntohl target) (ntohl (sin_addr (local_addr n)))
             (take 6 (mac_of target)) (source_mac n)) s2) }
         else Some s2);
       s4 \<leftarrow> objdefr E lnk s3;
       Some (makeerror retval, s4) } }"

definition arp_request :: "env \<Rightarrow> (u32 \<Rightarrow> byte list) \<Rightarrow> (int \<Rightarrow> int) \<Rightarrow> handle \<Rightarrow> string \<Rightarrow> st
    \<Rightarrow> (int \<times> st) option" where
  "arp_request E mac_of makeerror lnk target s =
     arp_nrequest E mac_of makeerror lnk (e_inet_addr E target) s"

end
