(* ===== verification/Network.thy ===== *)
theory Network
  imports Udp_Group Arp
begin

text \<open>
  \<open>network.c\<close> and the worker threads of \<open>io.c\<close>: start and stop of the library, the dispatch of
  a completion to its protocol, the loop of a worker over the completions it dequeues.
\<close>

subsection \<open>Start and stop\<close>

text \<open>\<open>__so_protocol_initialized\<close> has one flag for each of the \<open>kProto_MaximumId\<close> = 4 protocols.\<close>

definition initialized :: "proto_type \<Rightarrow> st \<Rightarrow> bool" where
  "initialized proto s = so_protocol_initialized s ! nat (proto_id proto)"

definition set_initialized :: "proto_type \<Rightarrow> bool \<Rightarrow> st \<Rightarrow> st" where
  "set_initialized proto b s = s\<lparr>so_protocol_initialized :=
     (so_protocol_initialized s)[nat (proto_id proto) := b]\<rparr>"

definition startup_add :: "int \<Rightarrow> st \<Rightarrow> st" where
  "startup_add d s = s\<lparr>so_startup := i32 (so_startup s + d)\<rparr>"

definition so_init :: "env \<Rightarrow> proto_type \<Rightarrow> int \<Rightarrow> st \<Rightarrow> int \<times> st" where
  "so_init E proto th_cnt s =
     (let s1 = startup_add 1 s;
          (failed, s2) =
            (if so_startup s1 = 1 then
               let (r, s2) = sysc E C_WSAStartup s1 in
               if r < 0 then (True, startup_add (- 1) (snd (sysc E C_WSAGetLastError s2)))
               else let (r2, s3) = ioinit E s2 in
                 if r2 < 0 then (True, startup_add (- 1) (snd (sysc E C_WSACleanup s3)))
                 else (False, snd (sysc E C_objinit s3))
             else (False, startup_add (- 1) s1)) in
      if failed then (- 1, s2)
      else
        let s3 = (if proto = kProto_TCP \<and> initialized kProto_TCP s2
                  then set_initialized kProto_TCP True s2 else s2);
            s4 = (if proto = kProto_UDP \<and> \<not> initialized kProto_UDP s3
                  then set_initialized kProto_UDP True s3 else s3) in
        (0, s4))"

definition so_uninit :: "env \<Rightarrow> proto_type \<Rightarrow> st \<Rightarrow> st" where
  "so_uninit E proto s =
     (if proto \<noteq> kProto_TCP \<and> proto \<noteq> kProto_UDP then s
      else let s1 = set_initialized proto False s in
        if True \<in> set (so_protocol_initialized s1) then s1
        else let (_, s2) = sysc E C_objuninit s1;
                 s3 = iouninit E s2 in
          snd (sysc E C_WSACleanup s3))"

definition tcp_init :: "env \<Rightarrow> st \<Rightarrow> int \<times> st" where
  "tcp_init E s = so_init E kProto_TCP 0 s"

definition tcp_uninit :: "env \<Rightarrow> st \<Rightarrow> st" where
  "tcp_uninit E s = so_uninit E kProto_TCP s"

definition udp_init :: "env \<Rightarrow> st \<Rightarrow> int \<times> st" where
  "udp_init E s = so_init E kProto_UDP 0 s"

definition udp_uninit :: "env \<Rightarrow> st \<Rightarrow> st" where
  "udp_uninit E s = so_uninit E kProto_UDP s"

subsection \<open>Dispatch\<close>

definition so_dispatch_pipe_event :: "env \<Rightarrow> nat \<Rightarrow> int \<Rightarrow> st \<Rightarrow> st option" where
  "so_dispatch_pipe_event E p status s = do {
     k \<leftarrow> get_pkt p s;
     let (ncb, s1) = objrefr E (link k) s;
     s2 \<leftarrow> (if ncb \<noteq> None then ncb_post_pipedata ncb (size_for_translation k) (ori_buffer k) s1 else Some s1);
     freepkt E (Some p) s2 }"

text \<open>
  The packet begins with its \<open>OVERLAPPED\<close> structure, in whose field \<open>Internal\<close> the system left
  the status of the request: the argument \<open>status\<close>.
\<close>

definition so_dispatch_io_event :: "env \<Rightarrow> pp \<Rightarrow> int \<Rightarrow> int \<Rightarrow> st \<Rightarrow> st option" where
  "so_dispatch_io_event E pOvlp transfer_bytes status s = (case pOvlp of
     None \<Rightarrow> Some s
   | Some p \<Rightarrow> do {
       s1 \<leftarrow> mod_pkt p (\<lambda>k. k\<lparr>size_for_translation := transfer_bytes\<rparr>) s;
       k \<leftarrow> get_pkt p s1;
       case pkt_proto k of
         kProto_UDP \<Rightarrow> udp_dispatch_io_event E p status s1
       | kProto_TCP \<Rightarrow> tcp_dispatch_io_event E pOvlp status s1
       | kProto_PIPE \<Rightarrow> so_dispatch_pipe_event E p status s1
       | _ \<Rightarrow> Some s1 })"

subsection \<open>The worker\<close>

text \<open>What one return of \<open>GetQueuedCompletionStatus\<close> tells the worker.\<close>

record completion =
  successful :: bool
  bytes_transfered :: u32
  ovlp :: pp
  internal :: int

text \<open>
  \<open>__iorun\<close> over the completions it dequeues, in their order: whether it left its loop and
  the number of completions it did not look at, and the state. A \<open>uint32_t\<close> count becomes an
  \<open>int\<close> at the call of the dispatcher.
\<close>

fun iorun :: "env \<Rightarrow> completion list \<Rightarrow> st \<Rightarrow> ((bool \<times> nat) \<times> st) option" where
  "iorun E [] s = Some ((False, 0), s)"
| "iorun E (c # cs) s =
     (if \<not> successful c then
        (if ovlp c \<noteq> None then do {
           s1 \<leftarrow> so_dispatch_io_event E (ovlp c) (sint (bytes_transfered c)) (internal c) s;
           iorun E cs s1 }
         else iorun E cs s)
      else if uint (bytes_transfered c) = IOCP_INVALID_SIZE_TRANSFER then Some ((True, length cs), s)
      else do {
        s1 \<leftarrow> so_dispatch_io_event E (ovlp c) (sint (bytes_transfered c)) (internal c) s;
        iorun E cs s1 })"

end
