(* ===== verification/Mxx.thy ===== *)
theory Mxx
  imports Network
begin

text \<open>
  \<open>mxx.c\<close>: the part of the interface that is common to all links (user context, attribute
  mask, control) and the host services (version, name resolution, interfaces, logging).
  A buffer of the caller is an option of its contents, \<open>None\<close> for NULL; results carry what
  the caller's variables hold afterwards.
\<close>

subsection \<open>The user context of a link\<close>

text \<open>The pointer is not reset when a block is freed, as in the source.\<close>

definition setctx_body :: "env \<Rightarrow> handle \<Rightarrow> byte list option \<Rightarrow> int \<Rightarrow> st \<Rightarrow> (int \<times> st) option" where
  "setctx_body E h ctx sz s = do {
     n \<leftarrow> ncbs s h;
     case (if sz = 0 then None else ctx) of
       None \<Rightarrow> do {
         s1 \<leftarrow> free (ncb_ctx n) s;
         s2 \<leftarrow> mod_ncb h (\<lambda>n. n\<lparr>ncb_ctx_size := 0\<rparr>) s1;
         Some (0, s2) }
     | Some data \<Rightarrow> do {
         (ok, s1) \<leftarrow> (if sz \<noteq> ncb_ctx_size n then do {
             s1 \<leftarrow> free (ncb_ctx n) s;
             s2 \<leftarrow> mod_ncb h (\<lambda>n. n\<lparr>ncb_ctx_size := sz\<rparr>) s1;
             let (p, s3) = malloc E sz s2;
             if p = Null then Some (False, s3)
             else do { s4 \<leftarrow> mod_ncb h (\<lambda>n. n\<lparr>ncb_ctx := p\<rparr>) s3; Some (True, s4) } }
           else Some (True, s));
         if \<not> ok then Some (- 1, s1)
         else do {
           n1 \<leftarrow> ncbs s1 h;
           s2 \<leftarrow> copy_origin (ncb_ctx n1) data (ncb_ctx_size n1) s1;
           Some (0, s2) } } }"

definition nis_setctx :: "env \<Rightarrow> handle \<Rightarrow> byte list option \<Rightarrow> int \<Rightarrow> st \<Rightarrow> (int \<times> st) option" where
  "nis_setctx E lnk ctx sz s =
     (let (ncb, s1) = objrefr E lnk s in
      case ncb of
        None \<Rightarrow> Some (- 1, s1)
      | Some h \<Rightarrow> do {
          (retval, s2) \<leftarrow> setctx_body E h ctx sz s1;
          s3 \<leftarrow> objdefr_ncb E h s2;
          Some (retval, s3) })"

text \<open>The copy has the length of the stored context, whatever room the caller's buffer has.\<close>

definition nis_getctx :: "env \<Rightarrow> handle \<Rightarrow> byte list option \<Rightarrow> int option \<Rightarrow> st
    \<Rightarrow> ((int \<times> byte list option \<times> int option) \<times> st) option" where
  "nis_getctx E lnk user_context user_context_size s = (case user_context of
     None \<Rightarrow> Some ((- 1, None, user_context_size), s)
   | Some buf \<Rightarrow>
       let (ncb, s1) = objrefr E lnk s in
       case ncb of
         None \<Rightarrow> Some ((- 1, user_context, user_context_size), s1)
       | Some h \<Rightarrow> do {
           n \<leftarrow> ncbs s1 h;
           buf' \<leftarrow> (if ncb_ctx n \<noteq> Null \<and> ncb_ctx_size n \<noteq> 0 then do {
               bs \<leftarrow> load (ncb_ctx n) (ncb_ctx_size n) s1;
               massert (length bs \<le> length buf);
               Some (overwrite buf 0 bs) }
             else Some buf);
           s2 \<leftarrow> objdefr_ncb E h s1;
           Some ((0, Some buf', map_option (\<lambda>_. ncb_ctx_size n) user_context_size), s2) })"

definition nis_refctx :: "env \<Rightarrow> handle \<Rightarrow> int option \<Rightarrow> st \<Rightarrow> ((ptr \<times> int option) \<times> st) option" where
  "nis_refctx E lnk user_context_size s =
     (let (ncb, s1) = objrefr E lnk s in
      case ncb of
        None \<Rightarrow> Some ((Null, user_context_size), s1)
      | Some h \<Rightarrow> do {
          n \<leftarrow> ncbs s1 h;
          s2 \<leftarrow> objdefr_ncb E h s1;
          Some ((if ncb_ctx_size n \<noteq> 0 then ncb_ctx n else Null,
            map_option (\<lambda>_. ncb_ctx_size n) user_context_size), s2) })"

definition nis_ctxsize :: "env \<Rightarrow> handle \<Rightarrow> st \<Rightarrow> (int \<times> st) option" where
  "nis_ctxsize E lnk s =
     (let (ncb, s1) = objrefr E lnk s in
      case ncb of
        None \<Rightarrow> Some (- 1, s1)
      | Some h \<Rightarrow> do {
          n \<leftarrow> ncbs s1 h;
          s2 \<leftarrow> objdefr_ncb E h s1;
          Some (ncb_ctx_size n, s2) })"

subsection \<open>Attribute mask and control\<close>

definition nis_setmask :: "env \<Rightarrow> handle \<Rightarrow> int \<Rightarrow> st \<Rightarrow> (int \<times> st) option" where
  "nis_setmask E lnk msk s =
     (let (ncb, s1) = objrefr E lnk s in
      case ncb of
        None \<Rightarrow> Some (- EEXIST, s1)
      | Some h \<Rightarrow> do {
          s2 \<leftarrow> mod_ncb h (\<lambda>n. n\<lparr>attr := word_of_int msk\<rparr>) s1;
          s3 \<leftarrow> objdefr E lnk s2;
          Some (0, s3) })"

definition nis_getmask :: "env \<Rightarrow> handle \<Rightarrow> int option \<Rightarrow> st \<Rightarrow> ((int \<times> int option) \<times> st) option" where
  "nis_getmask E lnk msk s =
     (let (ncb, s1) = objrefr E lnk s in
      case ncb of
        None \<Rightarrow> Some ((- 1, msk), s1)
      | Some h \<Rightarrow> do {
          n \<leftarrow> ncbs s1 h;
          s2 \<leftarrow> objdefr E lnk s1;
          Some ((0, map_option (\<lambda>_. sint (attr n)) msk), s2) })"

text \<open>
  The variable argument of \<open>nis_cntl\<close>, as the command reads it: an integer, a pointer, the
  address of a pointer or of a template. Reading another kind than was passed is undefined,
  as is storing through NULL.
\<close>

datatype cntl_arg = A_none | A_int int | A_ptr int | A_out int | A_tst "tst_t option"

text \<open>
  \<open>stack\<close> is the value the uninitialised local \<open>context\<close> happens to hold: \<open>NI_GETCTX\<close>
  exchanges it with the context of the link and stores what it held in \<open>prcontext\<close>.
\<close>

definition nis_cntl :: "env \<Rightarrow> int \<Rightarrow> handle \<Rightarrow> int \<Rightarrow> cntl_arg \<Rightarrow> st
    \<Rightarrow> ((int \<times> cntl_arg) \<times> st) option" where
  "nis_cntl E stack lnk cmd arg s =
     (let (ncb, s1) = objrefr E lnk s; N = e_nis E in
      case ncb of
        None \<Rightarrow> Some ((- ENOENT, arg), s1)
      | Some h \<Rightarrow> do {
          n \<leftarrow> ncbs s1 h;
          if cmd \<notin> {NI_SETATTR N, NI_GETATTR N, NI_SETCTX N, NI_GETCTX N, NI_SETTST N, NI_GETTST N}
          then Some ((- EINVAL, arg), s1)
          else do {
            ((retval, arg'), s2) \<leftarrow>
              (if cmd = NI_SETATTR N then (case arg of
                 A_int v \<Rightarrow> do {
                   s2 \<leftarrow> mod_ncb h (\<lambda>n. n\<lparr>attr := word_of_int v\<rparr>) s1;
                   Some ((0, arg), s2) }
               | _ \<Rightarrow> None)
               else if cmd = NI_GETATTR N then Some ((sint (attr n), arg), s1)
               else if cmd = NI_SETCTX N then (case arg of
                 A_ptr c \<Rightarrow> do {
                   s2 \<leftarrow> mod_ncb h (\<lambda>n. n\<lparr>prcontext := context_ptr n, context_ptr := c\<rparr>) s1;
                   Some ((0, arg), s2) }
               | _ \<Rightarrow> None)
               else if cmd = NI_GETCTX N then (case arg of
                 A_out old \<Rightarrow> do {
                   s2 \<leftarrow> mod_ncb h (\<lambda>n. n\<lparr>prcontext := stack\<rparr>) s1;
                   Some ((0, A_out (context_ptr n)), s2) }
               | _ \<Rightarrow> None)
               else if cmd = NI_SETTST N then (case arg of
                 A_tst t \<Rightarrow> do {
                   (retval, s2) \<leftarrow> tcp_settst_r E lnk t s1;
                   Some ((retval, arg), s2) }
               | _ \<Rightarrow> None)
               else (case arg of
                 A_tst t \<Rightarrow> do {
                   ((retval, t', _), s2) \<leftarrow> tcp_gettst_r E lnk t None s1;
                   Some ((retval, A_tst t'), s2) }
               | _ \<Rightarrow> None));
            s3 \<leftarrow> objdefr E lnk s2;
            Some ((retval, arg'), s3) } })"

subsection \<open>Logging\<close>

definition nis_checr :: "fptr \<Rightarrow> st \<Rightarrow> fptr \<times> st" where
  "nis_checr ecr s =
     (if ecr = 0 then (0, s\<lparr>current_ecr := 0\<rparr>) else (current_ecr s, s\<lparr>current_ecr := ecr\<rparr>))"

text \<open>
  \<open>retval\<close> and \<open>logstr\<close> are what \<open>posix__vsprintf\<close> makes of the format and the arguments. The
  terminating zero goes to index \<open>retval\<close> of an array of 128 characters. The exchange with
  the fresh local \<open>ecr\<close> always returns NULL.
\<close>

definition nis_call_ecr :: "int \<Rightarrow> string \<Rightarrow> st \<Rightarrow> st option" where
  "nis_call_ecr retval logstr s =
     (if current_ecr s = 0 then Some s
      else if retval \<le> 0 then Some s
      else do { massert (retval < 128); Some (emit (EvLog (take (nat retval) logstr)) s) })"

subsection \<open>Host services\<close>

record swnet_version_t =
  major :: u16
  minor :: u16
  revision :: u16

definition nis_getver :: "swnet_version_t option \<Rightarrow> int \<times> swnet_version_t option" where
  "nis_getver version = (case version of
     None \<Rightarrow> (- 1, None)
   | Some v \<Rightarrow> (0, Some (v\<lparr>major := 9, minor := 7, revision := 6\<rparr>)))"

definition isalpha :: "string \<Rightarrow> bool" where
  "isalpha name = (case name of
     [] \<Rightarrow> False
   | c # _ \<Rightarrow> (65 \<le> (of_char c :: nat) \<and> (of_char c :: nat) \<le> 90)
       \<or> (97 \<le> (of_char c :: nat) \<and> (of_char c :: nat) \<le> 122))"

text \<open>
  The \<open>hostent\<close> of an answer: address type \<open>e_val\<close>, address length \<open>e_val2\<close> (converted to
  \<open>size_t\<close> by the comparison), first address \<open>e_addr\<close>.
\<close>

definition nis_gethost :: "env \<Rightarrow> string option \<Rightarrow> u32 option \<Rightarrow> st \<Rightarrow> (int \<times> u32 option) \<times> st" where
  "nis_gethost E name ip_out s = (case (name, ip_out) of
     (Some nm, Some _) \<Rightarrow>
       let (_, s1) = so_init E kProto_Unknown (- 1) s;
           a = e_inet_addr E nm in
       if \<not> isalpha nm \<and> a = - 1 then ((- 1, Some 0), s1)
       else let c = (if isalpha nm then C_gethostbyname nm else C_gethostbyaddr a);
                (remote, s2) = sysc E c s1 in
         if remote = 0 then ((- 1, Some 0), s2)
         else if e_val E (trace s1) c \<noteq> AF_INET then ((- 1, Some 0), s2)
         else if size_t (e_val2 E (trace s1) c) < 4 then ((- 1, Some 0), s2)
         else ((0, Some (ntohl (sin_addr (e_addr E (trace s1) c)))), s2)
   | _ \<Rightarrow> ((- 1, ip_out), s))"

text \<open>Whether the caller gets its buffer back (\<open>True\<close>) or NULL; the name is the system's.\<close>

definition nis_lgethost :: "env \<Rightarrow> bool \<Rightarrow> int \<Rightarrow> st \<Rightarrow> bool \<times> st" where
  "nis_lgethost E name cb s =
     (if \<not> name \<or> cb \<le> 0 then (False, s)
      else let (r, s1) = sysc E (C_gethostname cb) s in (r = 0, s1))"

record adapter_info =
  Description :: string
  IpAddress :: string
  IpMask :: string

record ifmisc_t =
  interface :: string
  if_addr :: u32
  if_netmask :: u32
  if_boardcast :: u32

definition ERROR_BUFFER_OVERFLOW :: int where "ERROR_BUFFER_OVERFLOW = 111"
abbreviation "EAGAIN \<equiv> (11 :: int)"

text \<open>
  The loop that asks for the adapters until the buffer is large enough, at most ten times:
  \<open>Inl\<close> for the failed \<open>malloc\<close>, \<open>Inr\<close> of the last return code and the buffer.
\<close>

fun adapters_loop :: "env \<Rightarrow> nat \<Rightarrow> int \<Rightarrow> int \<Rightarrow> ptr \<Rightarrow> st \<Rightarrow> ((unit + int \<times> ptr) \<times> st) option" where
  "adapters_loop E 0 r outBufLen buf s = Some (Inr (r, buf), s)"
| "adapters_loop E (Suc i) r outBufLen buf s =
     (if r \<noteq> ERROR_BUFFER_OVERFLOW then Some (Inr (r, buf), s)
      else do {
        s1 \<leftarrow> free buf s;
        let (p, s2) = malloc E outBufLen s1;
        if p = Null then Some (Inl (), s2)
        else let len = e_val E (trace s2) C_GetAdaptersInfo;
                 (r', s3) = sysc E C_GetAdaptersInfo s2 in
          adapters_loop E i r' len p s3 })"

text \<open>\<open>strncpy_s\<close> with a source that does not fit ends the program.\<close>

definition fill_ifmisc :: "env \<Rightarrow> nat \<Rightarrow> adapter_info \<Rightarrow> ifmisc_t option" where
  "fill_ifmisc E isz a =
     (if length (Description a) < isz - 1
      then Some \<lparr>interface = Description a, if_addr = e_inet_addr E (IpAddress a),
        if_netmask = e_inet_addr E (IpMask a), if_boardcast = 0\<rparr>
      else None)"

fun fill_ifmiscs :: "env \<Rightarrow> nat \<Rightarrow> adapter_info list \<Rightarrow> ifmisc_t list option" where
  "fill_ifmiscs E isz [] = Some []"
| "fill_ifmiscs E isz (a # as) = do {
     x \<leftarrow> fill_ifmisc E isz a; xs \<leftarrow> fill_ifmiscs E isz as; Some (x # xs) }"

text \<open>
  \<open>as\<close> is the adapter list of the last successful \<open>GetAdaptersInfo\<close>, \<open>cbm\<close> and \<open>isz\<close> the sizes
  of \<open>ifmisc_t\<close> and of its array \<open>interface_\<close>; \<open>ifv\<close> tells whether the caller gave an array.
\<close>

definition nis_getifmisc :: "env \<Rightarrow> (int \<Rightarrow> int) \<Rightarrow> nat \<Rightarrow> nat \<Rightarrow> adapter_info list \<Rightarrow> bool \<Rightarrow> int option \<Rightarrow> st
    \<Rightarrow> ((int \<times> ifmisc_t list \<times> int option) \<times> st) option" where
  "nis_getifmisc E makeerror cbm isz as ifv cbifv s = (case cbifv of
     None \<Rightarrow> Some ((- EINVAL, [], None), s)
   | Some cb \<Rightarrow>
       if cb > 0 \<and> \<not> ifv then Some ((- EINVAL, [], cbifv), s)
       else do {
         let len = e_val E (trace s) C_GetAdaptersInfo;
         let (r, s1) = sysc E C_GetAdaptersInfo s;
         (out, s2) \<leftarrow> adapters_loop E 10 r len Null s1;
         case out of
           Inl _ \<Rightarrow> Some ((- ENOMEM, [], cbifv), s2)
         | Inr (r', buf) \<Rightarrow>
             if r' \<noteq> 0 then do { s3 \<leftarrow> free buf s2; Some ((makeerror r', [], cbifv), s3) }
             else
               let found = (if buf = Null then [] else as);
                   cbacquire = int (length found * cbm) in
               if \<not> ifv \<or> cb < cbacquire then Some ((- EAGAIN, [], Some cbacquire), s2)
               else do {
                 xs \<leftarrow> fill_ifmiscs E isz found;
                 s3 \<leftarrow> free buf s2;
                 Some ((0, xs, cbifv), s3) } })"

end
