(* ===== verification/Balance.thy ===== *)
theory Balance
  imports Mxx
begin

text \<open>
  No operation leaks or over-releases a reference. The rules of the collection \<open>bal\<close> say of
  each operation that, whatever the environment answers, it keeps the number of references
  the program holds on every handle, and the handle each control block stores. A claim
  about a whole handler or API function is then one step of \<open>auto\<close> over its definition.
\<close>

subsection \<open>Inversion of a run\<close>

text \<open>A run that returns took one branch of each conditional: the nested \<open>do\<close> blocks of a
  definition become the sequence of its steps.\<close>

lemma case_prod_Some: "(case x of (a, b) \<Rightarrow> f a b) = Some y \<longleftrightarrow> (\<exists>a b. x = (a, b) \<and> f a b = Some y)"
  by (cases x) auto

lemma case_prod_Pair: "(case x of (a, b) \<Rightarrow> f a b) = (c, d) \<longleftrightarrow> (\<exists>a b. x = (a, b) \<and> f a b = (c, d))"
  by (cases x) auto

lemma if_Some: "(if b then x else y) = Some z \<longleftrightarrow> b \<and> x = Some z \<or> \<not> b \<and> y = Some z"
  by auto

lemma if_Pair: "(if b then x else y) = (c, d) \<longleftrightarrow> b \<and> x = (c, d) \<or> \<not> b \<and> y = (c, d)"
  by auto

lemma case_option_Some:
  "(case x of None \<Rightarrow> f | Some a \<Rightarrow> g a) = Some y \<longleftrightarrow> x = None \<and> f = Some y \<or> (\<exists>a. x = Some a \<and> g a = Some y)"
  by (cases x) auto

lemma case_ptr_Some:
  "(case x of Null \<Rightarrow> f | Ptr b i \<Rightarrow> g b i) = Some y
     \<longleftrightarrow> x = Null \<and> f = Some y \<or> (\<exists>b i. x = Ptr b i \<and> g b i = Some y)"
  by (cases x) auto

lemma case_list_Some:
  "(case x of [] \<Rightarrow> f | a # l \<Rightarrow> g a l) = Some y \<longleftrightarrow> x = [] \<and> f = Some y \<or> (\<exists>a l. x = a # l \<and> g a l = Some y)"
  by (cases x) auto

lemmas run_iff = bind_eq_Some_conv Let_def case_prod_Some if_Some if_Pair case_option_Some case_ptr_Some
  case_list_Some

subsection \<open>Control blocks know their handles\<close>

definition hld_ok :: "(handle \<rightharpoonup> ncb_t) \<Rightarrow> bool" where
  "hld_ok N \<longleftrightarrow> (\<forall>h n. N h = Some n \<longrightarrow> hld n = h)"

lemma hld_okD: "N h = Some n \<Longrightarrow> hld_ok N \<Longrightarrow> hld n = h"
  by (simp add: hld_ok_def)

lemma hld_ok_None [simp]: "hld_ok N \<Longrightarrow> hld_ok (N(h := None))"
  by (simp add: hld_ok_def)

lemma hld_ok_upd: "hld_ok (N(h \<mapsto> m)) \<longleftrightarrow> hld m = h \<and> hld_ok (N(h := None))"
  by (auto simp: hld_ok_def)

lemma bal_mod_ncb [bal]:
  "mod_ncb h f s = Some s' \<Longrightarrow> hld_ok (ncbs s) \<and> (\<forall>n. hld (f n) = hld n)
    \<longrightarrow> refs s' = refs s \<and> hld_ok (ncbs s')"
  by (auto simp: mod_ncb_def bind_eq_Some_conv hld_ok_upd dest: hld_okD)

subsection \<open>Memory and packets\<close>

lemma ncbs_free: "free p s = Some s' \<Longrightarrow> ncbs s' = ncbs s"
  by (auto simp: free_def split: ptr.splits option.splits if_splits)

lemma ncbs_store: "store p ys s = Some s' \<Longrightarrow> ncbs s' = ncbs s"
  by (auto simp: store_def split: ptr.splits option.splits obj.splits if_splits)

lemma ncbs_memcpy: "memcpy p q n s = Some s' \<Longrightarrow> ncbs s' = ncbs s"
  by (auto simp: memcpy_def bind_eq_Some_conv dest: ncbs_store)

lemma ncbs_mod_pkt: "mod_pkt p f s = Some s' \<Longrightarrow> ncbs s' = ncbs s"
  by (auto simp: mod_pkt_def bind_eq_Some_conv)

lemma sysc_frame [simp]: "ncbs (snd (sysc E c s)) = ncbs s"
  by (simp add: sysc_def Let_def)

lemma bal_free [bal]: "free p s = Some s' \<Longrightarrow> refs s' = refs s \<and> ncbs s' = ncbs s"
  by (simp add: refs_free ncbs_free)

lemma bal_store [bal]: "store p ys s = Some s' \<Longrightarrow> refs s' = refs s \<and> ncbs s' = ncbs s"
  by (simp add: refs_store ncbs_store)

lemma bal_memcpy [bal]: "memcpy p q n s = Some s' \<Longrightarrow> refs s' = refs s \<and> ncbs s' = ncbs s"
  by (simp add: refs_memcpy ncbs_memcpy)

lemma bal_mod_pkt [bal]: "mod_pkt p f s = Some s' \<Longrightarrow> refs s' = refs s \<and> ncbs s' = ncbs s"
  by (simp add: refs_mod_pkt ncbs_mod_pkt)

lemma bal_malloc [bal]: "malloc E n s = (p, s') \<Longrightarrow> refs s' = refs s \<and> ncbs s' = ncbs s"
  by (auto simp: malloc_def sysc_def Let_def alloc_obj_def split: if_splits)

lemma bal_malloc_new [bal]: "malloc_new E t x s = (p, s') \<Longrightarrow> refs s' = refs s \<and> ncbs s' = ncbs s"
  by (auto simp: malloc_new_def sysc_def Let_def alloc_obj_def split: if_splits)

lemma ncbs_virtual_free [simp]: "ncbs (virtual_free E p s) = ncbs s"
  by (auto simp: virtual_free_def sysc_def Let_def split: ptr.splits option.splits obj.splits region.splits)

lemma ncbs_unlock [simp]: "ncbs (snd (os_unlock_and_free_virtual_pages E p n s)) = ncbs s"
  by (simp add: os_unlock_and_free_virtual_pages_def os_free_memory_block_def sysc_def Let_def)

lemma lock_iteration_frame:
  "refs (snd (lock_iteration E b sz hp fl s)) = refs s \<and> ncbs (snd (lock_iteration E b sz hp fl s)) = ncbs s"
  by (simp add: lock_iteration_def lock_adjust_def sysc_def Let_def)

lemma lock_loop_frame:
  assumes "lock_loop E b sz hp fl s = Some x"
  shows "refs (snd x) = refs s \<and> ncbs (snd x) = ncbs s"
  using assms
proof (rule lock_loop.raw_induct [where P = "\<lambda>E b sz hp fl s x. refs (snd x) = refs s \<and> ncbs (snd x) = ncbs s",
      rotated])
  fix rec E b sz hp fl s x
  assume IH: "\<And>E b sz hp fl s x. rec E b sz hp fl s = Some x \<Longrightarrow> refs (snd x) = refs s \<and> ncbs (snd x) = ncbs s"
    and r: "(case lock_iteration E b sz hp fl s of (Inl out, s') \<Rightarrow> Some (out, s')
        | (Inr (blk', hp', fl'), s') \<Rightarrow> rec E blk' sz hp' fl' s') = Some x"
  obtain out s1 where it: "lock_iteration E b sz hp fl s = (out, s1)" by fastforce
  with lock_iteration_frame [of E b sz hp fl s] have f: "refs s1 = refs s \<and> ncbs s1 = ncbs s" by simp
  show "refs (snd x) = refs s \<and> ncbs (snd x) = ncbs s"
  proof (cases out)
    case (Inl a)
    with r it f show ?thesis by auto
  next
    case (Inr b)
    with r it obtain blk' hp' fl' where "rec E blk' sz hp' fl' s1 = Some x" by (cases b) auto
    with f show ?thesis using IH by metis
  qed
qed

lemma lock_epilogue_frame:
  "refs (snd (lock_epilogue E (out, s))) = refs s \<and> ncbs (snd (lock_epilogue E (out, s))) = ncbs s"
  by (simp add: lock_epilogue_def sysc_def Let_def split: prod.splits)

lemma lock_frame:
  "lock_loop E b sz hp fl s = Some x \<Longrightarrow> lock_epilogue E x = (q, s') \<Longrightarrow> refs s' = refs s \<and> ncbs s' = ncbs s"
  using lock_loop_frame [of E b sz hp fl s x] lock_epilogue_frame [of E "fst x" "snd x"] by simp

lemma bal_os_lock [bal]:
  assumes "os_lock_virtual_pages E p sz s = Some (q, s')"
  shows "refs s' = refs s \<and> ncbs s' = ncbs s"
proof -
  obtain blk s1 where o: "os_allocate_block E (- 1) sz s = (blk, s1)" by fastforce
  then have "refs s1 = refs s \<and> ncbs s1 = ncbs s"
    by (auto simp: os_allocate_block_def sysc_def Let_def alloc_obj_def split: if_splits)
  with assms o show ?thesis
    by (cases blk) (auto simp: os_lock_virtual_pages_def split: if_splits dest: lock_frame)
qed

lemma bal_allocate_packet [bal]:
  "allocate_packet E h proto ty n style s = Some ((r, p), s') \<Longrightarrow> refs s' = refs s \<and> ncbs s' = ncbs s"
  by (auto simp: allocate_packet_def packet_buffer_def bind_eq_Some_conv Let_def dest!: bal
      split: if_splits prod.splits ptr.splits option.splits page_style.splits)

lemma bal_freepkt [bal]:
  assumes "freepkt E p s = Some s'"
  shows "refs s' = refs s \<and> ncbs s' = ncbs s"
proof (cases p)
  case (Some q)
  with assms obtain k where "get_pkt q s = Some k" by (auto simp: freepkt_def bind_eq_Some_conv)
  with assms Some show ?thesis
    by (cases "pkt_page_style k") (auto simp: freepkt_def bind_eq_Some_conv Let_def dest!: bal split: if_splits)
qed (use assms in \<open>simp add: freepkt_def\<close>)

subsection \<open>Control blocks, sockets and completion ports\<close>

lemma bal_sysc [bal]:
  "sysc E (Mem m) s = (r, s') \<Longrightarrow> refs s' = refs s \<and> ncbs s' = ncbs s"
  "sysc E (Sock k) s = (r, s') \<Longrightarrow> refs s' = refs s \<and> ncbs s' = ncbs s"
  "sysc E (Io i) s = (r, s') \<Longrightarrow> refs s' = refs s \<and> ncbs s' = ncbs s"
  "sysc E (Sys y) s = (r, s') \<Longrightarrow> refs s' = refs s \<and> ncbs s' = ncbs s"
  "sysc E (Host t) s = (r, s') \<Longrightarrow> refs s' = refs s \<and> ncbs s' = ncbs s"
  by (auto simp: sysc_def Let_def)

lemma bal_post [bal]:
  "ncb_post_preclose ncb s = Some s' \<Longrightarrow> refs s' = refs s \<and> ncbs s' = ncbs s"
  "ncb_post_close ncb s = Some s' \<Longrightarrow> refs s' = refs s \<and> ncbs s' = ncbs s"
  "ncb_post_recvdata ncb n p s = Some s' \<Longrightarrow> refs s' = refs s \<and> ncbs s' = ncbs s"
  "ncb_post_pipedata ncb n p s = Some s' \<Longrightarrow> refs s' = refs s \<and> ncbs s' = ncbs s"
  "ncb_post_accepted ncb h s = Some s' \<Longrightarrow> refs s' = refs s \<and> ncbs s' = ncbs s"
  "ncb_post_connected ncb s = Some s' \<Longrightarrow> refs s' = refs s \<and> ncbs s' = ncbs s"
  by (auto simp: ncb_post_preclose_def ncb_post_close_def ncb_post_recvdata_def emit_def
      ncb_post_pipedata_def ncb_post_accepted_def ncb_post_connected_def refs_def bind_eq_Some_conv
      split: option.splits if_splits)

lemma bal_opt [bal]:
  "setsockopt E h l k v s = Some (r, s') \<Longrightarrow> refs s' = refs s \<and> ncbs s' = ncbs s"
  "getsockopt E h l k s = Some (x, s') \<Longrightarrow> refs s' = refs s \<and> ncbs s' = ncbs s"
  by (auto simp: setsockopt_def getsockopt_def run_iff dest!: bal)

lemma bal_ncb_opts [bal]:
  "ncb_set_window_size E ncb d z s = Some (r, s') \<Longrightarrow> refs s' = refs s \<and> ncbs s' = ncbs s"
  "ncb_set_linger E ncb o1 l s = Some (r, s') \<Longrightarrow> refs s' = refs s \<and> ncbs s' = ncbs s"
  "ncb_set_keepalive E ncb e s = Some (r, s') \<Longrightarrow> refs s' = refs s \<and> ncbs s' = ncbs s"
  by (auto simp: ncb_set_window_size_def ncb_set_linger_def ncb_set_keepalive_def dest!: bal
      split: option.splits)

lemma bal_lb [bal]:
  "ncb_mark_lb E ncb cb cur src s = Some (r, s') \<Longrightarrow> hld_ok (ncbs s) \<longrightarrow> refs s' = refs s \<and> hld_ok (ncbs s')"
  "ncb_unmark_lb ncb s = Some s' \<Longrightarrow> hld_ok (ncbs s) \<longrightarrow> refs s' = refs s \<and> hld_ok (ncbs s')"
  by (auto simp: ncb_mark_lb_def ncb_unmark_lb_def run_iff simp del: mod_ncb_Some dest!: bal)

lemma bal_io [bal]:
  "ioclose E ncb s = Some s' \<Longrightarrow> hld_ok (ncbs s) \<longrightarrow> refs s' = refs s \<and> hld_ok (ncbs s')"
  "ioatth E ncb s = Some (r, s') \<Longrightarrow> refs s' = refs s \<and> ncbs s' = ncbs s"
  by (auto simp: ioclose_def ioatth_def run_iff simp del: mod_ncb_Some dest!: bal)

lemma bal_so [bal]:
  "so_create E ty pr s = (fd, s') \<Longrightarrow> refs s' = refs s \<and> ncbs s' = ncbs s"
  "so_bind E sk a p s = (r, s') \<Longrightarrow> refs s' = refs s \<and> ncbs s' = ncbs s"
  by (auto simp: so_create_def so_bind_def Let_def sysc_def split: if_splits)

subsection \<open>Objects\<close>

lemma bal_lock [bal]:
  "EnterCriticalSection h s = Some s' \<Longrightarrow> hld_ok (ncbs s) \<longrightarrow> refs s' = refs s \<and> hld_ok (ncbs s')"
  "LeaveCriticalSection h s = Some s' \<Longrightarrow> hld_ok (ncbs s) \<longrightarrow> refs s' = refs s \<and> hld_ok (ncbs s')"
  "DeleteCriticalSection h s = Some s' \<Longrightarrow> hld_ok (ncbs s) \<longrightarrow> refs s' = refs s \<and> hld_ok (ncbs s')"
  "InitializeCriticalSection h s = Some s' \<Longrightarrow> hld_ok (ncbs s) \<longrightarrow> refs s' = refs s \<and> hld_ok (ncbs s')"
  by (auto simp: EnterCriticalSection_def LeaveCriticalSection_def DeleteCriticalSection_def
      InitializeCriticalSection_def run_iff simp del: mod_ncb_Some dest!: bal)

lemma bal_tcp_drain [bal]:
  "tcp_drain E h q s = Some s' \<Longrightarrow> hld_ok (ncbs s) \<longrightarrow> refs s' = refs s \<and> hld_ok (ncbs s')"
proof (induction q arbitrary: s)
  case (Cons p q)
  then obtain s1 s2 where "mod_ncb h (\<lambda>n. n\<lparr>tcp_sender_cache_head := Some q\<rparr>) s = Some s1"
    "freepkt E (Some p) s1 = Some s2" "tcp_drain E h q s2 = Some s'"
    by (auto simp: bind_eq_Some_conv)
  with Cons.IH [of s2] show ?case by (auto dest!: bal)
qed simp

lemma bal_unload:
  "tcp_unload E ncb s = Some s' \<Longrightarrow> hld_ok (ncbs s) \<longrightarrow> hld_ok (ncbs s')"
  "udp_unload E ncb s = Some s' \<Longrightarrow> hld_ok (ncbs s) \<longrightarrow> hld_ok (ncbs s')"
  "arp_unload E ncb s = Some s' \<Longrightarrow> hld_ok (ncbs s) \<longrightarrow> hld_ok (ncbs s')"
  by (auto simp: tcp_unload_def udp_unload_def arp_unload_def free_user_context_def bind_eq_Some_conv
      dest!: bal split: option.splits if_splits)

lemma finalize_hld: "finalize E h s = Some s' \<Longrightarrow> hld_ok (ncbs s) \<longrightarrow> hld_ok (ncbs s')"
  by (auto simp: finalize_def bind_eq_Some_conv dest!: bal_unload split: option.splits unload_fn.splits)

lemma bal_objdefr [bal]:
  "objdefr E h s = Some s' \<Longrightarrow> refs s' = (refs s)(h := refs s h - 1) \<and> (hld_ok (ncbs s) \<longrightarrow> hld_ok (ncbs s'))"
  by (rule conjI, erule refs_objdefr)
    (auto simp: objdefr_def sysc_def Let_def dest!: finalize_hld split: if_splits)

lemma bal_objclos [bal]:
  "objclos E h s = Some s' \<Longrightarrow> refs s' = refs s \<and> (hld_ok (ncbs s) \<longrightarrow> hld_ok (ncbs s'))"
  by (rule conjI, erule refs_objclos)
    (auto simp: objclos_def sysc_def Let_def dest!: finalize_hld split: if_splits)

lemma bal_objdefr_ncb [bal]:
  "objdefr_ncb E h s = Some s' \<Longrightarrow> hld_ok (ncbs s) \<longrightarrow>
     refs s' = (refs s)(h := refs s h - 1) \<and> hld_ok (ncbs s')"
  by (auto simp: objdefr_ncb_def bind_eq_Some_conv dest: hld_okD dest!: bal)

lemma bal_objclos_ncb [bal]:
  "objclos_ncb E h s = Some s' \<Longrightarrow> refs s' = refs s \<and> (hld_ok (ncbs s) \<longrightarrow> hld_ok (ncbs s'))"
  by (auto simp: objclos_ncb_def bind_eq_Some_conv dest!: bal)

lemma bal_objrefr [bal]:
  "objrefr E h s = (ncb, s') \<Longrightarrow> ncbs s' = ncbs s \<and> (case ncb of None \<Rightarrow> refs s' = refs s
     | Some g \<Rightarrow> g = h \<and> refs s' = (refs s)(h := refs s h + 1))"
  by (cases ncb) (auto dest!: objrefr_Some objrefr_None)

lemma bal_typed [bal]:
  "tcprefr E h s = Some ((r, ncb), s') \<Longrightarrow> (hld_ok (ncbs s) \<longrightarrow> hld_ok (ncbs s'))
     \<and> (if r < 0 then ncb = None \<and> refs s' = refs s else ncb = Some h \<and> refs s' = (refs s)(h := refs s h + 1))"
  "udprefr E h s = Some ((r, ncb), s') \<Longrightarrow> (hld_ok (ncbs s) \<longrightarrow> hld_ok (ncbs s'))
     \<and> (if r < 0 then ncb = None \<and> refs s' = refs s else ncb = Some h \<and> refs s' = (refs s)(h := refs s h + 1))"
  "arprefr E h s = Some ((r, ncb), s') \<Longrightarrow> (hld_ok (ncbs s) \<longrightarrow> hld_ok (ncbs s'))
     \<and> (if r < 0 then ncb = None \<and> refs s' = refs s else ncb = Some h \<and> refs s' = (refs s)(h := refs s h + 1))"
  by (auto simp: tcprefr_def udprefr_def arprefr_def bind_eq_Some_conv dest!: bal split: option.splits if_splits prod.splits)

subsection \<open>Requests\<close>

lemma bal_pending [bal]: "pending_retval E r s = (r', s') \<Longrightarrow> refs s' = refs s \<and> ncbs s' = ncbs s"
  by (auto simp: pending_retval_def Let_def sysc_def split: if_splits)

lemma bal_asio [bal]:
  "asio_tcp_accept E packet s = Some (r, s') \<Longrightarrow> hld_ok (ncbs s) \<longrightarrow> refs s' = refs s \<and> hld_ok (ncbs s')"
  "asio_tcp_send E packet s = Some (r, s') \<Longrightarrow> hld_ok (ncbs s) \<longrightarrow> refs s' = refs s \<and> hld_ok (ncbs s')"
  "asio_tcp_recv E packet s = Some (r, s') \<Longrightarrow> hld_ok (ncbs s) \<longrightarrow> refs s' = refs s \<and> hld_ok (ncbs s')"
  "asio_tcp_connect E packet s = Some (r, s') \<Longrightarrow> hld_ok (ncbs s) \<longrightarrow> refs s' = refs s \<and> hld_ok (ncbs s')"
  "asio_udp_recv E packet s = Some (r, s') \<Longrightarrow> hld_ok (ncbs s) \<longrightarrow> refs s' = refs s \<and> hld_ok (ncbs s')"
  by (auto simp: asio_tcp_accept_def asio_tcp_send_def asio_tcp_recv_def asio_tcp_connect_def asio_udp_recv_def run_iff simp del: mod_ncb_Some dest!: bal)

lemma bal_syio [bal]:
  "syio_v_disconnect E h s = Some (r, s') \<Longrightarrow> hld_ok (ncbs s) \<longrightarrow> refs s' = refs s \<and> hld_ok (ncbs s')"
  "syio_v_connect E h a s = Some (r, s') \<Longrightarrow> hld_ok (ncbs s) \<longrightarrow> refs s' = refs s \<and> hld_ok (ncbs s')"
  "syio_grp_send E p s = Some (r, s') \<Longrightarrow> hld_ok (ncbs s) \<longrightarrow> refs s' = refs s \<and> hld_ok (ncbs s')"
  by (auto simp: syio_v_disconnect_def syio_v_connect_def syio_grp_send_def run_iff simp del: mod_ncb_Some dest!: bal)

subsection \<open>TCP links\<close>

lemma bal_tcp_opts [bal]:
  "tcp_set_nodelay E ncb v s = Some (r, s') \<Longrightarrow> hld_ok (ncbs s) \<longrightarrow> refs s' = refs s \<and> hld_ok (ncbs s')"
  "tcp_update_opts E ncb s = Some (r, s') \<Longrightarrow> hld_ok (ncbs s) \<longrightarrow> refs s' = refs s \<and> hld_ok (ncbs s')"
  by (auto simp: tcp_set_nodelay_def tcp_update_opts_def run_iff simp del: mod_ncb_Some dest!: bal)

lemma bal_tcp_tst [bal]:
  "tcp_settst E lnk tst s = Some (r, s') \<Longrightarrow> hld_ok (ncbs s) \<longrightarrow> refs s' = refs s \<and> hld_ok (ncbs s')"
  "tcp_settst_r E lnk tst s = Some (r, s') \<Longrightarrow> hld_ok (ncbs s) \<longrightarrow> refs s' = refs s \<and> hld_ok (ncbs s')"
  "tcp_gettst E lnk tst s = Some (x, s') \<Longrightarrow> hld_ok (ncbs s) \<longrightarrow> refs s' = refs s \<and> hld_ok (ncbs s')"
  "tcp_gettst_r E lnk tst prev s = Some (y, s') \<Longrightarrow> hld_ok (ncbs s) \<longrightarrow> refs s' = refs s \<and> hld_ok (ncbs s')"
  by (auto simp: tcp_settst_def tcp_settst_r_def tcp_gettst_def tcp_gettst_r_def run_iff simp del: mod_ncb_Some dest!: bal)

lemma bal_tcp_attr [bal]:
  "tcp_getaddr E lnk nt a po s = Some (y, s') \<Longrightarrow> hld_ok (ncbs s) \<longrightarrow> refs s' = refs s \<and> hld_ok (ncbs s')"
  "tcp_setopt E lnk l k v s = Some (r, s') \<Longrightarrow> hld_ok (ncbs s) \<longrightarrow> refs s' = refs s \<and> hld_ok (ncbs s')"
  "tcp_getopt E lnk l k ov s = Some (x, s') \<Longrightarrow> hld_ok (ncbs s) \<longrightarrow> refs s' = refs s \<and> hld_ok (ncbs s')"
  "tcp_setattr E lnk at e s = Some (r, s') \<Longrightarrow> hld_ok (ncbs s) \<longrightarrow> refs s' = refs s \<and> hld_ok (ncbs s')"
  "tcp_getattr E lnk at en s = Some (x, s') \<Longrightarrow> hld_ok (ncbs s) \<longrightarrow> refs s' = refs s \<and> hld_ok (ncbs s')"
  by (auto simp: tcp_getaddr_def tcp_setopt_def tcp_getopt_def tcp_setattr_def tcp_getattr_def run_iff simp del: mod_ncb_Some dest!: bal)

subsection \<open>Creation of links and accepting\<close>

declare tcp_syn_loop.simps [simp del] tcp_listen_loop.simps [simp del]

lemma ncb_hld_set:
  "mod_ncb h f s = Some s' \<Longrightarrow> hld_ok ((ncbs s)(h := None)) \<Longrightarrow> (\<And>n. hld (f n) = h)
    \<Longrightarrow> refs s' = refs s \<and> hld_ok (ncbs s')"
  by (auto simp: mod_ncb_def bind_eq_Some_conv hld_ok_upd)

text \<open>The object manager grants a reference on a handle it has just allocated.\<close>

definition fresh_ref :: "env \<Rightarrow> bool" where
  "fresh_ref E \<longleftrightarrow> (\<forall>t. e_sys E (t @ [Call C_objallo (e_sys E t C_objallo)]) (C_objrefr (e_sys E t C_objallo)) \<noteq> 0)"

lemma objallo_bal:
  "objallo E u s = (h, s1) \<Longrightarrow> refs s1 = refs s \<and> (hld_ok (ncbs s) \<longrightarrow> hld_ok ((ncbs s1)(h := None)))
     \<and> (fresh_ref E \<and> 0 \<le> h \<longrightarrow> (\<exists>s2. objrefr E h s1 = (Some h, s2)))
     \<and> (h < 0 \<longrightarrow> ncbs s1 = ncbs s)"
  by (auto simp: objallo_def sysc_def Let_def refs_record_call objref_def fresh_ref_def split: if_splits)

lemma bal_mod_ncb_fresh:
  "mod_ncb h f s = Some s' \<Longrightarrow> hld_ok ((ncbs s)(h := None)) \<Longrightarrow> refs s' = refs s \<and> hld_ok ((ncbs s')(h := None))"
  by (auto simp: mod_ncb_def bind_eq_Some_conv)

lemma bal_init_hld:
  assumes "ncb_init (Some h) proto s = Some s1" "mod_ncb h g s1 = Some s2"
    and "hld_ok ((ncbs s)(h := None))" "\<And>n. hld (g n) = h"
  shows "refs s2 = refs s \<and> hld_ok (ncbs s2)"
proof -
  have "mod_ncb h (\<lambda>_. ncb_zero\<lparr>sockfd := INVALID_SOCKET, proto_type := proto\<rparr>) s = Some s1"
    using assms(1) by (simp add: ncb_init_def)
  note a = bal_mod_ncb_fresh [OF this assms(3)]
  note c = ncb_hld_set [OF assms(2) a [THEN conjunct2] assms(4)]
  from a c show ?thesis by simp
qed

lemma bal_entry_start:
  assumes "ncb_init (Some h) proto s = Some s1" "mod_ncb h f s1 = Some s2" "mod_ncb h g s2 = Some s3"
    and "hld_ok ((ncbs s)(h := None))" "\<And>n. hld (g n) = h"
  shows "refs s3 = refs s \<and> hld_ok (ncbs s3)"
proof -
  have "mod_ncb h (g \<circ> f) s1 = Some s3"
    using assms(2,3) by (auto simp: mod_ncb_def bind_eq_Some_conv)
  then show ?thesis by (rule bal_init_hld [OF assms(1) _ assms(4)]) (simp add: assms(5))
qed

lemma tcp_entry_body_bal:
  assumes "tcp_entry_body E h h ctx s = Some (r, s')" "hld_ok ((ncbs s)(h := None))"
  shows "refs s' = refs s \<and> hld_ok (ncbs s')"
proof -
  obtain s1 s2 s3 where i: "ncb_init (Some h) kProto_TCP s = Some s1"
    "mod_ncb h (\<lambda>n. n\<lparr>nis_callback := callback ctx\<rparr>) s1 = Some s2"
    "mod_ncb h (\<lambda>n. n\<lparr>hld := h\<rparr>) s2 = Some s3"
    using assms(1) by (auto simp: tcp_entry_body_def bind_eq_Some_conv)
  have "refs s3 = refs s \<and> hld_ok (ncbs s3)" by (rule bal_entry_start [OF i assms(2)]) simp
  moreover have "refs s' = refs s3 \<and> hld_ok (ncbs s')" if "hld_ok (ncbs s3)"
    using assms(1) that unfolding tcp_entry_body_def i bind.bind_lunit
    by (auto simp: run_iff simp del: mod_ncb_Some dest!: bal)
  ultimately show ?thesis by simp
qed

lemma tcp_entry_bal:
  "tcp_entry E h (Some h) ctx s = Some (r, s') \<Longrightarrow> hld_ok ((ncbs s)(h := None)) \<Longrightarrow> 0 \<le> h
     \<Longrightarrow> refs s' = refs s \<and> hld_ok (ncbs s')"
  by (auto simp: tcp_entry_def run_iff simp del: mod_ncb_Some dest!: bal tcp_entry_body_bal)

lemma bal_tcp_allocate_object [bal]:
  assumes "tcp_allocate_object E ctx s = Some (h, s')"
  shows "fresh_ref E \<and> hld_ok (ncbs s) \<longrightarrow> refs s' = refs s \<and> hld_ok (ncbs s')"
proof (intro impI)
  assume f: "fresh_ref E \<and> hld_ok (ncbs s)"
  obtain g s1 where o: "objallo E Tcp_unload s = (g, s1)" by fastforce
  note a = objallo_bal [OF o]
  show "refs s' = refs s \<and> hld_ok (ncbs s')"
  proof (cases "g < 0")
    case True
    with assms a f o show ?thesis by (simp add: tcp_allocate_object_def)
  next
    case False
    with a f obtain s2 where r: "objrefr E g s1 = (Some g, s2)" by fastforce
    note r' = objrefr_Some [OF r]
    have h: "hld_ok ((ncbs s2)(g := None))" using a f r' by simp
    show ?thesis using assms o False r r' a h
      by (auto simp: tcp_allocate_object_def run_iff simp del: mod_ncb_Some dest!: bal tcp_entry_bal)
  qed
qed

lemma bal_tcp_create [bal]:
  "tcp_create E cb l po s = Some (h, s') \<Longrightarrow> fresh_ref E \<and> hld_ok (ncbs s) \<longrightarrow> refs s' = refs s \<and> hld_ok (ncbs s')"
  by (auto simp: tcp_create_def run_iff simp del: mod_ncb_Some dest!: bal)

lemma bal_tcp_syn_loop [bal]:
  "tcp_syn_loop E hl p m s = Some (b, s') \<Longrightarrow> fresh_ref E \<and> hld_ok (ncbs s) \<longrightarrow> refs s' = refs s \<and> hld_ok (ncbs s')"
proof (induction m arbitrary: s)
  case 0
  then show ?case by (subst (asm) tcp_syn_loop.simps) (auto simp: run_iff simp del: mod_ncb_Some dest!: bal)
next
  case (Suc m)
  from Suc.prems show ?case
    by (subst (asm) tcp_syn_loop.simps)
      (auto simp: run_iff simp del: mod_ncb_Some dest!: bal Suc.IH)
qed

lemma bal_tcp_syn [bal]:
  "tcp_syn E ncb s = Some (r, s') \<Longrightarrow> fresh_ref E \<and> hld_ok (ncbs s) \<longrightarrow> refs s' = refs s \<and> hld_ok (ncbs s')"
  by (auto simp: tcp_syn_def run_iff simp del: mod_ncb_Some dest!: bal)

lemma bal_tcp_syn_copy [bal]:
  "tcp_syn_copy E ncb ncb2 packet s = Some (r, s') \<Longrightarrow> hld_ok (ncbs s) \<longrightarrow> refs s' = refs s \<and> hld_ok (ncbs s')"
  by (cases ncb; cases ncb2; cases packet; simp add: tcp_syn_copy_def)
    (auto simp: run_iff simp del: mod_ncb_Some dest!: bal)

lemma bal_tcp_accept_one [bal]:
  "tcp_accept_one E hl ha p s = Some (r, s') \<Longrightarrow> hld_ok (ncbs s) \<longrightarrow> refs s' = refs s \<and> hld_ok (ncbs s')"
  by (auto simp: tcp_accept_one_def run_iff simp del: mod_ncb_Some dest!: bal)

lemma bal_tcp_dispatch_io_syn [bal]:
  "tcp_dispatch_io_syn E packet s = Some s' \<Longrightarrow> fresh_ref E \<and> hld_ok (ncbs s) \<longrightarrow> refs s' = refs s \<and> hld_ok (ncbs s')"
  by (auto simp: tcp_dispatch_io_syn_def run_iff simp del: mod_ncb_Some dest!: bal)

lemma bal_tcp_listen_loop [bal]:
  "tcp_listen_loop E h m s = Some (r, s') \<Longrightarrow> fresh_ref E \<and> hld_ok (ncbs s) \<longrightarrow> refs s' = refs s \<and> hld_ok (ncbs s')"
proof (induction m arbitrary: s)
  case 0
  then show ?case by (subst (asm) tcp_listen_loop.simps) (auto simp: run_iff dest!: bal)
next
  case (Suc m)
  from Suc.prems show ?case
    by (subst (asm) tcp_listen_loop.simps) (auto simp: run_iff dest!: bal Suc.IH)
qed

lemma bal_tcp_listen [bal]:
  "tcp_listen E lnk blk s = Some (r, s') \<Longrightarrow> fresh_ref E \<and> hld_ok (ncbs s) \<longrightarrow> refs s' = refs s \<and> hld_ok (ncbs s')"
  by (auto simp: tcp_listen_def run_iff simp del: mod_ncb_Some dest!: bal)

lemma bal_tcp_shutdown [bal]:
  "tcp_shutdown_by_packet E packet s = Some s' \<Longrightarrow> fresh_ref E \<and> hld_ok (ncbs s) \<longrightarrow> refs s' = refs s \<and> hld_ok (ncbs s')"
  by (auto simp: tcp_shutdown_by_packet_def run_iff simp del: mod_ncb_Some dest!: bal)

subsection \<open>Sending\<close>

lemma bal_write_slot [bal]:
  assumes "write_slot h s = Some (b, s')"
  shows "hld_ok (ncbs s) \<longrightarrow> refs s' = refs s \<and> hld_ok (ncbs s')"
proof -
  have "hld_ok (ncbs s) \<longrightarrow> refs (snd (b, s')) = refs s \<and> hld_ok (ncbs (snd (b, s')))"
    using assms
    by (rule write_slot.raw_induct
        [where P = "\<lambda>h s x. hld_ok (ncbs s) \<longrightarrow> refs (snd x) = refs s \<and> hld_ok (ncbs (snd x))", rotated])
      (fastforce simp: run_iff simp del: mod_ncb_Some dest!: bal)
  then show ?thesis by simp
qed

lemma bal_queue [bal]:
  "try_enqueue h packet s = Some (b, s') \<Longrightarrow> hld_ok (ncbs s) \<longrightarrow> refs s' = refs s \<and> hld_ok (ncbs s')"
  "pop_sender h s = Some (p, s') \<Longrightarrow> hld_ok (ncbs s) \<longrightarrow> refs s' = refs s \<and> hld_ok (ncbs s')"
  by (auto simp: try_enqueue_def pop_sender_def run_iff simp del: mod_ncb_Some dest!: bal)

lemma bal_tcp_try_write [bal]:
  "tcp_try_write E ncb packet s = Some (r, s') \<Longrightarrow> fresh_ref E \<and> hld_ok (ncbs s) \<longrightarrow> refs s' = refs s \<and> hld_ok (ncbs s')"
  by (auto simp: tcp_try_write_def run_iff simp del: mod_ncb_Some dest!: bal)

lemma bal_payload [bal]:
  "copy_origin dst origin cb s = Some s' \<Longrightarrow> refs s' = refs s \<and> ncbs s' = ncbs s"
  "run_serializer E f dst data cb s = Some (b, s') \<Longrightarrow> refs s' = refs s \<and> ncbs s' = ncbs s"
  "fill_payload E f dst data cb cs s = Some (b, s') \<Longrightarrow> refs s' = refs s \<and> ncbs s' = ncbs s"
  by (auto simp: copy_origin_def run_serializer_def fill_payload_def run_iff dest!: bal)

lemma bal_tcp_build_buffer [bal]:
  "tcp_build_buffer E h origin cb f s = Some (x, s') \<Longrightarrow> hld_ok (ncbs s) \<longrightarrow> refs s' = refs s \<and> hld_ok (ncbs s')"
  by (auto simp: tcp_build_buffer_def run_iff simp del: mod_ncb_Some dest!: bal)

lemma bal_tcp_write [bal]:
  "tcp_write E lnk origin cb f s = Some (r, s') \<Longrightarrow> fresh_ref E \<and> hld_ok (ncbs s) \<longrightarrow> refs s' = refs s \<and> hld_ok (ncbs s')"
  by (auto simp: tcp_write_def run_iff simp del: mod_ncb_Some dest!: bal)

lemma bal_tcp_dispatch_io_send [bal]:
  "tcp_dispatch_io_send E packet s = Some s' \<Longrightarrow> fresh_ref E \<and> hld_ok (ncbs s) \<longrightarrow> refs s' = refs s \<and> hld_ok (ncbs s')"
  by (auto simp: tcp_dispatch_io_send_def run_iff simp del: mod_ncb_Some dest!: bal)

lemma bal_tcp_dispatch_io_exception [bal]:
  "tcp_dispatch_io_exception E packet status s = Some s' \<Longrightarrow> fresh_ref E \<and> hld_ok (ncbs s) \<longrightarrow> refs s' = refs s \<and> hld_ok (ncbs s')"
  by (auto simp: tcp_dispatch_io_exception_def run_iff simp del: mod_ncb_Some dest!: bal)

subsection \<open>Receiving and connecting\<close>

lemma bal_deliver [bal]:
  "deliver_logic_packet E h k n off u s = Some s' \<Longrightarrow> refs s' = refs s \<and> ncbs s' = ncbs s"
  by (auto simp: deliver_logic_packet_def dest!: bal split: if_splits)

lemma bal_parse_loop [bal]:
  assumes "parse_loop E h p off useful s = Some (x, s')"
  shows "hld_ok (ncbs s) \<longrightarrow> refs s' = refs s \<and> hld_ok (ncbs s')"
proof -
  have "hld_ok (ncbs s) \<longrightarrow> refs (snd (x, s')) = refs s \<and> hld_ok (ncbs (snd (x, s')))"
    using assms
    by (rule parse_loop.raw_induct
        [where P = "\<lambda>E h p off useful s x. hld_ok (ncbs s) \<longrightarrow> refs (snd x) = refs s \<and> hld_ok (ncbs (snd x))", rotated])
      (fastforce simp: run_iff simp del: mod_ncb_Some dest!: bal)
  then show ?thesis by simp
qed

lemma bal_tcp_lb_assemble [bal]:
  "tcp_lb_assemble E ncb packet s = Some (r, s') \<Longrightarrow> hld_ok (ncbs s) \<longrightarrow> refs s' = refs s \<and> hld_ok (ncbs s')"
  by (cases packet; cases ncb; simp add: tcp_lb_assemble_def)
    (auto simp: run_iff simp del: mod_ncb_Some dest!: bal)

lemma case_exit_Some:
  "(case x of Break a b \<Rightarrow> f a b | Return r \<Rightarrow> g r) = Some y
     \<longleftrightarrow> (\<exists>a b. x = Break a b \<and> f a b = Some y) \<or> (\<exists>r. x = Return r \<and> g r = Some y)"
  by (cases x) auto

lemma bal_tcp_prase_logic_packet [bal]:
  "tcp_prase_logic_packet E ncb packet s = Some (r, s') \<Longrightarrow> hld_ok (ncbs s) \<longrightarrow> refs s' = refs s \<and> hld_ok (ncbs s')"
  by (cases packet; cases ncb; simp add: tcp_prase_logic_packet_def)
    (auto simp: run_iff case_exit_Some simp del: mod_ncb_Some dest!: bal)

lemma bal_tcp_recv_block [bal]:
  "tcp_recv_parse E h p s = Some (r, s') \<Longrightarrow> hld_ok (ncbs s) \<longrightarrow> refs s' = refs s \<and> hld_ok (ncbs s')"
  "tcp_recv_block E h p s = Some (r, s') \<Longrightarrow> hld_ok (ncbs s) \<longrightarrow> refs s' = refs s \<and> hld_ok (ncbs s')"
  by (auto simp: tcp_recv_parse_def tcp_recv_block_def run_iff simp del: mod_ncb_Some dest!: bal)

lemma bal_tcp_dispatch_io_recv [bal]:
  "tcp_dispatch_io_recv E packet s = Some s' \<Longrightarrow> fresh_ref E \<and> hld_ok (ncbs s) \<longrightarrow> refs s' = refs s \<and> hld_ok (ncbs s')"
  by (auto simp: tcp_dispatch_io_recv_def run_iff simp del: mod_ncb_Some dest!: bal)

lemma bal_update_local_addr [bal]:
  "update_local_addr E h s = Some s' \<Longrightarrow> hld_ok (ncbs s) \<longrightarrow> refs s' = refs s \<and> hld_ok (ncbs s')"
  by (auto simp: update_local_addr_def run_iff simp del: mod_ncb_Some dest!: bal)

lemma bal_update_remote_addr [bal]:
  "update_remote_addr E h r s = Some s' \<Longrightarrow> hld_ok (ncbs s) \<longrightarrow> refs s' = refs s \<and> hld_ok (ncbs s')"
  by (auto simp: update_remote_addr_def run_iff simp del: mod_ncb_Some dest!: bal)

lemma bal_tcp_dispatch_io_connected [bal]:
  "tcp_dispatch_io_connected E packet s = Some s' \<Longrightarrow> fresh_ref E \<and> hld_ok (ncbs s) \<longrightarrow> refs s' = refs s \<and> hld_ok (ncbs s')"
  by (auto simp: tcp_dispatch_io_connected_def run_iff simp del: mod_ncb_Some dest!: bal)

lemma case_kind_Some:
  "(case x of kSend \<Rightarrow> a | kRecv \<Rightarrow> b | kSyn \<Rightarrow> c | kConnect \<Rightarrow> d | kPipe \<Rightarrow> e | kUnknown \<Rightarrow> f) = Some y
     \<longleftrightarrow> x = kSend \<and> a = Some y \<or> x = kRecv \<and> b = Some y \<or> x = kSyn \<and> c = Some y
       \<or> x = kConnect \<and> d = Some y \<or> x = kPipe \<and> e = Some y \<or> x = kUnknown \<and> f = Some y"
  by (cases x) auto

lemma bal_tcp_dispatch_io_event [bal]:
  "tcp_dispatch_io_event E packet status s = Some s' \<Longrightarrow> fresh_ref E \<and> hld_ok (ncbs s) \<longrightarrow> refs s' = refs s \<and> hld_ok (ncbs s')"
  by (auto simp: tcp_dispatch_io_event_def run_iff case_kind_Some simp del: mod_ncb_Some dest!: bal)

lemma bal_tcp_connect_body [bal]:
  "tcp_connect_body E h a po s = Some (x, s') \<Longrightarrow> hld_ok (ncbs s) \<longrightarrow> refs s' = refs s \<and> hld_ok (ncbs s')"
  by (auto simp: tcp_connect_body_def run_iff simp del: mod_ncb_Some dest!: bal)

lemma bal_tcp_connect [bal]:
  "tcp_connect E lnk str po s = Some (r, s') \<Longrightarrow> hld_ok (ncbs s) \<longrightarrow> refs s' = refs s \<and> hld_ok (ncbs s')"
  "tcp_connect2 E lnk str po s = Some (r, s') \<Longrightarrow> hld_ok (ncbs s) \<longrightarrow> refs s' = refs s \<and> hld_ok (ncbs s')"
  by (auto simp: tcp_connect_def tcp_connect2_def run_iff simp del: mod_ncb_Some dest!: bal)

end
