(* ===== verification/Balance_Net.thy ===== *)
theory Balance_Net
  imports Balance
begin

text \<open>
  The rules of \<open>Balance\<close> for UDP and ARP objects, for the interface of \<open>mxx.c\<close> and for the
  dispatch of completions.
\<close>

subsection \<open>UDP completions\<close>

lemma bal_udp_shutdown [bal]:
  "udp_shutdown_by_packet E packet s = Some s' \<Longrightarrow> hld_ok (ncbs s) \<longrightarrow> refs s' = refs s \<and> hld_ok (ncbs s')"
  by (auto simp: udp_shutdown_by_packet_def run_iff simp del: mod_ncb_Some dest!: bal)

lemma bal_emit [simp]: "ncbs (emit e s) = ncbs s"
  by (simp add: emit_def)

lemma bal_udp_dispatch [bal]:
  "udp_dispatch_io_recv E packet s = Some s' \<Longrightarrow> hld_ok (ncbs s) \<longrightarrow> refs s' = refs s \<and> hld_ok (ncbs s')"
  "udp_dispatch_io_send E packet s = Some s' \<Longrightarrow> hld_ok (ncbs s) \<longrightarrow> refs s' = refs s \<and> hld_ok (ncbs s')"
  "udp_dispatch_io_exception E packet status s = Some s' \<Longrightarrow> hld_ok (ncbs s) \<longrightarrow> refs s' = refs s \<and> hld_ok (ncbs s')"
  by (auto simp: udp_dispatch_io_recv_def udp_dispatch_io_send_def udp_dispatch_io_exception_def run_iff simp del: mod_ncb_Some dest!: bal)

lemma bal_udp_dispatch_io_event [bal]:
  "udp_dispatch_io_event E p status s = Some s' \<Longrightarrow> hld_ok (ncbs s) \<longrightarrow> refs s' = refs s \<and> hld_ok (ncbs s')"
  by (auto simp: udp_dispatch_io_event_def run_iff case_kind_Some simp del: mod_ncb_Some dest!: bal)

subsection \<open>UDP links\<close>

lemma bal_udp_opts [bal]:
  "udp_update_opts E ncb s = Some (r, s') \<Longrightarrow> hld_ok (ncbs s) \<longrightarrow> refs s' = refs s \<and> hld_ok (ncbs s')"
  "udp_set_boardcast E ncb e s = Some (r, s') \<Longrightarrow> hld_ok (ncbs s) \<longrightarrow> refs s' = refs s \<and> hld_ok (ncbs s')"
  by (auto simp: udp_update_opts_def udp_set_boardcast_def run_iff simp del: mod_ncb_Some dest!: bal)

lemma bal_udp_entry_parts [bal]:
  "udp_entry_addr E h ctx s = Some s' \<Longrightarrow> hld_ok (ncbs s) \<longrightarrow> refs s' = refs s \<and> hld_ok (ncbs s')"
  "udp_entry_flags E h ctx s = Some (b, s') \<Longrightarrow> hld_ok (ncbs s) \<longrightarrow> refs s' = refs s \<and> hld_ok (ncbs s')"
  "udp_entry_attach E h ctx s = Some (b, s') \<Longrightarrow> hld_ok (ncbs s) \<longrightarrow> refs s' = refs s \<and> hld_ok (ncbs s')"
  by (auto simp: udp_entry_addr_def udp_entry_flags_def udp_entry_attach_def run_iff simp del: mod_ncb_Some dest!: bal)

lemma bal_udp_entry_body [bal]:
  "udp_entry_body E h ctx s = Some (b, s') \<Longrightarrow> hld_ok (ncbs s) \<longrightarrow> refs s' = refs s \<and> hld_ok (ncbs s')"
  by (auto simp: udp_entry_body_def run_iff simp del: mod_ncb_Some dest!: bal)

lemma udp_entry_bal:
  assumes "udp_entry E h (Some h) ctx s = Some (r, s')" "hld_ok ((ncbs s)(h := None))"
  shows "refs s' = refs s \<and> hld_ok (ncbs s')"
proof -
  obtain s1 s2 where i: "ncb_init (Some h) kProto_UDP s = Some s1" "mod_ncb h (\<lambda>n. n\<lparr>hld := h\<rparr>) s1 = Some s2"
    using assms(1) by (auto simp: udp_entry_def bind_eq_Some_conv)
  have "refs s2 = refs s \<and> hld_ok (ncbs s2)" by (rule bal_init_hld [OF i assms(2)]) simp
  moreover have "refs s' = refs s2 \<and> hld_ok (ncbs s')" if "hld_ok (ncbs s2)"
    using assms(1) that unfolding udp_entry_def i bind.bind_lunit option.case
    by (auto simp: run_iff simp del: mod_ncb_Some dest!: bal)
  ultimately show ?thesis by simp
qed

lemma bal_udp_allocate_object [bal]:
  assumes "udp_allocate_object E ctx s = Some (h, s')"
  shows "fresh_ref E \<and> hld_ok (ncbs s) \<longrightarrow> refs s' = refs s \<and> hld_ok (ncbs s')"
proof (intro impI)
  assume f: "fresh_ref E \<and> hld_ok (ncbs s)"
  obtain g s1 where o: "objallo E Udp_unload s = (g, s1)" by fastforce
  note a = objallo_bal [OF o]
  show "refs s' = refs s \<and> hld_ok (ncbs s')"
  proof (cases "g < 0")
    case True
    with assms a f o show ?thesis by (simp add: udp_allocate_object_def)
  next
    case False
    with a f obtain s2 where r: "objrefr E g s1 = (Some g, s2)" by fastforce
    note r' = objrefr_Some [OF r]
    have h: "hld_ok ((ncbs s2)(g := None))" using a f r' by simp
    show ?thesis using assms o False r r' a h
      by (auto simp: udp_allocate_object_def run_iff simp del: mod_ncb_Some dest!: bal udp_entry_bal)
  qed
qed

lemma bal_set_pkt_array [bal]: "set_pkt_array a i p s = Some s' \<Longrightarrow> refs s' = refs s \<and> ncbs s' = ncbs s"
  by (auto simp: set_pkt_array_def split: option.splits obj.splits if_splits)

lemma bal_udp_fill_array [bal]:
  "udp_fill_array E h a i m r s = Some (r', s') \<Longrightarrow> refs s' = refs s \<and> ncbs s' = ncbs s"
proof (induction m arbitrary: i r s)
  case (Suc m)
  from Suc.prems show ?case by (auto simp: run_iff dest!: bal Suc.IH)
qed simp

lemma bal_free_packets [bal]: "free_packets E ps s = Some s' \<Longrightarrow> refs s' = refs s \<and> ncbs s' = ncbs s"
proof (induction ps arbitrary: s)
  case (Cons p ps)
  from Cons.prems show ?case by (auto simp: run_iff dest!: bal Cons.IH)
qed simp

lemma bal_udp_allocate_recv_array [bal]:
  "udp_allocate_recv_array E h m s = Some (x, s') \<Longrightarrow> refs s' = refs s \<and> ncbs s' = ncbs s"
  by (auto simp: udp_allocate_recv_array_def bind_eq_Some_conv dest!: bal split: prod.splits ptr.splits if_splits)

lemma bal_udp_post_recvs [bal]:
  "udp_post_recvs E ps s = Some s' \<Longrightarrow> hld_ok (ncbs s) \<longrightarrow> refs s' = refs s \<and> hld_ok (ncbs s')"
proof (induction ps arbitrary: s)
  case (Cons p ps)
  from Cons.prems show ?case by (auto simp: run_iff dest!: bal Cons.IH)
qed simp

lemma bal_udp_create [bal]:
  "udp_create E cb str po fl s = Some (h, s') \<Longrightarrow> fresh_ref E \<and> hld_ok (ncbs s) \<longrightarrow> refs s' = refs s \<and> hld_ok (ncbs s')"
  by (auto simp: udp_create_def run_iff simp del: mod_ncb_Some dest!: bal)

lemma bal_udp_tx_loop [bal]:
  assumes "udp_tx_loop E h data cb a off s = Some (r, s')"
  shows "refs s' = refs s \<and> ncbs s' = ncbs s"
proof -
  have "refs (snd (r, s')) = refs s \<and> ncbs (snd (r, s')) = ncbs s"
    using assms
    by (rule udp_tx_loop.raw_induct
        [where P = "\<lambda>E h data cb a off s x. refs (snd x) = refs s \<and> ncbs (snd x) = ncbs s", rotated])
      (fastforce simp: run_iff dest!: bal)
  then show ?thesis by simp
qed

lemma bal_udp_write [bal]:
  "udp_tx_single_packet E h d cb adr po s = Some (r, s') \<Longrightarrow> hld_ok (ncbs s) \<longrightarrow> refs s' = refs s \<and> hld_ok (ncbs s')"
  "udp_write E lnk origin cb str po f s = Some (r, s') \<Longrightarrow> hld_ok (ncbs s) \<longrightarrow> refs s' = refs s \<and> hld_ok (ncbs s')"
  by (auto simp: udp_tx_single_packet_def udp_write_def run_iff simp del: mod_ncb_Some dest!: bal)

lemma bal_udp_attr [bal]:
  "udp_getaddr E lnk a po s = Some (x, s') \<Longrightarrow> hld_ok (ncbs s) \<longrightarrow> refs s' = refs s \<and> hld_ok (ncbs s')"
  "udp_setopt E lnk l k v s = Some (r, s') \<Longrightarrow> hld_ok (ncbs s) \<longrightarrow> refs s' = refs s \<and> hld_ok (ncbs s')"
  "udp_getopt E lnk l k ov s = Some (y, s') \<Longrightarrow> hld_ok (ncbs s) \<longrightarrow> refs s' = refs s \<and> hld_ok (ncbs s')"
  by (auto simp: udp_getaddr_def udp_setopt_def udp_getopt_def run_iff simp del: mod_ncb_Some dest!: bal)

lemma bal_grp_fill [bal]: "grp_fill E g s = (x, s') \<Longrightarrow> refs s' = refs s \<and> ncbs s' = ncbs s"
proof (induction g arbitrary: x s)
  case (Cons e g)
  from Cons.prems show ?case by (cases e) (auto simp: Let_def if_Pair case_prod_Pair dest!: bal Cons.IH)
qed simp

lemma bal_grp_clear [bal]: "grp_clear g s = Some (x, s') \<Longrightarrow> refs s' = refs s \<and> ncbs s' = ncbs s"
proof (induction g arbitrary: x s)
  case (Cons e g)
  from Cons.prems show ?case by (cases e) (auto simp: run_iff dest!: bal Cons.IH)
qed simp

lemma bal_udp_grp [bal]:
  "udp_initialize_grp E lnk grp s = Some (x, s') \<Longrightarrow> hld_ok (ncbs s) \<longrightarrow> refs s' = refs s \<and> hld_ok (ncbs s')"
  "udp_release_grp grp s = Some (y, s') \<Longrightarrow> hld_ok (ncbs s) \<longrightarrow> refs s' = refs s \<and> hld_ok (ncbs s')"
  "udp_raise_grp E lnk str po s = Some (r, s') \<Longrightarrow> hld_ok (ncbs s) \<longrightarrow> refs s' = refs s \<and> hld_ok (ncbs s')"
  "udp_detach_grp E lnk s = Some s' \<Longrightarrow> hld_ok (ncbs s) \<longrightarrow> refs s' = refs s \<and> hld_ok (ncbs s')"
  "udp_write_grp E lnk grp s = Some (r, s') \<Longrightarrow> hld_ok (ncbs s) \<longrightarrow> refs s' = refs s \<and> hld_ok (ncbs s')"
  by (auto simp: udp_initialize_grp_def udp_release_grp_def udp_raise_grp_def udp_detach_grp_def udp_write_grp_def run_iff simp del: mod_ncb_Some dest!: bal)

lemma bal_set_mreq [bal]: "set_mreq b m i s = Some s' \<Longrightarrow> refs s' = refs s \<and> ncbs s' = ncbs s"
  by (auto simp: set_mreq_def split: option.splits obj.splits)

lemma bal_multicast [bal]:
  "join_body E h str s = Some (r, s') \<Longrightarrow> hld_ok (ncbs s) \<longrightarrow> refs s' = refs s \<and> hld_ok (ncbs s')"
  "udp_joingrp E lnk gr po s = Some (r, s') \<Longrightarrow> hld_ok (ncbs s) \<longrightarrow> refs s' = refs s \<and> hld_ok (ncbs s')"
  "drop_body E h s = Some (r, s') \<Longrightarrow> hld_ok (ncbs s) \<longrightarrow> refs s' = refs s \<and> hld_ok (ncbs s')"
  "udp_dropgrp E lnk s = Some (r, s') \<Longrightarrow> hld_ok (ncbs s) \<longrightarrow> refs s' = refs s \<and> hld_ok (ncbs s')"
  by (auto simp: join_body_def udp_joingrp_def drop_body_def udp_dropgrp_def run_iff simp del: mod_ncb_Some dest!: bal)

subsection \<open>Destruction and ARP\<close>

lemma bal_objreff [bal]:
  "objreff E h s = (ncb, s') \<Longrightarrow> ncbs s' = ncbs s \<and> (case ncb of None \<Rightarrow> refs s' = refs s
     | Some g \<Rightarrow> g = h \<and> refs s' = (refs s)(h := refs s h + 1))"
  by (auto simp: objref_def refs_def fun_eq_iff split: if_splits)

lemma bal_destroy [bal]:
  "tcp_destroy E lnk s = Some s' \<Longrightarrow> hld_ok (ncbs s) \<longrightarrow> refs s' = refs s \<and> hld_ok (ncbs s')"
  "udp_destroy E lnk s = Some s' \<Longrightarrow> hld_ok (ncbs s) \<longrightarrow> refs s' = refs s \<and> hld_ok (ncbs s')"
  "arp_destroy E lnk s = Some s' \<Longrightarrow> hld_ok (ncbs s) \<longrightarrow> refs s' = refs s \<and> hld_ok (ncbs s')"
  by (auto simp: tcp_destroy_def udp_destroy_def arp_destroy_def run_iff simp del: mod_ncb_Some dest!: bal)

lemma bal_get_eth_MAC [bal]: "get_eth_MAC E as str mac s = (x, s') \<Longrightarrow> refs s' = refs s \<and> ncbs s' = ncbs s"
  by (auto simp: get_eth_MAC_def Let_def case_prod_Pair dest!: bal)

lemma bal_arp_create [bal]:
  assumes "arp_create E as cb source s = Some (h, s')"
  shows "fresh_ref E \<and> hld_ok (ncbs s) \<longrightarrow> refs s' = refs s \<and> hld_ok (ncbs s')"
proof (intro impI)
  assume f: "fresh_ref E \<and> hld_ok (ncbs s)"
  obtain fd s0 where fd: "so_create E SOCK_RAW IPPROTO_IP s = (fd, s0)" by fastforce
  then have s0: "refs s0 = refs s \<and> ncbs s0 = ncbs s" by (rule bal_so)
  obtain g s1 where o: "objallo E Arp_unload s0 = (g, s1)" by fastforce
  note a = objallo_bal [OF o]
  show "refs s' = refs s \<and> hld_ok (ncbs s')"
  proof (cases "g < 0")
    case True
    with assms a f fd o s0 show ?thesis by (auto simp: arp_create_def)
  next
    case False
    with a f s0 obtain s2 where r: "objrefr E g s1 = (Some g, s2)" by fastforce
    note r' = objrefr_Some [OF r]
    have h: "hld_ok ((ncbs s2)(g := None))" using a f r' s0 by simp
    from assms fd o False r obtain s3 s4 where
      i: "ncb_init (Some g) kProto_IP s2 = Some s3"
      "mod_ncb g (\<lambda>n. n\<lparr>nis_callback := cb, sockfd := fd, hld := g\<rparr>) s3 = Some s4"
      by (auto simp: arp_create_def bind_eq_Some_conv)
    have j: "refs s4 = refs s2 \<and> hld_ok (ncbs s4)" by (rule bal_init_hld [OF i h]) simp
    have "refs s' = (refs s4)(g := refs s4 g - 1) \<and> hld_ok (ncbs s')"
      using assms fd o False r i j
      by (auto simp: arp_create_def run_iff simp del: mod_ncb_Some dest!: bal)
    with j r' a s0 show ?thesis by auto
  qed
qed

lemma bal_massert [bal]: "massert b = Some u \<Longrightarrow> b"
  by simp

lemma bal_arp_request [bal]:
  "arp_nrequest E m e lnk a s = Some (r, s') \<Longrightarrow> hld_ok (ncbs s) \<longrightarrow> refs s' = refs s \<and> hld_ok (ncbs s')"
  "arp_request E m e lnk str s = Some (r, s') \<Longrightarrow> hld_ok (ncbs s) \<longrightarrow> refs s' = refs s \<and> hld_ok (ncbs s')"
  by (auto simp: arp_nrequest_def arp_request_def run_iff simp del: mod_ncb_Some dest!: bal)

subsection \<open>Contexts, masks, control\<close>

lemma bal_setctx [bal]:
  "setctx_body E h c z s = Some (r, s') \<Longrightarrow> hld_ok (ncbs s) \<longrightarrow> refs s' = refs s \<and> hld_ok (ncbs s')"
  "nis_setctx E lnk c z s = Some (r, s') \<Longrightarrow> hld_ok (ncbs s) \<longrightarrow> refs s' = refs s \<and> hld_ok (ncbs s')"
  by (auto simp: setctx_body_def nis_setctx_def run_iff simp del: mod_ncb_Some dest!: bal)

lemma bal_ctx [bal]:
  "nis_getctx E lnk c z s = Some (x, s') \<Longrightarrow> hld_ok (ncbs s) \<longrightarrow> refs s' = refs s \<and> hld_ok (ncbs s')"
  "nis_refctx E lnk z s = Some (y, s') \<Longrightarrow> hld_ok (ncbs s) \<longrightarrow> refs s' = refs s \<and> hld_ok (ncbs s')"
  "nis_ctxsize E lnk s = Some (r, s') \<Longrightarrow> hld_ok (ncbs s) \<longrightarrow> refs s' = refs s \<and> hld_ok (ncbs s')"
  by (auto simp: nis_getctx_def nis_refctx_def nis_ctxsize_def run_iff simp del: mod_ncb_Some dest!: bal)

lemma bal_mask [bal]:
  "nis_setmask E lnk msk s = Some (r, s') \<Longrightarrow> hld_ok (ncbs s) \<longrightarrow> refs s' = refs s \<and> hld_ok (ncbs s')"
  "nis_getmask E lnk omsk s = Some (x, s') \<Longrightarrow> hld_ok (ncbs s) \<longrightarrow> refs s' = refs s \<and> hld_ok (ncbs s')"
  by (auto simp: nis_setmask_def nis_getmask_def run_iff simp del: mod_ncb_Some dest!: bal)

lemma case_arg_Some:
  "(case x of A_none \<Rightarrow> a | A_int v \<Rightarrow> b v | A_ptr c \<Rightarrow> d c | A_out old \<Rightarrow> f old | A_tst t \<Rightarrow> g t) = Some y
     \<longleftrightarrow> x = A_none \<and> a = Some y \<or> (\<exists>v. x = A_int v \<and> b v = Some y) \<or> (\<exists>c. x = A_ptr c \<and> d c = Some y)
       \<or> (\<exists>old. x = A_out old \<and> f old = Some y) \<or> (\<exists>t. x = A_tst t \<and> g t = Some y)"
  by (cases x) auto

definition cntl_commands :: "nisdef \<Rightarrow> int set" where
  "cntl_commands N = {NI_SETATTR N, NI_GETATTR N, NI_SETCTX N, NI_GETCTX N, NI_SETTST N, NI_GETTST N}"

lemma bal_nis_cntl [bal]:
  "nis_cntl E stack lnk cmd arg s = Some (x, s') \<Longrightarrow> hld_ok (ncbs s) \<longrightarrow> hld_ok (ncbs s')
     \<and> refs s' = (if cmd \<in> cntl_commands (e_nis E) \<or> fst x = - ENOENT then refs s
        else (refs s)(lnk := refs s lnk + 1))"
  by (cases "cmd \<in> cntl_commands (e_nis E)")
    (auto simp: nis_cntl_def cntl_commands_def run_iff case_arg_Some simp del: mod_ncb_Some dest!: bal)

subsection \<open>Start, stop and dispatch\<close>

lemma refs_objinit [simp]:
  "refs (record_call C_objinit r s) = refs s" "refs (record_call C_objuninit r s) = refs s"
  by (simp_all add: refs_record_call)

lemma refs_globals [simp]:
  "refs (s\<lparr>so_startup := i\<rparr>) = refs s" "refs (s\<lparr>so_protocol_initialized := bs\<rparr>) = refs s"
  "refs (s\<lparr>io_inited := j\<rparr>) = refs s" "refs (s\<lparr>epos := e\<rparr>) = refs s"
  "refs (s\<lparr>divisions := d\<rparr>) = refs s" "refs (s\<lparr>current_ecr := f\<rparr>) = refs s"
  by (simp_all add: refs_def)

lemma ioinit_loop_frame:
  "ioinit_loop E i m s = (es, s') \<Longrightarrow> refs s' = refs s \<and> ncbs s' = ncbs s"
proof (induction m arbitrary: i s es)
  case (Suc m)
  from Suc.prems show ?case
    by (auto simp: ioinit_one_def Let_def case_prod_Pair dest!: bal Suc.IH)
qed simp

lemma bal_ioinit [bal]: "ioinit E s = (r, s') \<Longrightarrow> refs s' = refs s \<and> ncbs s' = ncbs s"
  by (auto simp: ioinit_def ioinit_body_def Let_def case_prod_Pair if_Pair dest!: bal ioinit_loop_frame
      split: if_splits)

lemma iouninit_one_frame:
  "iouninit_one E e s = (e', s') \<Longrightarrow> refs s' = refs s \<and> ncbs s' = ncbs s"
  by (auto simp: iouninit_one_def Let_def case_prod_Pair if_Pair dest!: bal)

lemma iouninit_loop_frame: "refs (iouninit_loop E es s) = refs s \<and> ncbs (iouninit_loop E es s) = ncbs s"
proof (induction es arbitrary: s)
  case (Cons e es)
  obtain e' s1 where o: "iouninit_one E e s = (e', s1)" by fastforce
  from iouninit_one_frame [OF o] Cons.IH [of s1] o show ?case by simp
qed simp

lemma iouninit_frame: "refs (iouninit E s) = refs s \<and> ncbs (iouninit E s) = ncbs s"
  using iouninit_loop_frame by (auto simp: iouninit_def sysc_def Let_def split: option.splits)

lemma bal_so_init [bal]: "so_init E proto th s = (r, s') \<Longrightarrow> refs s' = refs s \<and> ncbs s' = ncbs s"
proof -
  assume i: "so_init E proto th s = (r, s')"
  have u: "refs (startup_add d x) = refs x \<and> ncbs (startup_add d x) = ncbs x" for d x
    by (simp add: startup_add_def)
  have v: "refs (set_initialized q b x) = refs x \<and> ncbs (set_initialized q b x) = ncbs x" for q b x
    by (simp add: set_initialized_def)
  have w: "sysc E C_objinit x = (a, y) \<Longrightarrow> refs y = refs x \<and> ncbs y = ncbs x" for a x y
    by (auto simp: sysc_def Let_def)
  obtain a s1 where o1: "sysc E C_WSAStartup (startup_add 1 s) = (a, s1)" by fastforce
  obtain b s2 where o2: "ioinit E s1 = (b, s2)" by fastforce
  have "refs s1 = refs s \<and> ncbs s1 = ncbs s" using o1 u by (auto dest!: bal)
  moreover have "refs s2 = refs s1 \<and> ncbs s2 = ncbs s1" using o2 by (auto dest!: bal)
  ultimately show ?thesis using i o1 o2 u v
    by (simp add: so_init_def Let_def sysc_def split: if_splits; auto)
qed

lemma bal_host [bal]:
  "nis_checr ecr s = (old, s') \<Longrightarrow> refs s' = refs s \<and> ncbs s' = ncbs s"
  "nis_call_ecr n str s = Some s' \<Longrightarrow> refs s' = refs s \<and> ncbs s' = ncbs s"
  "nis_lgethost E nm cb s = (b, s') \<Longrightarrow> refs s' = refs s \<and> ncbs s' = ncbs s"
  "nis_gethost E host io s = (r, s') \<Longrightarrow> refs s' = refs s \<and> ncbs s' = ncbs s"
  by (auto simp: nis_checr_def nis_call_ecr_def nis_lgethost_def nis_gethost_def massert_def run_iff emit_def refs_def
      split: if_splits prod.splits option.splits dest!: bal)

lemma bal_adapters_loop [bal]:
  "adapters_loop E i r len p s = Some (x, s') \<Longrightarrow> refs s' = refs s \<and> ncbs s' = ncbs s"
proof (induction i arbitrary: r len p s)
  case (Suc i)
  then show ?case by (fastforce simp: run_iff dest!: bal)
qed simp

lemma case_sum_Some:
  "(case a of Inl x \<Rightarrow> f x | Inr y \<Rightarrow> g y) = Some r \<longleftrightarrow> (\<exists>x. a = Inl x \<and> f x = Some r) \<or> (\<exists>y. a = Inr y \<and> g y = Some r)"
  by (cases a) auto

lemma bal_nis_getifmisc [bal]:
  "nis_getifmisc E mk cbm isz as ifv cbifv s = Some (x, s') \<Longrightarrow> refs s' = refs s \<and> ncbs s' = ncbs s"
  by (auto simp: nis_getifmisc_def run_iff case_sum_Some dest!: bal)

lemma so_uninit_frame: "refs (so_uninit E proto s) = refs s \<and> ncbs (so_uninit E proto s) = ncbs s"
  using iouninit_frame by (simp add: so_uninit_def Let_def set_initialized_def sysc_def)

text \<open>A completion of any protocol but the pipe keeps the counts; a pipe event does not
  release the reference it takes.\<close>

lemma case_proto_Some:
  "(case x of kProto_Unknown \<Rightarrow> a | kProto_IP \<Rightarrow> b | kProto_UDP \<Rightarrow> c | kProto_TCP \<Rightarrow> d | kProto_PIPE \<Rightarrow> e) = Some y
     \<longleftrightarrow> x = kProto_Unknown \<and> a = Some y \<or> x = kProto_IP \<and> b = Some y \<or> x = kProto_UDP \<and> c = Some y
       \<or> x = kProto_TCP \<and> d = Some y \<or> x = kProto_PIPE \<and> e = Some y"
  by (cases x) auto

lemma bal_so_dispatch:
  assumes "so_dispatch_io_event E (Some p) m status s = Some s'" "get_pkt p s = Some k" "pkt_proto k \<noteq> kProto_PIPE"
    and "fresh_ref E" "hld_ok (ncbs s)"
  shows "refs s' = refs s \<and> hld_ok (ncbs s')"
  using assms
  by (auto simp: so_dispatch_io_event_def run_iff case_proto_Some dest!: bal)

lemma pipe_event_refs:
  assumes "so_dispatch_pipe_event E p status s = Some s'" "get_pkt p s = Some k"
  shows "ncbs s' = ncbs s \<and> (refs s' = refs s \<or> refs s' = (refs s)(link k := refs s (link k) + 1))"
  using assms
  by (auto simp: so_dispatch_pipe_event_def run_iff dest!: bal split: option.splits)

lemma awaken_refs:
  assumes "tcp_awaken E lnk d cb s = Some (r, s')"
  shows "ncbs s' = ncbs s \<and> refs s' = (if r = - ENOENT then refs s else (refs s)(lnk := refs s lnk + 1))"
  using assms
  by (auto simp: tcp_awaken_def run_iff dest!: bal split: option.splits)

end
