(* ===== verification/Framing.thy ===== *)
theory Framing
  imports Prelude
begin

text \<open>
  The abstract protocol of a TCP link with a template: the byte stream is a sequence of
  frames, each a header of \<open>cb\<close> bytes from which the parser \<open>hp\<close> reads the user size,
  followed by that many bytes. \<open>deframe\<close> says which frames a stretch of the stream
  contains, what is left over, and whether the stream is still well formed. The receiving
  code is proved to compute it, however the stream is cut into receive completions.
\<close>

subsection \<open>Stream decoders\<close>

text \<open>
  A decoder turns the bytes collected so far into finished outputs and a rest. Its laws
  say that decoding can be resumed: what was decoded stays decoded.
\<close>

locale stream_decoder =
  fixes decode :: "'b list \<Rightarrow> 'o list \<times> 'b list \<times> bool"
  assumes decode_Nil: "decode [] = ([], [], True)"
    and decode_resume: "decode xs = (fs, ys, True) \<Longrightarrow> decode (xs @ zs) =
          (case decode (ys @ zs) of (gs, ws, ok) \<Rightarrow> (fs @ gs, ws, ok))"
    and decode_failed: "decode xs = (fs, ys, False) \<Longrightarrow>
          \<exists>ws. decode (xs @ zs) = (fs, ws, False)"
begin

text \<open>Feeding the chunks one by one, each with what the ones before it left over.\<close>

fun feed :: "'b list \<Rightarrow> 'b list list \<Rightarrow> 'o list \<times> 'b list \<times> bool" where
  "feed rest [] = ([], rest, True)"
| "feed rest (c # cs) = (case decode (rest @ c) of
     (fs, ys, ok) \<Rightarrow> if ok then (case feed ys cs of (gs, ws, ok') \<Rightarrow> (fs @ gs, ws, ok'))
       else (fs, ys, False))"

lemma decode_rest:
  assumes "decode xs = (fs, ys, True)"
  shows "decode ys = ([], ys, True)"
proof -
  obtain gs ws ok where d: "decode ys = (gs, ws, ok)" by (cases "decode ys") auto
  from decode_resume [OF assms, of "[]"] d assms show ?thesis by simp
qed

lemma feed_decode:
  assumes "decode rest = ([], rest, True)"
  shows "fst (feed rest cs) = fst (decode (rest @ concat cs))
    \<and> snd (snd (feed rest cs)) = snd (snd (decode (rest @ concat cs)))
    \<and> (snd (snd (feed rest cs)) \<longrightarrow> feed rest cs = decode (rest @ concat cs))"
  using assms
proof (induction cs arbitrary: rest)
  case Nil
  then show ?case by simp
next
  case (Cons c cs)
  obtain fs ys ok where d: "decode (rest @ c) = (fs, ys, ok)" by (cases "decode (rest @ c)") auto
  show ?case
  proof (cases ok)
    case True
    with d have d': "decode (rest @ c) = (fs, ys, True)" by simp
    from Cons.IH [OF decode_rest [OF d']] decode_resume [OF d', of "concat cs"] d'
    show ?thesis by (auto split: prod.splits)
  next
    case False
    with d have d': "decode (rest @ c) = (fs, ys, False)" by simp
    from decode_failed [OF d', of "concat cs"] d' show ?thesis by auto
  qed
qed

text \<open>How the stream is cut does not matter.\<close>

lemma feed_chunking:
  assumes "concat cs = concat cs'"
  shows "fst (feed [] cs) = fst (feed [] cs')"
    and "snd (snd (feed [] cs)) = snd (snd (feed [] cs'))"
  by (simp_all only: feed_decode [OF decode_Nil, THEN conjunct1]
        feed_decode [OF decode_Nil, THEN conjunct2, THEN conjunct1] assms)

end

subsection \<open>Frames\<close>

text \<open>\<open>mx\<close> is the largest user size the receiver accepts.\<close>

function deframe :: "nat \<Rightarrow> int \<Rightarrow> (byte list \<Rightarrow> int \<times> int) \<Rightarrow> byte list
    \<Rightarrow> byte list list \<times> byte list \<times> bool" where
  "deframe cb mx hp xs =
     (if cb = 0 \<or> length xs < cb then ([], xs, True)
      else let (r, n) = hp (take cb xs) in
        if r < 0 \<or> n > mx \<or> n < 0 then ([], xs, False)
        else if length xs < nat n + cb then ([], xs, True)
        else let (fs, ys, ok) = deframe cb mx hp (drop (nat n + cb) xs) in
          (take (nat n + cb) xs # fs, ys, ok))"
  by pat_completeness auto
termination
  by (relation "measure (\<lambda>(cb, mx, hp, xs). length xs)") simp_all

declare deframe.simps [simp del]

lemma deframe_Nil [simp]: "deframe cb mx hp [] = ([], [], True)"
  by (cases "cb = 0") (simp_all add: deframe.simps)

lemma deframe_short: "length xs < cb \<Longrightarrow> deframe cb mx hp xs = ([], xs, True)"
  by (subst deframe.simps) simp

lemma deframe_stuck: "cb = 0 \<or> length xs < cb \<Longrightarrow> deframe cb mx hp xs = ([], xs, True)"
  by (subst deframe.simps) simp

lemma deframe_bad:
  "0 < cb \<Longrightarrow> cb \<le> length xs \<Longrightarrow> hp (take cb xs) = (r, n) \<Longrightarrow> r < 0 \<or> n > mx \<or> n < 0 \<Longrightarrow>
   deframe cb mx hp xs = ([], xs, False)"
  by (auto simp: deframe.simps)

lemma deframe_incomplete:
  "0 < cb \<Longrightarrow> cb \<le> length xs \<Longrightarrow> hp (take cb xs) = (r, n) \<Longrightarrow> 0 \<le> r \<Longrightarrow> 0 \<le> n \<Longrightarrow> n \<le> mx \<Longrightarrow>
   length xs < nat n + cb \<Longrightarrow> deframe cb mx hp xs = ([], xs, True)"
  by (auto simp: deframe.simps)

lemma deframe_Cons:
  "0 < cb \<Longrightarrow> cb \<le> length xs \<Longrightarrow> hp (take cb xs) = (r, n) \<Longrightarrow> 0 \<le> r \<Longrightarrow> 0 \<le> n \<Longrightarrow> n \<le> mx \<Longrightarrow>
   nat n + cb \<le> length xs \<Longrightarrow> deframe cb mx hp (drop (nat n + cb) xs) = (fs, ys, ok) \<Longrightarrow>
   deframe cb mx hp xs = (take (nat n + cb) xs # fs, ys, ok)"
  by (subst deframe.simps) auto

lemma deframe_resume:
  assumes "deframe cb mx hp xs = (fs, ys, True)"
  shows "deframe cb mx hp (xs @ zs) =
    (case deframe cb mx hp (ys @ zs) of (gs, ws, ok) \<Rightarrow> (fs @ gs, ws, ok))"
  using assms
proof (induction cb mx hp xs arbitrary: fs rule: deframe.induct)
  case (1 cb mx hp xs)
  show ?case
  proof (cases "cb = 0 \<or> length xs < cb")
    case True
    with "1.prems" show ?thesis by (auto simp: deframe.simps [of cb mx hp xs] split: prod.splits)
  next
    case False
    obtain r n where hp: "hp (take cb xs) = (r, n)" by (cases "hp (take cb xs)") auto
    show ?thesis
    proof (cases "nat n + cb \<le> length xs \<and> 0 \<le> r \<and> 0 \<le> n \<and> n \<le> mx")
      case True
      obtain gs ws ok where d: "deframe cb mx hp (drop (nat n + cb) xs) = (gs, ws, ok)"
        by (metis prod_cases3)
      from "1.prems" False True hp d have fs: "fs = take (nat n + cb) xs # gs" "ws = ys" "ok"
        by (auto simp: deframe.simps [of cb mx hp xs])
      from "1.IH" [OF False hp [symmetric] refl, of gs] True d fs
      have IH: "deframe cb mx hp (drop (nat n + cb) xs @ zs) =
          (case deframe cb mx hp (ys @ zs) of (gs', ws, ok) \<Rightarrow> (gs @ gs', ws, ok))" by auto
      from True hp False fs IH show ?thesis
        by (auto simp: deframe.simps [of cb mx hp "xs @ zs"] split: prod.splits)
    next
      case small: False
      with "1.prems" False hp have "fs = []" "ys = xs"
        by (auto simp: deframe.simps [of cb mx hp xs] split: if_splits prod.splits)
      then show ?thesis by (auto split: prod.splits)
    qed
  qed
qed

lemma deframe_failed:
  assumes "deframe cb mx hp xs = (fs, ys, False)"
  shows "\<exists>ws. deframe cb mx hp (xs @ zs) = (fs, ws, False)"
  using assms
proof (induction cb mx hp xs arbitrary: fs rule: deframe.induct)
  case (1 cb mx hp xs)
  then have long: "\<not> (cb = 0 \<or> length xs < cb)" by (auto simp: deframe.simps [of cb mx hp xs] split: if_splits)
  obtain r n where hp: "hp (take cb xs) = (r, n)" by (cases "hp (take cb xs)") auto
  show ?case
  proof (cases "r < 0 \<or> n > mx \<or> n < 0")
    case True
    with "1.prems" long hp show ?thesis by (auto simp: deframe.simps)
  next
    case False
    obtain gs ws ok where d: "deframe cb mx hp (drop (nat n + cb) xs) = (gs, ws, ok)"
      by (metis prod_cases3)
    from "1.prems" long False hp d
    have fs: "fs = take (nat n + cb) xs # gs" "\<not> ok" "ws = ys" "nat n + cb \<le> length xs"
      by (auto simp: deframe.simps [of cb mx hp xs] split: if_splits)
    from "1.IH" [OF long hp [symmetric] refl, of gs] False d fs
    obtain ws' where "deframe cb mx hp (drop (nat n + cb) xs @ zs) = (gs, ws', False)" by auto
    with long hp False fs show ?thesis by (auto simp: deframe.simps [of cb mx hp "xs @ zs"])
  qed
qed

interpretation deframer: stream_decoder "deframe cb mx hp" for cb mx hp
  by unfold_locales (simp_all add: deframe_resume deframe_failed)

subsection \<open>The bytes are kept\<close>

lemma deframe_concat:
  "deframe cb mx hp xs = (fs, ys, ok) \<Longrightarrow> concat fs @ ys = xs"
proof (induction cb mx hp xs arbitrary: fs rule: deframe.induct)
  case (1 cb mx hp xs)
  then show ?case
    by (subst (asm) (2) deframe.simps)
      (auto simp: Let_def split: if_splits prod.splits)
qed

lemma deframe_frames_long:
  "deframe cb mx hp xs = (fs, ys, ok) \<Longrightarrow> f \<in> set fs \<Longrightarrow> cb \<le> length f"
proof (induction cb mx hp xs arbitrary: fs rule: deframe.induct)
  case (1 cb mx hp xs)
  then show ?case
    by (subst (asm) (2) deframe.simps)
      (auto simp: Let_def split: if_splits prod.splits)
qed

text \<open>A sequence of well-formed frames is taken apart into exactly these frames.\<close>

definition is_frame :: "nat \<Rightarrow> int \<Rightarrow> (byte list \<Rightarrow> int \<times> int) \<Rightarrow> byte list \<Rightarrow> bool" where
  "is_frame cb mx hp f \<longleftrightarrow> cb \<le> length f \<and>
     (case hp (take cb f) of (r, n) \<Rightarrow> 0 \<le> r \<and> 0 \<le> n \<and> n \<le> mx \<and> length f = nat n + cb)"

lemma deframe_frames:
  assumes "0 < cb" "\<forall>f \<in> set fs. is_frame cb mx hp f"
  shows "deframe cb mx hp (concat fs) = (fs, [], True)"
  using assms(2)
proof (induction fs)
  case Nil
  then show ?case by simp
next
  case (Cons f fs)
  obtain r n where hp: "hp (take cb f) = (r, n)" by (cases "hp (take cb f)") auto
  with Cons.prems have "cb \<le> length f" "0 \<le> r" "0 \<le> n" "n \<le> mx" "length f = nat n + cb"
    by (auto simp: is_frame_def)
  with Cons hp assms(1) show ?case
    by (subst deframe.simps) auto
qed

end
