(* ===== verification/Tcp_Recv_Correct.thy ===== *)
theory Tcp_Recv_Correct
  imports Tcp_Recv Framing
begin

text \<open>
  The parse loop of the receiving code against its specification: \<open>scan\<close>, which is
  \<open>deframe\<close> for the bytes of one receive buffer.
\<close>

subsection \<open>The parse loop and its specification\<close>

text \<open>
  \<open>scan\<close> takes frames off the front as the loop does: besides an incomplete and a
  malformed rest it stops at a frame too large for the receive buffer (size \<open>bf\<close>).
\<close>

datatype scan_stop = Incomplete | Large int | Bad

function scan :: "nat \<Rightarrow> int \<Rightarrow> int \<Rightarrow> (byte list \<Rightarrow> int \<times> int) \<Rightarrow> byte list
    \<Rightarrow> byte list list \<times> byte list \<times> scan_stop" where
  "scan cb mx bf hp xs =
     (if cb = 0 \<or> length xs < cb then ([], xs, Incomplete)
      else let (r, n) = hp (take cb xs) in
        if r < 0 \<or> n > mx \<or> n < 0 then ([], xs, Bad)
        else if n + int cb > bf then ([], xs, Large (n + int cb))
        else if length xs < nat n + cb then ([], xs, Incomplete)
        else let (fs, ys, st) = scan cb mx bf hp (drop (nat n + cb) xs) in
          (take (nat n + cb) xs # fs, ys, st))"
  by pat_completeness auto
termination
  by (relation "measure (\<lambda>(cb, mx, bf, hp, xs). length xs)") simp_all

declare scan.simps [simp del]

lemma scan_deframe:
  "int (length xs) \<le> bf \<Longrightarrow> scan cb mx bf hp xs = (fs, ys, st) \<Longrightarrow>
   deframe cb mx hp xs = (fs, ys, st \<noteq> Bad) \<and> length ys \<le> length xs"
proof (induction cb mx bf hp xs arbitrary: fs rule: scan.induct)
  case (1 cb mx bf hp xs)
  show ?case
  proof (cases "cb = 0 \<or> length xs < cb")
    case True
    with "1.prems" show ?thesis
      by (auto simp: scan.simps [of cb mx bf hp xs] deframe_stuck)
  next
    case False
    obtain r n where hp: "hp (take cb xs) = (r, n)" by (cases "hp (take cb xs)") auto
    show ?thesis
    proof (cases "0 \<le> r \<and> 0 \<le> n \<and> n \<le> mx \<and> n + int cb \<le> bf \<and> nat n + cb \<le> length xs")
      case True
      obtain gs ws st' where d: "scan cb mx bf hp (drop (nat n + cb) xs) = (gs, ws, st')"
        by (metis prod_cases3)
      from "1.prems" True False hp d have "fs = take (nat n + cb) xs # gs" "ws = ys" "st' = st"
        by (auto simp: scan.simps [of cb mx bf hp xs])
      moreover from "1.IH" [OF False hp [symmetric] refl, of gs] True d "1.prems" calculation
      have "deframe cb mx hp (drop (nat n + cb) xs) = (gs, ys, st \<noteq> Bad) \<and> length ys \<le> length xs"
        by auto
      ultimately show ?thesis using True False hp
        by (auto simp: deframe.simps [of cb mx hp xs])
    next
      case stop: False
      with "1.prems" False hp show ?thesis
        by (auto simp: scan.simps [of cb mx bf hp xs] deframe.simps [of cb mx hp xs]
            split: if_splits)
    qed
  qed
qed

text \<open>The event a frame gives rise to.\<close>

definition rx_event :: "env \<Rightarrow> ncb_t \<Rightarrow> byte list \<Rightarrow> event" where
  "rx_event E n f =
     (let cb = nat (tst_cb (tcp_tst n)) in
      if attr n AND LINKATTR_TCP_FULLY_RECEIVE (e_nis E) \<noteq> 0
         \<and> int (length f) \<le> TCP_RECV_BUFFER_SIZE
      then EvRecv (hld n) (int (length f)) f
      else EvRecv (hld n) (int (length f - cb)) (drop cb f))"

definition rx_events :: "env \<Rightarrow> ncb_t \<Rightarrow> byte list list \<Rightarrow> event list" where
  "rx_events E n fs = (if nis_callback n \<noteq> 0 then map (rx_event E n) fs else [])"

lemma rx_events_Nil [simp]: "rx_events E n [] = []"
  by (simp add: rx_events_def)

lemma rx_events_Cons: "rx_events E n (f # fs) = rx_events E n [f] @ rx_events E n fs"
  by (simp add: rx_events_def)

lemma rx_events_append: "rx_events E n (fs @ gs) = rx_events E n fs @ rx_events E n gs"
  by (simp add: rx_events_def)

lemma BUF_value: "TCP_RECV_BUFFER_SIZE = 69632"
  by (simp add: TCP_RECV_BUFFER_SIZE_def PAGE_SIZE_def)

lemma MAX_value: "TCP_MAXIMUM_PACKET_SIZE = 52428800"
  by (simp add: TCP_MAXIMUM_PACKET_SIZE_def)

lemma deliver_logic_packet_eq:
  assumes "ncbs s h = Some n" "ori_buffer k = Ptr b 0" "heap s b = Some (Bytes g buf)"
    and "tst_cb (tcp_tst n) = int cb" "off + (nat u + cb) \<le> length buf" "0 \<le> u"
    and "u + int cb \<le> TCP_RECV_BUFFER_SIZE"
  shows "deliver_logic_packet E h k n (int off) u s =
    Some (emits (rx_events E n [take (nat u + cb) (drop off buf)]) s)"
proof -
  let ?f = "take (nat u + cb) (drop off buf)"
  have len: "length ?f = nat u + cb" using assms by simp
  have whole: "load (padd (ori_buffer k) (int off)) (u + int cb) s = Some ?f"
    using assms by (simp add: load_bytes nat_add_distrib)
  have part: "load (padd (ori_buffer k) (int off + int cb)) u s = Some (drop cb ?f)"
    using assms by (simp add: load_bytes nat_add_distrib drop_take add.commute)
  show ?thesis
    using assms len whole part
    by (simp add: deliver_logic_packet_def ncb_post_recvdata_def rx_events_def rx_event_def
        emit_emits)
qed

lemma parse_loop_scan:
  assumes "scan cb TCP_MAXIMUM_PACKET_SIZE TCP_RECV_BUFFER_SIZE
             (e_parser E (parser (tcp_tst n))) xs = (fs, ys, st)"
    and "get_pkt p s = Some k" "ncbs s h = Some n" "ori_buffer k = Ptr b 0"
    and "heap s b = Some (Bytes g buf)" "tst_cb (tcp_tst n) = int cb" "0 < cb"
    and "int cb \<le> TCP_RECV_BUFFER_SIZE" "parser (tcp_tst n) \<noteq> 0"
    and "off + length xs \<le> length buf" "take (length xs) (drop off buf) = xs"
  shows "parse_loop E h p (int off) (int (length xs)) s =
    (let s' = emits (rx_events E n fs) s; off' = int off + int (length xs) - int (length ys) in
     case st of
       Incomplete \<Rightarrow> Some (Break off' (int (length ys)), s')
     | Bad \<Rightarrow> Some (Return (- 1), s')
     | Large t \<Rightarrow> do {
         (m, s1) \<leftarrow> ncb_mark_lb E (Some h) t (int (length ys)) (Ptr b off') s';
         if m < 0 then Some (Return (- 1), s1)
         else do {
           s2 \<leftarrow> mod_pkt p (\<lambda>k. k\<lparr>analyzed_offset := 0\<rparr>) s1;
           Some (Return 0, s2) } })"
  using assms
proof (induction "length xs" arbitrary: xs off s fs rule: less_induct)
  case less
  let ?hp = "e_parser E (parser (tcp_tst n))"
  show ?case
  proof (cases "length xs < cb")
    case True
    with less.prems have "fs = []" "ys = xs" "st = Incomplete"
      by (auto simp: scan.simps [of cb _ _ _ xs])
    with True less.prems show ?thesis
      by (subst parse_loop.simps) simp
  next
    case False
    obtain r u where hp: "?hp (take cb xs) = (r, u)" by (cases "?hp (take cb xs)") auto
    have hdr: "load (padd (ori_buffer k) (int off)) (int cb) s = Some (take cb xs)"
      using less.prems False by (simp add: load_bytes) (metis min.absorb1 not_less take_take)
    note start = less.prems False hp hdr
    show ?thesis
    proof (cases "r < 0 \<or> u > TCP_MAXIMUM_PACKET_SIZE \<or> u < 0")
      case True
      with start have "fs = []" "ys = xs" "st = Bad"
        by (auto simp: scan.simps [of cb _ _ _ xs])
      with True start show ?thesis
        by (subst parse_loop.simps) auto
    next
      case ok: False
      have i32: "int32 (u + int cb) = Some (u + int cb)"
        using ok less.prems by (simp add: BUF_value MAX_value)
      show ?thesis
      proof (cases "u + int cb > TCP_RECV_BUFFER_SIZE")
        case True
        with start ok have "fs = []" "ys = xs" "st = Large (u + int cb)"
          by (auto simp: scan.simps [of cb _ _ _ xs])
        with True start ok i32 show ?thesis
          by (subst parse_loop.simps) simp
      next
        case small: False
        show ?thesis
        proof (cases "length xs < nat u + cb")
          case True
          with start ok small have "fs = []" "ys = xs" "st = Incomplete"
            by (auto simp: scan.simps [of cb _ _ _ xs])
          moreover from True ok have "int (length xs) < u + int cb" by linarith
          ultimately show ?thesis using True start ok small i32
            by (subst parse_loop.simps) simp
        next
          case False
          let ?t = "nat u + cb"
          let ?s1 = "emits (rx_events E n [take ?t xs]) s"
          obtain gs ws st' where d: "scan cb TCP_MAXIMUM_PACKET_SIZE TCP_RECV_BUFFER_SIZE ?hp
              (drop ?t xs) = (gs, ws, st')" by (metis prod_cases3)
          from start ok small False d have eqs: "fs = take ?t xs # gs" "ws = ys" "st' = st"
            by (auto simp: scan.simps [of cb _ _ _ xs])
          from less.prems(11) False have front: "take ?t (drop off buf) = take ?t xs"
            by (metis not_less take_take min.absorb1)
          have del: "deliver_logic_packet E h k n (int off) u s = Some ?s1"
            using deliver_logic_packet_eq [of s h n k b g buf cb off u E] less.prems ok small False
            by (simp add: front)
          from less.prems(11) have rest:
            "take (length (drop ?t xs)) (drop (off + ?t) buf) = drop ?t xs"
            by (metis drop_drop drop_take length_drop add.commute)
          have step: "parse_loop E h p (int off) (int (length xs)) s =
              parse_loop E h p (int (off + ?t)) (int (length (drop ?t xs))) ?s1"
          proof -
            have e1: "int off + (u + int cb) = int (off + ?t)"
              and e2: "int (length xs) - (u + int cb) = int (length (drop ?t xs))"
              and nlt: "\<not> int (length xs) < u + int cb" "\<not> int (length xs) < int cb"
              using ok False by simp_all
            show ?thesis
              by (subst parse_loop.simps)
                (use ok small i32 del hdr hp nlt less.prems(2,3,6,9) in
                  \<open>simp add: e1 e2 Let_def del: of_nat_add length_drop\<close>)
          qed
          have IH: "parse_loop E h p (int (off + ?t)) (int (length (drop ?t xs))) ?s1 =
              (let s' = emits (rx_events E n gs) ?s1;
                   off' = int (off + ?t) + int (length (drop ?t xs)) - int (length ys) in
               case st of
                 Incomplete \<Rightarrow> Some (Break off' (int (length ys)), s')
               | Bad \<Rightarrow> Some (Return (- 1), s')
               | Large t \<Rightarrow> do {
                   (m, s1) \<leftarrow> ncb_mark_lb E (Some h) t (int (length ys)) (Ptr b off') s';
                   if m < 0 then Some (Return (- 1), s1)
                   else do {
                     s2 \<leftarrow> mod_pkt p (\<lambda>k. k\<lparr>analyzed_offset := 0\<rparr>) s1;
                     Some (Return 0, s2) } })"
          proof (rule less.hyps)
            show "length (drop ?t xs) < length xs" using less.prems(7) False by simp
            show "scan cb TCP_MAXIMUM_PACKET_SIZE TCP_RECV_BUFFER_SIZE ?hp (drop ?t xs)
                = (gs, ys, st)" using d eqs by simp
            show "off + ?t + length (drop ?t xs) \<le> length buf" using less.prems False by simp
          qed (use less.prems rest in simp_all)
          have sum: "int (off + ?t) + int (length (drop ?t xs)) = int off + int (length xs)"
            using False by simp
          show ?thesis
            unfolding step IH eqs(1) rx_events_Cons [of E n "take ?t xs" gs]
            by (simp only: emits_emits sum)
        qed
      qed
    qed
  qed
qed


subsection \<open>What the loop leaves over\<close>

lemma scan_step:
  assumes "scan cb mx bf hp xs = (fs, ys, st)" "\<not> (cb = 0 \<or> length xs < cb)"
    and "hp (take cb xs) = (r, n)" "0 \<le> r" "0 \<le> n" "n \<le> mx" "n + int cb \<le> bf" "nat n + cb \<le> length xs"
  obtains gs where "scan cb mx bf hp (drop (nat n + cb) xs) = (gs, ys, st)"
    and "fs = take (nat n + cb) xs # gs"
  using assms by (cases "scan cb mx bf hp (drop (nat n + cb) xs)")
    (auto simp: scan.simps [of cb mx bf hp xs])

lemma scan_stop_cases:
  assumes "scan cb mx bf hp xs = (fs, ys, st)" "0 < cb"
  shows "case st of
     Incomplete \<Rightarrow> length ys < cb \<or> (\<exists>r n. cb \<le> length ys \<and> hp (take cb ys) = (r, n) \<and> 0 \<le> r \<and> 0 \<le> n
         \<and> n \<le> mx \<and> n + int cb \<le> bf \<and> length ys < nat n + cb)
   | Large t \<Rightarrow> (\<exists>r n. cb \<le> length ys \<and> hp (take cb ys) = (r, n) \<and> 0 \<le> r \<and> 0 \<le> n
         \<and> n \<le> mx \<and> t = n + int cb \<and> t > bf)
   | Bad \<Rightarrow> True"
  using assms
proof (induction cb mx bf hp xs arbitrary: fs rule: scan.induct)
  case (1 cb mx bf hp xs)
  show ?case
  proof (cases "length xs < cb")
    case True
    with "1.prems" show ?thesis by (auto simp: scan.simps [of cb mx bf hp xs])
  next
    case False
    then have long: "\<not> (cb = 0 \<or> length xs < cb)" using "1.prems" by simp
    obtain r n where hp: "hp (take cb xs) = (r, n)" by (cases "hp (take cb xs)") auto
    show ?thesis
    proof (cases "0 \<le> r \<and> 0 \<le> n \<and> n \<le> mx \<and> n + int cb \<le> bf \<and> nat n + cb \<le> length xs")
      case True
      from True scan_step [OF "1.prems"(1) long hp]
      obtain gs where "scan cb mx bf hp (drop (nat n + cb) xs) = (gs, ys, st)" by metis
      with "1.IH" [OF long hp [symmetric] refl] True "1.prems"(2) show ?thesis by auto
    next
      case stop: False
      with "1.prems" long hp show ?thesis
        by (auto simp: scan.simps [of cb mx bf hp xs] split: if_splits)
    qed
  qed
qed

lemma scan_self:
  assumes "scan cb mx bf hp xs = (fs, ys, Incomplete)" "0 < cb"
  shows "scan cb mx bf hp ys = ([], ys, Incomplete)"
  using scan_stop_cases [OF assms]
  by (auto simp: scan.simps [of cb mx bf hp ys])

lemma scan_rest_fits:
  assumes "scan cb mx bf hp xs = (fs, ys, Incomplete)" "0 < cb" "int cb \<le> bf"
  shows "int (length ys) < bf"
  using scan_stop_cases [OF assms(1,2)] assms(3) by auto

lemma scan_suffix:
  assumes "scan cb mx bf hp xs = (fs, ys, st)" "int (length xs) \<le> bf"
  shows "xs = concat fs @ ys"
  using deframe_concat [of cb mx hp xs fs ys "st \<noteq> Bad"] scan_deframe [OF assms(2,1)] by simp

end
