(* ===== verification/Tcp_Recv_Inv.thy ===== *)
theory Tcp_Recv_Inv
  imports Tcp_Recv_Correct
begin

text \<open>
  The receiving code computes the frames of the stream: \<open>rx_inv\<close> relates the state of a
  link between two completions to the bytes of the stream that are still undelivered,
  and a completion delivers what \<open>deframe\<close> finds in these bytes followed by the new ones.
\<close>

subsection \<open>The state of a link between two completions\<close>

text \<open>The parts of a control block that the receiving side reads and never writes.\<close>

definition same_link :: "ncb_t \<Rightarrow> ncb_t \<Rightarrow> bool" where
  "same_link n m \<longleftrightarrow> hld n = hld m \<and> proto_type n = proto_type m \<and> nis_callback n = nis_callback m
     \<and> attr n = attr m \<and> tcp_tst n = tcp_tst m \<and> sockfd n = sockfd m"

lemma same_link_refl [simp]: "same_link n n"
  by (simp add: same_link_def)

lemma same_link_trans: "same_link a b \<Longrightarrow> same_link b c \<Longrightarrow> same_link a c"
  by (simp add: same_link_def)

lemma rx_events_same: "same_link n m \<Longrightarrow> rx_events E n fs = rx_events E m fs"
  by (simp add: same_link_def rx_events_def rx_event_def Let_def)

text \<open>The receive packet \<open>p\<close>, its buffer \<open>b\<close> and the control block of the link \<open>h\<close>.\<close>

definition rx_link :: "nat \<Rightarrow> handle \<Rightarrow> nat \<Rightarrow> packet_t \<Rightarrow> ncb_t \<Rightarrow> nat \<Rightarrow> byte list \<Rightarrow> st \<Rightarrow> bool" where
  "rx_link cb h p k n b buf s \<longleftrightarrow>
     get_pkt p s = Some k \<and> ncbs s h = Some n \<and> link k = h \<and> pkt_page_style k = kVirtualHeap \<and> 0 \<le> h \<and> hld n = h
     \<and> proto_type n = kProto_TCP \<and> ori_buffer k = Ptr b 0 \<and> heap s b = Some (Bytes Crt buf)
     \<and> int (length buf) = TCP_RECV_BUFFER_SIZE \<and> tst_cb (tcp_tst n) = int cb \<and> 0 < cb
     \<and> int cb \<le> TCP_RECV_BUFFER_SIZE \<and> parser (tcp_tst n) \<noteq> 0 \<and> wf_heap s"

abbreviation rx_parser :: "env \<Rightarrow> ncb_t \<Rightarrow> byte list \<Rightarrow> int \<times> int" where
  "rx_parser E n \<equiv> e_parser E (parser (tcp_tst n))"

abbreviation rx_scan :: "env \<Rightarrow> nat \<Rightarrow> ncb_t \<Rightarrow> byte list \<Rightarrow> byte list list \<times> byte list \<times> scan_stop" where
  "rx_scan E cb n \<equiv> scan cb TCP_MAXIMUM_PACKET_SIZE TCP_RECV_BUFFER_SIZE (rx_parser E n)"

text \<open>The undelivered bytes are at the front of the receive buffer ...\<close>

definition rx_small :: "env \<Rightarrow> nat \<Rightarrow> packet_t \<Rightarrow> ncb_t \<Rightarrow> nat \<Rightarrow> byte list \<Rightarrow> byte list \<Rightarrow> bool" where
  "rx_small E cb k n b buf carry \<longleftrightarrow>
     lb_data n = Null \<and> analyzed_offset k = int (length carry)
     \<and> take (length carry) buf = carry \<and> irp k = Ptr b (int (length carry))
     \<and> size_for_req k = TCP_RECV_BUFFER_SIZE - int (length carry)
     \<and> rx_scan E cb n carry = ([], carry, Incomplete)"

text \<open>... or, for the start of a large packet, in the large-block buffer \<open>l\<close>.\<close>

definition rx_large :: "env \<Rightarrow> nat \<Rightarrow> packet_t \<Rightarrow> ncb_t \<Rightarrow> nat \<Rightarrow> byte list \<Rightarrow> st \<Rightarrow> bool" where
  "rx_large E cb k n b carry s \<longleftrightarrow>
     analyzed_offset k = 0 \<and> irp k = Ptr b 0 \<and> size_for_req k = TCP_RECV_BUFFER_SIZE
     \<and> (\<exists>l ld r u. lb_data n = Ptr l 0 \<and> l \<noteq> b \<and> heap s l = Some (Bytes Crt ld)
          \<and> lb_length n = int (length ld) \<and> lb_cpy_offset n = int (length carry)
          \<and> take (length carry) ld = carry \<and> cb \<le> length carry \<and> length carry < length ld
          \<and> rx_parser E n (take cb carry) = (r, u) \<and> 0 \<le> r \<and> 0 \<le> u \<and> u \<le> TCP_MAXIMUM_PACKET_SIZE
          \<and> int (length ld) = u + int cb \<and> TCP_RECV_BUFFER_SIZE < u + int cb)"

definition rx_inv :: "env \<Rightarrow> nat \<Rightarrow> handle \<Rightarrow> ncb_t \<Rightarrow> nat \<Rightarrow> byte list \<Rightarrow> st \<Rightarrow> bool" where
  "rx_inv E cb h n0 p carry s \<longleftrightarrow> (\<exists>k n b buf. rx_link cb h p k n b buf s \<and> same_link n n0
     \<and> (rx_small E cb k n b buf carry \<or> rx_large E cb k n b carry s))"

subsection \<open>A step of the parser\<close>

text \<open>
  \<open>progress evs s s'\<close>: between the two states the program delivered the events \<open>evs\<close>, and
  it neither requested any transfer nor changed a reference count.
\<close>

definition progress :: "event list \<Rightarrow> st \<Rightarrow> st \<Rightarrow> bool" where
  "progress evs s s' \<longleftrightarrow> (\<exists>t. trace s' = trace s @ t \<and> events t = evs \<and> requests t = []
     \<and> (\<forall>h. refcnt h t = 0))"

lemma progress_refl [simp]: "progress [] s s"
  by (auto simp: progress_def intro!: exI [of _ "[]"])

lemma progress_trace [simp]:
  "progress evs s (s'\<lparr>heap := H\<rparr>) = progress evs s s'"
  "progress evs s (s'\<lparr>ncbs := N\<rparr>) = progress evs s s'"
  "progress evs s (s'\<lparr>nextb := i\<rparr>) = progress evs s s'"
  by (simp_all add: progress_def)

lemma progress_emits: "progress evs s s' \<Longrightarrow> progress (evs @ es) s (emits es s')"
  by (force simp: progress_def)

lemma progress_trans: "progress es s s' \<Longrightarrow> progress es' s' s'' \<Longrightarrow> progress (es @ es') s s''"
  by (force simp: progress_def)

lemma progress_malloc: "progress evs s s' \<Longrightarrow> progress evs s (record_call (C_malloc m) r s')"
  by (force simp: progress_def)

text \<open>Incomplete rest: it moves to the front of the buffer.\<close>

lemma recv_parse_incomplete:
  assumes L: "rx_link cb h p k n b buf s" and lb: "lb_data n = Null"
    and sz: "analyzed_offset k + size_for_translation k = int (length xs)"
            "size_for_translation k \<noteq> 0"
    and xs: "take (length xs) buf = xs"
    and sc: "rx_scan E cb n xs = (fs, ys, Incomplete)"
  shows "\<exists>s'. tcp_recv_parse E h p s = Some (0, s') \<and> rx_inv E cb h n p ys s'
    \<and> progress (rx_events E n fs) s s'"
proof -
  from L have [simp]: "get_pkt p s = Some k" "ncbs s h = Some n" "ori_buffer k = Ptr b 0"
    "heap s b = Some (Bytes Crt buf)" "tst_cb (tcp_tst n) = int cb"
    by (auto simp: rx_link_def)
  from L have cb: "0 < cb" "int cb \<le> TCP_RECV_BUFFER_SIZE" "parser (tcp_tst n) \<noteq> 0"
    "int (length buf) = TCP_RECV_BUFFER_SIZE" by (auto simp: rx_link_def)
  have len: "length xs \<le> length buf"
    using arg_cong [OF xs, of length] by simp
  have "p \<noteq> b" using get_pkt_heapD [of p s k] by auto
  have pl: "parse_loop E h p 0 (int (length xs)) s =
      Some (Break (int (length xs) - int (length ys)) (int (length ys)), emits (rx_events E n fs) s)"
    using parse_loop_scan [OF sc, of p s k h b Crt buf 0] cb len xs by simp
  have suf: "xs = concat fs @ ys" using scan_suffix [OF sc] len cb by simp
  have fits: "int (length ys) < TCP_RECV_BUFFER_SIZE" using scan_rest_fits [OF sc] cb by simp
  define buf' where "buf' = (if ys \<noteq> [] \<and> length xs \<noteq> length ys then overwrite buf 0 ys else buf)"
  define k' where "k' = k\<lparr>analyzed_offset := int (length ys), irp := Ptr b (int (length ys)),
      size_for_req := TCP_RECV_BUFFER_SIZE - int (length ys)\<rparr>"
  define s' where "s' = (emits (rx_events E n fs) s)\<lparr>heap := (heap s)(b \<mapsto> Bytes Crt buf', p \<mapsto> Pkt k')\<rparr>"
  have ysl: "length ys \<le> length xs" using suf by simp
  have whole: "ys = xs" if "length ys = length xs" using suf that by simp
  have tail: "take (length ys) (drop (length xs - length ys) buf) = ys"
  proof -
    have "drop (length xs - length ys) (take (length xs) buf) = ys" unfolding xs using suf by simp
    then show ?thesis using ysl by (simp add: drop_take)
  qed
  have buf'_len: "length buf' = length buf"
    using ysl len by (simp add: buf'_def)
  have buf': "take (length ys) buf' = ys"
  proof (cases "length ys = length xs")
    case True
    with whole xs show ?thesis by (simp add: buf'_def)
  next
    case False
    then show ?thesis by (cases "ys = []") (simp_all add: buf'_def)
  qed
  have mv: "load (Ptr b (int (length xs) - int (length ys))) (int (length ys)) s = Some ys"
    using tail ysl len by (simp add: load_bytes flip: of_nat_diff)
  have i32: "int32 (analyzed_offset k + size_for_translation k) = Some (int (length xs))"
    using sz len cb by (simp add: BUF_value)
  have run: "tcp_recv_parse E h p s = Some (0, s')"
  proof (cases "ys \<noteq> [] \<and> length xs \<noteq> length ys")
    case True
    then show ?thesis using sz i32 cb pl mv \<open>p \<noteq> b\<close> ysl len
      by (simp add: tcp_recv_parse_def tcp_prase_logic_packet_def Let_def memcpy_def
          store_bytes load_bytes s'_def k'_def buf'_def fun_upd_twist)
  next
    case False
    have idem: "(heap s)(b \<mapsto> Bytes Crt buf) = heap s" by (simp add: fun_upd_idem)
    from False consider "ys = []" | "length xs = length ys" by auto
    then show ?thesis
      by cases (use sz i32 cb pl \<open>p \<noteq> b\<close> idem in
        \<open>simp add: tcp_recv_parse_def tcp_prase_logic_packet_def Let_def s'_def k'_def buf'_def\<close>)+
  qed
  moreover have "rx_inv E cb h n p ys s'"
    unfolding rx_inv_def
  proof (intro exI conjI disjI1)
    show "rx_link cb h p k' n b buf' s'"
      using L \<open>p \<noteq> b\<close> buf'_len wf_heap_fresh [of s]
      by (auto simp: rx_link_def s'_def k'_def get_pkt_def wf_heap_def)
    show "rx_small E cb k' n b buf' ys"
      using lb buf' scan_self [OF sc] cb by (simp add: rx_small_def k'_def)
  qed simp
  moreover have "progress (rx_events E n fs) s s'"
    using progress_emits [of "[]" s s "rx_events E n fs"] by (simp add: s'_def)
  ultimately show ?thesis by blast
qed

text \<open>A packet too large for the buffer: its bytes move to a fresh large-block buffer.\<close>

definition mallocs :: "env \<Rightarrow> bool" where
  "mallocs E \<longleftrightarrow> (\<forall>t m. e_sys E t (C_malloc m) \<noteq> 0)"

lemma malloc_ok:
  "mallocs E \<Longrightarrow> malloc E m s = (Ptr (nextb s) 0,
     let s' = record_call (C_malloc (size_t m)) (e_sys E (trace s) (C_malloc (size_t m))) s in
     s'\<lparr>heap := (heap s)(nextb s \<mapsto> Bytes Crt (map (e_junk E (trace s)) [0..<size_t m])),
        nextb := Suc (nextb s)\<rparr>)"
  by (simp add: mallocs_def malloc_def sysc_def alloc_obj_def Let_def)

lemma recv_parse_large:
  assumes L: "rx_link cb h p k n b buf s" and lb: "lb_data n = Null"
    and sz: "analyzed_offset k + size_for_translation k = int (length xs)"
            "size_for_translation k \<noteq> 0"
    and xs: "take (length xs) buf = xs"
    and sc: "rx_scan E cb n xs = (fs, ys, Large t)" and M: "mallocs E"
  shows "\<exists>s'. tcp_recv_parse E h p s = Some (0, s') \<and> rx_inv E cb h n p ys s'
    \<and> progress (rx_events E n fs) s s'"
proof -
  from L have [simp]: "get_pkt p s = Some k" "ncbs s h = Some n" "ori_buffer k = Ptr b 0"
    "heap s b = Some (Bytes Crt buf)" "tst_cb (tcp_tst n) = int cb"
    by (auto simp: rx_link_def)
  from L have cb: "0 < cb" "int cb \<le> TCP_RECV_BUFFER_SIZE" "parser (tcp_tst n) \<noteq> 0"
    "int (length buf) = TCP_RECV_BUFFER_SIZE" by (auto simp: rx_link_def)
  have len: "length xs \<le> length buf" using arg_cong [OF xs, of length] by simp
  have "p \<noteq> b" using get_pkt_heapD [of p s k] by auto
  from L wf_heap_fresh [of s b] wf_heap_fresh [of s p] get_pkt_heapD [of p s k]
  have fresh: "b < nextb s" "p < nextb s" by (auto simp: rx_link_def)
  obtain r u where hd: "cb \<le> length ys" "rx_parser E n (take cb ys) = (r, u)" "0 \<le> r" "0 \<le> u"
    "u \<le> TCP_MAXIMUM_PACKET_SIZE" "t = u + int cb" "t > TCP_RECV_BUFFER_SIZE"
    using scan_stop_cases [OF sc] cb by auto
  have suf: "xs = concat fs @ ys" using scan_suffix [OF sc] len cb by simp
  then have ysl: "length ys \<le> length xs" by simp
  define off where "off = length xs - length ys"
  have tail: "take (length ys) (drop off buf) = ys"
  proof -
    have "drop off (take (length xs) buf) = ys" unfolding xs off_def using suf by simp
    then show ?thesis using ysl by (simp add: drop_take off_def)
  qed
  have t_nat: "length ys < nat t" "t < 2 ^ 64" "0 \<le> t" "\<not> t < int (length ys)" "length ys \<noteq> 0"
    using hd ysl len cb by (auto simp: MAX_value BUF_value)
  define s1 where "s1 = emits (rx_events E n fs) s"
  define tr where "tr = trace s @ map Ev (rx_events E n fs)"
  define ld where "ld = overwrite (map (e_junk E tr) [0..<nat t]) 0 ys"
  have ld: "length ld = nat t" "take (length ys) ld = ys"
    using t_nat by (simp_all add: ld_def)
  define n' where "n' = n\<lparr>lb_length := t, lb_data := Ptr (nextb s) 0, lb_cpy_offset := int (length ys)\<rparr>"
  define k' where "k' = k\<lparr>analyzed_offset := 0, irp := Ptr b 0, size_for_req := TCP_RECV_BUFFER_SIZE\<rparr>"
  define s' where "s' = (record_call (C_malloc (nat t)) (e_sys E tr (C_malloc (nat t))) s1)
    \<lparr>heap := (heap s)(nextb s \<mapsto> Bytes Crt ld, p \<mapsto> Pkt k'), nextb := Suc (nextb s),
     ncbs := (ncbs s)(h \<mapsto> n')\<rparr>"
  have pl: "parse_loop E h p 0 (int (length xs)) s = do {
      (m, s2) \<leftarrow> ncb_mark_lb E (Some h) t (int (length ys)) (Ptr b (int off)) s1;
      if m < 0 then Some (Return (- 1), s2)
      else do { s3 \<leftarrow> mod_pkt p (\<lambda>k. k\<lparr>analyzed_offset := 0\<rparr>) s2; Some (Return 0, s3) } }"
    using parse_loop_scan [OF sc, of p s k h b Crt buf 0] cb len xs ysl
    by (simp add: s1_def off_def Let_def)
  have i32: "int32 (analyzed_offset k + size_for_translation k) = Some (int (length xs))"
    using sz len cb by (simp add: BUF_value)
  have mark: "ncb_mark_lb E (Some h) t (int (length ys)) (Ptr b (int off)) s1 =
      Some (0, s'\<lparr>heap := (heap s)(nextb s \<mapsto> Bytes Crt ld)\<rparr>)"
  proof -
    have o: "off + length ys \<le> length buf" using ysl len by (simp add: off_def)
    have st: "size_t t = nat t" using t_nat by simp
    have tr: "trace s1 = tr" "heap s1 = heap s" "ncbs s1 = ncbs s" "nextb s1 = nextb s"
      by (simp_all add: s1_def tr_def)
    show ?thesis
      using fresh t_nat(1,4,5) tail o
      by (simp add: ncb_mark_lb_def malloc_ok [OF M] Let_def memcpy_def load_bytes store_bytes
          s'_def n'_def ld_def st tr)
  qed
  have run: "tcp_recv_parse E h p s = Some (0, s')"
    using sz cb i32 pl mark fresh \<open>p \<noteq> b\<close>
    by (simp add: tcp_recv_parse_def tcp_prase_logic_packet_def Let_def s'_def k'_def
        get_pkt_heap_upd get_pkt_heapD)
  moreover have "rx_inv E cb h n p ys s'"
    unfolding rx_inv_def
  proof (intro exI conjI disjI2)
    show "rx_link cb h p k' n' b buf s'"
      using L \<open>p \<noteq> b\<close> fresh
      by (auto simp: rx_link_def s'_def k'_def n'_def get_pkt_def wf_heap_def)
    show "rx_large E cb k' n' b ys s'"
      using hd ld t_nat fresh by (simp add: rx_large_def k'_def n'_def s'_def)
    show "same_link n' n" by (simp add: same_link_def n'_def)
  qed
  moreover have "progress (rx_events E n fs) s s'"
    using progress_malloc [OF progress_emits [of "[]" s s "rx_events E n fs"]]
    by (simp add: s'_def s1_def)
  ultimately show ?thesis by blast
qed

end
