(* ===== verification/Tcp_Recv_Step.thy ===== *)
theory Tcp_Recv_Step
  imports Tcp_Recv_Inv
begin

text \<open>
  One receive completion of a link in a state of \<open>rx_inv\<close>: the body of
  \<open>tcp_dispatch_io_recv\<close> delivers the frames that \<open>deframe\<close> finds in the undelivered
  bytes followed by the new ones, and keeps \<open>rx_inv\<close> for what is left over.
\<close>

abbreviation rx_deframe :: "env \<Rightarrow> nat \<Rightarrow> ncb_t \<Rightarrow> byte list \<Rightarrow> byte list list \<times> byte list \<times> bool" where
  "rx_deframe E cb n \<equiv> deframe cb TCP_MAXIMUM_PACKET_SIZE (rx_parser E n)"

lemma same_link_parser: "same_link n m \<Longrightarrow> rx_parser E n = rx_parser E m"
  by (simp add: same_link_def)

text \<open>The result a receive step must have, for the bytes \<open>xs\<close> in hand.\<close>

definition rx_result :: "env \<Rightarrow> nat \<Rightarrow> handle \<Rightarrow> ncb_t \<Rightarrow> nat \<Rightarrow> byte list \<Rightarrow> st \<Rightarrow> (int \<times> st) option \<Rightarrow> bool" where
  "rx_result E cb h n0 p xs s res \<longleftrightarrow> (case rx_deframe E cb n0 xs of (fs, ys, ok) \<Rightarrow>
     \<exists>r s'. res = Some (r, s') \<and> progress (rx_events E n0 fs) s s' \<and>
       (if ok then r = 0 \<and> rx_inv E cb h n0 p ys s'
        else r < 0 \<and> (\<exists>k n b buf. rx_link cb h p k n b buf s' \<and> same_link n n0)))"

lemma rx_result_same:
  assumes "same_link n n0"
  shows "rx_result E cb h n p xs s res = rx_result E cb h n0 p xs s res"
proof -
  have i: "rx_inv E cb h n p ys s' = rx_inv E cb h n0 p ys s'" for ys s'
    using assms by (auto simp: rx_inv_def same_link_def)
  have l: "same_link m n = same_link m n0" for m
    using assms by (auto simp: same_link_def)
  show ?thesis
    unfolding rx_result_def same_link_parser [OF assms] rx_events_same [OF assms] i l ..
qed

text \<open>Parsing the bytes at the front of the receive buffer.\<close>

lemma recv_parse:
  assumes L: "rx_link cb h p k n b buf s" and lb: "lb_data n = Null"
    and sz: "analyzed_offset k + size_for_translation k = int (length xs)"
            "size_for_translation k \<noteq> 0"
    and xs: "take (length xs) buf = xs" and M: "mallocs E"
  shows "rx_result E cb h n p xs s (tcp_recv_parse E h p s)"
proof -
  obtain fs ys st where sc: "rx_scan E cb n xs = (fs, ys, st)" by (metis prod_cases3)
  from L have cb: "0 < cb" "int cb \<le> TCP_RECV_BUFFER_SIZE" "parser (tcp_tst n) \<noteq> 0"
    "int (length buf) = TCP_RECV_BUFFER_SIZE" by (auto simp: rx_link_def)
  have len: "length xs \<le> length buf" using arg_cong [OF xs, of length] by simp
  have d: "rx_deframe E cb n xs = (fs, ys, st \<noteq> Bad)"
    using scan_deframe [OF _ sc] len cb by simp
  show ?thesis
  proof (cases st)
    case Incomplete
    with recv_parse_incomplete [OF L lb sz xs, of E fs ys] sc d show ?thesis
      by (auto simp: rx_result_def)
  next
    case (Large t)
    with recv_parse_large [OF L lb sz xs _ M, of fs ys t] sc d show ?thesis
      by (auto simp: rx_result_def)
  next
    case Bad
    from L have g: "get_pkt p s = Some k" "ncbs s h = Some n" "ori_buffer k = Ptr b 0"
      "heap s b = Some (Bytes Crt buf)" "tst_cb (tcp_tst n) = int cb"
      by (auto simp: rx_link_def)
    have pl: "parse_loop E h p 0 (int (length xs)) s = Some (Return (- 1), emits (rx_events E n fs) s)"
      using parse_loop_scan [OF sc, of p s k h b Crt buf 0] Bad cb len xs g by simp
    have "int32 (analyzed_offset k + size_for_translation k) = Some (int (length xs))"
      using sz len cb by (simp add: BUF_value)
    then have "tcp_recv_parse E h p s = Some (- 1, emits (rx_events E n fs) s)"
      using pl g sz cb by (simp add: tcp_recv_parse_def tcp_prase_logic_packet_def Let_def)
    moreover have "progress (rx_events E n fs) s (emits (rx_events E n fs) s)"
      using progress_emits [of "[]" s s] by simp
    moreover have "rx_link cb h p k n b buf (emits (rx_events E n fs) s)"
      using L by (simp add: rx_link_def)
    ultimately show ?thesis using d Bad by (auto simp: rx_result_def intro: same_link_refl)
  qed
qed


subsection \<open>Filling a large packet\<close>

text \<open>The bytes \<open>bs\<close> have arrived at the front of the receive buffer.\<close>

lemma lb_fill:
  assumes L: "rx_link cb h p k n b buf s" and R: "rx_large E cb k n b carry s"
    and bs: "size_for_translation k = int (length bs)" "bs \<noteq> []" "take (length bs) buf = bs"
    and inc: "int (length carry + length bs) < lb_length n"
  shows "\<exists>s'. tcp_lb_assemble E (Some h) (Some p) s = Some (0, s') \<and> progress [] s s'
    \<and> rx_inv E cb h n p (carry @ bs) s'"
proof -
  from L have g: "get_pkt p s = Some k" "ncbs s h = Some n" "ori_buffer k = Ptr b 0"
    "heap s b = Some (Bytes Crt buf)" "tst_cb (tcp_tst n) = int cb" "parser (tcp_tst n) \<noteq> 0"
    "0 < cb" "int (length buf) = TCP_RECV_BUFFER_SIZE" "int cb \<le> TCP_RECV_BUFFER_SIZE"
    by (auto simp: rx_link_def)
  from R obtain l ld r u where l: "lb_data n = Ptr l 0" "l \<noteq> b" "heap s l = Some (Bytes Crt ld)"
    "lb_length n = int (length ld)" "lb_cpy_offset n = int (length carry)"
    "take (length carry) ld = carry" "cb \<le> length carry" "length carry < length ld"
    "rx_parser E n (take cb carry) = (r, u)" "0 \<le> r" "0 \<le> u" "u \<le> TCP_MAXIMUM_PACKET_SIZE"
    "int (length ld) = u + int cb" "TCP_RECV_BUFFER_SIZE < u + int cb"
    unfolding rx_large_def by blast
  have pl: "p \<noteq> l" "p \<noteq> b" using get_pkt_heapD [OF g(1)] l g by auto
  have len: "length bs \<le> length buf" using arg_cong [OF bs(3), of length] by simp
  have hd: "take cb ld = take cb carry"
    by (metis l(6,7) take_take min.absorb1)
  define ld' where "ld' = overwrite ld (length carry) bs"
  define n' where "n' = n\<lparr>lb_cpy_offset := int (length carry) + int (length bs)\<rparr>"
  define s' where "s' = s\<lparr>heap := (heap s)(l \<mapsto> Bytes Crt ld'), ncbs := (ncbs s)(h \<mapsto> n')\<rparr>"
  have hdr: "load (Ptr l 0) (int cb) s = Some (take cb carry)"
    using l hd by (simp add: load_bytes)
  have src: "load (Ptr b 0) (int (length bs)) s = Some bs"
    using g len bs by (simp add: load_bytes)
  have i: "int32 (u + int cb) = Some (u + int cb)"
    "int32 (u + int cb - int (length carry)) = Some (u + int cb - int (length carry))"
    using l g by (simp_all add: MAX_value BUF_value)
  have c: "int (length bs) < u + int cb - int (length carry)"
    "int (length carry) + int (length bs) \<le> u + int cb" using inc l by simp_all
  have run: "tcp_lb_assemble E (Some h) (Some p) s = Some (0, s')"
    using g l bs hdr src i c
    by (simp add: tcp_lb_assemble_def Let_def memcpy_def store_bytes s'_def n'_def ld'_def
        del: of_nat_add)
  have lb: "length carry + length bs \<le> length ld" using inc l by simp
  have ld': "length ld' = length ld" "take (length carry + length bs) ld' = carry @ bs"
    using lb l by (simp_all add: ld'_def overwrite_def take_add)
  have "rx_inv E cb h n p (carry @ bs) s'"
    unfolding rx_inv_def
  proof (intro exI conjI disjI2)
    show "rx_link cb h p k n' b buf s'"
      using L pl l wf_heap_fresh [of s l]
      by (auto simp: rx_link_def s'_def n'_def get_pkt_def wf_heap_def)
    show "rx_large E cb k n' b (carry @ bs) s'"
      using R l ld' lb inc
      by (simp add: rx_large_def n'_def s'_def)
    show "same_link n' n" by (simp add: same_link_def n'_def)
  qed
  with run show ?thesis by (auto simp: s'_def)
qed

text \<open>The large packet is complete: it is delivered, and what follows it stays to be parsed.\<close>

lemma lb_complete:
  assumes L: "rx_link cb h p k n b buf s" and R: "rx_large E cb k n b carry s"
    and bs: "size_for_translation k = int (length bs)" "bs \<noteq> []" "take (length bs) buf = bs"
    and full: "int (length f) = lb_length n" "carry @ bs = f @ rest"
  shows "\<exists>k' n' buf' s'. tcp_lb_assemble E (Some h) (Some p) s = Some (int (length rest), s')
    \<and> rx_link cb h p k' n' b buf' s' \<and> same_link n' n \<and> lb_data n' = Null
    \<and> progress (rx_events E n [f]) s s' \<and> analyzed_offset k' = 0 \<and> irp k' = Ptr b 0
    \<and> size_for_req k' = TCP_RECV_BUFFER_SIZE
    \<and> (rest \<noteq> [] \<longrightarrow> size_for_translation k' = int (length rest) \<and> take (length rest) buf' = rest)"
proof -
  from L have g: "get_pkt p s = Some k" "ncbs s h = Some n" "ori_buffer k = Ptr b 0"
    "heap s b = Some (Bytes Crt buf)" "tst_cb (tcp_tst n) = int cb" "parser (tcp_tst n) \<noteq> 0"
    "0 < cb" "int (length buf) = TCP_RECV_BUFFER_SIZE" "int cb \<le> TCP_RECV_BUFFER_SIZE"
    by (auto simp: rx_link_def)
  from R obtain l ld r u where l: "lb_data n = Ptr l 0" "l \<noteq> b" "heap s l = Some (Bytes Crt ld)"
    "lb_length n = int (length ld)" "lb_cpy_offset n = int (length carry)"
    "take (length carry) ld = carry" "cb \<le> length carry" "length carry < length ld"
    "rx_parser E n (take cb carry) = (r, u)" "0 \<le> r" "0 \<le> u" "u \<le> TCP_MAXIMUM_PACKET_SIZE"
    "int (length ld) = u + int cb" "TCP_RECV_BUFFER_SIZE < u + int cb"
    and k0: "analyzed_offset k = 0" "irp k = Ptr b 0" "size_for_req k = TCP_RECV_BUFFER_SIZE"
    unfolding rx_large_def by blast
  have pl: "p \<noteq> l" "p \<noteq> b" using get_pkt_heapD [OF g(1)] l g by auto
  have len: "length bs \<le> length buf" using arg_cong [OF bs(3), of length] by simp
  have hd: "take cb ld = take cb carry" by (metis l(6,7) take_take min.absorb1)
  have f: "length f = length ld" using full l by simp
  define bs1 where "bs1 = take (length f - length carry) bs"
  have sizes: "length carry + length bs = length f + length rest"
    using arg_cong [OF full(2), of length] by simp
  have cut: "f = carry @ bs1" "bs = bs1 @ rest" "length carry + length bs1 = length ld"
  proof -
    have "length carry \<le> length f" using f l by simp
    then obtain x where x: "f = carry @ x" using full(2)
      by (metis append_eq_append_conv_if append_take_drop_id)
    then have "bs = x @ rest" using full(2) by simp
    with x show "f = carry @ bs1" "bs = bs1 @ rest" by (simp_all add: bs1_def)
    then show "length carry + length bs1 = length ld" using f by simp
  qed
  define acq where "acq = u + int cb - int (length carry)"
  have acq: "acq = int (length bs1)" using cut(3) l unfolding acq_def by linarith
  define ld' where "ld' = overwrite ld (length carry) bs1"
  have ld': "ld' = f" using cut l by (simp add: ld'_def overwrite_def)
  define s1 where "s1 = s\<lparr>heap := (heap s)(l \<mapsto> Bytes Crt f)\<rparr>"
  define n' where "n' = n\<lparr>lb_data := Null, lb_cpy_offset := 0, lb_length := 0\<rparr>"
  define s3 where "s3 = (emits (rx_events E n [f]) s)\<lparr>heap := (heap s)(l := None),
      ncbs := (ncbs s)(h \<mapsto> n')\<rparr>"
  define k' where "k' = (if rest = [] then k else k\<lparr>size_for_translation := int (length rest)\<rparr>)"
  define buf' where "buf' = (if rest = [] then buf else overwrite buf 0 rest)"
  define s' where "s' = (if rest = [] then s3
      else s3\<lparr>heap := (heap s3)(b \<mapsto> Bytes Crt buf', p \<mapsto> Pkt k')\<rparr>)"
  have hdr: "load (Ptr l 0) (int cb) s = Some (take cb carry)"
    using l hd by (simp add: load_bytes)
  have src: "load (Ptr b 0) acq s = Some bs1"
  proof -
    have "length bs1 \<le> length bs" "take (length bs1) bs = bs1" using cut(2) by simp_all
    then have "take (length bs1) buf = bs1" "length bs1 \<le> length buf"
      using bs(3) len by (metis take_take min.absorb1, linarith)
    then show ?thesis using g by (simp add: load_bytes acq)
  qed
  have i: "int32 (u + int cb) = Some (u + int cb)" "int32 acq = Some acq"
    using l g unfolding acq_def by (simp_all add: MAX_value BUF_value)
  have cp: "memcpy (Ptr l (int (length carry))) (Ptr b 0) acq s = Some s1"
    using src l cut(3) ld' by (simp add: memcpy_def store_bytes s1_def ld'_def [symmetric])
  have ev: "ncb_post_recvdata (Some h) u (Ptr l (int cb)) s1 = Some (emits (rx_events E n [f]) s1)"
  proof -
    have ln: "u = int (length f - cb)" using f l by simp
    have ln': "\<not> int (length f) \<le> TCP_RECV_BUFFER_SIZE" using f l by simp
    have "load (Ptr l (int cb)) u s1 = Some (drop cb f)"
      using l f by (simp add: load_bytes s1_def)
    then show ?thesis using g ln ln'
      by (simp add: ncb_post_recvdata_def s1_def rx_events_def rx_event_def emit_emits)
  qed
  have un: "ncb_unmark_lb (Some h) (emits (rx_events E n [f]) s1) = Some s3"
  proof -
    have e: "emits es (s\<lparr>heap := H\<rparr>) = (emits es s)\<lparr>heap := H\<rparr>" for es H by (simp add: emits_def)
    have "0 < lb_length n" using l by simp
    then show ?thesis using l(1) g(2)
      by (simp add: ncb_unmark_lb_def s1_def s3_def n'_def free_bytes e)
  qed
  have mv: "memmove (Ptr b 0) (Ptr b acq) (int (length rest)) s3 =
      Some (s3\<lparr>heap := (heap s3)(b \<mapsto> Bytes Crt (overwrite buf 0 rest))\<rparr>)"
  proof -
    have e: "heap s3 b = Some (Bytes Crt buf)" using g l by (simp add: s3_def)
    have lr: "length bs1 + length rest \<le> length buf" using cut(2) len by simp
    have "take (length rest) (drop (length bs1) (take (length bs) buf)) = rest"
      unfolding bs(3) using cut(2) by simp
    then have "take (length rest) (drop (length bs1) buf) = rest"
      using cut(2) by (simp add: drop_take)
    then show ?thesis using lr by (simp add: memcpy_def load_bytes [OF e] store_bytes [OF e] acq)
  qed
  have cmp: "\<not> int (length bs) < acq" "int (length bs) - acq = int (length rest)"
    "(int (length bs) \<noteq> acq) = (rest \<noteq> [])" "int (length carry) + acq \<le> lb_length n"
    using cut acq l by simp_all
  have gp: "get_pkt p s3 = Some k" using g pl by (simp add: s3_def get_pkt_def)
  have run: "tcp_lb_assemble E (Some h) (Some p) s = Some (int (length rest), s')"
  proof -
    have pre: "tcp_lb_assemble E (Some h) (Some p) s = do {
        s4 \<leftarrow> (if rest \<noteq> [] then do {
            s4 \<leftarrow> memmove (Ptr b 0) (Ptr b acq) (int (length rest)) s3;
            mod_pkt p (\<lambda>k. k\<lparr>size_for_translation := size_for_translation k - acq\<rparr>) s4 }
          else Some s3);
        Some (int (length rest), s4) }"
      using g l(1,4,5,9,10) bs(1,2) hdr i cmp cp ev un
      by (simp add: tcp_lb_assemble_def Let_def acq_def [symmetric])
    show ?thesis
    proof (cases "rest = []")
      case True
      with pre show ?thesis by (simp add: s'_def)
    next
      case False
      have "size_for_translation k - acq = int (length rest)" using bs cmp by simp
      then show ?thesis unfolding pre using False mv gp pl
        by (simp add: s'_def k'_def buf'_def get_pkt_heap_upd get_pkt_heapD)
    qed
  qed
  have lr: "length rest \<le> length buf" using cut(2) len by simp
  have bl: "b < nextb s" "p < nextb s"
    using L g wf_heap_fresh [of s] get_pkt_heapD [OF g(1)] by (auto simp: rx_link_def)
  have link: "rx_link cb h p k' n' b buf' s'"
    using L pl l lr bl get_pkt_heapD [OF g(1)]
    by (auto simp: rx_link_def s'_def s3_def k'_def n'_def buf'_def get_pkt_def wf_heap_def)
  have "progress (rx_events E n [f]) s s'"
    using progress_emits [of "[]" s s] by (simp add: s'_def s3_def)
  moreover have "same_link n' n" "lb_data n' = Null" by (simp_all add: n'_def same_link_def)
  moreover have "analyzed_offset k' = 0" "irp k' = Ptr b 0" "size_for_req k' = TCP_RECV_BUFFER_SIZE"
    using k0 by (simp_all add: k'_def)
  moreover have "rest \<noteq> [] \<longrightarrow> size_for_translation k' = int (length rest) \<and> take (length rest) buf' = rest"
    by (simp add: k'_def buf'_def)
  ultimately show ?thesis using run link by blast
qed

subsection \<open>One completion\<close>

text \<open>
  The system completes the outstanding request: it stores the bytes \<open>bs\<close>, no more than were
  asked for, where the request points, and the worker thread notes how many they are.
\<close>

definition rx_arrive :: "nat \<Rightarrow> byte list \<Rightarrow> st \<Rightarrow> st option" where
  "rx_arrive p bs s = do {
     k \<leftarrow> get_pkt p s;
     massert (bs \<noteq> [] \<and> int (length bs) \<le> size_for_req k);
     s1 \<leftarrow> store (irp k) bs s;
     mod_pkt p (\<lambda>k. k\<lparr>size_for_translation := int (length bs)\<rparr>) s1 }"

text \<open>The outstanding request always asks for at least one byte, inside the buffer.\<close>

lemma rx_inv_request:
  assumes "rx_inv E cb h n0 p carry s"
  obtains k b buf where "get_pkt p s = Some k" "irp k = Ptr b (TCP_RECV_BUFFER_SIZE - size_for_req k)"
    "heap s b = Some (Bytes Crt buf)" "int (length buf) = TCP_RECV_BUFFER_SIZE"
    "0 < size_for_req k" "size_for_req k \<le> TCP_RECV_BUFFER_SIZE"
proof -
  from assms obtain k n b buf where L: "rx_link cb h p k n b buf s"
    and C: "rx_small E cb k n b buf carry \<or> rx_large E cb k n b carry s"
    by (auto simp: rx_inv_def)
  from C have "irp k = Ptr b (TCP_RECV_BUFFER_SIZE - size_for_req k) \<and> 0 < size_for_req k
      \<and> size_for_req k \<le> TCP_RECV_BUFFER_SIZE"
  proof
    assume S: "rx_small E cb k n b buf carry"
    then have "int (length carry) < TCP_RECV_BUFFER_SIZE"
      using L scan_rest_fits by (auto simp: rx_small_def rx_link_def)
    with S show ?thesis by (simp add: rx_small_def)
  qed (simp add: rx_large_def BUF_value)
  with L that show ?thesis by (auto simp: rx_link_def)
qed

lemma rx_arrive_eq:
  assumes L: "rx_link cb h p k n b buf s" and "irp k = Ptr b (int i)" "bs \<noteq> []"
    and "int (length bs) \<le> size_for_req k" "i + length bs \<le> length buf"
  shows "\<exists>s'. rx_arrive p bs s = Some s' \<and> trace s' = trace s
    \<and> rx_link cb h p (k\<lparr>size_for_translation := int (length bs)\<rparr>) n b (overwrite buf i bs) s'
    \<and> (\<forall>l. l \<noteq> b \<and> l \<noteq> p \<longrightarrow> heap s' l = heap s l)"
proof -
  from L have g: "get_pkt p s = Some k" "heap s b = Some (Bytes Crt buf)"
    by (auto simp: rx_link_def)
  have pb: "p \<noteq> b" using get_pkt_heapD [OF g(1)] g by auto
  let ?s = "s\<lparr>heap := (heap s)(b \<mapsto> Bytes Crt (overwrite buf i bs),
      p \<mapsto> Pkt (k\<lparr>size_for_translation := int (length bs)\<rparr>))\<rparr>"
  have "b < nextb s" "p < nextb s"
    using L g wf_heap_fresh [of s] get_pkt_heapD [OF g(1)] by (auto simp: rx_link_def)
  moreover have "rx_arrive p bs s = Some ?s"
    using assms g pb by (simp add: rx_arrive_def store_bytes get_pkt_heap_upd get_pkt_heapD)
  ultimately show ?thesis using L pb assms
    by (auto simp: rx_link_def get_pkt_def wf_heap_def)
qed

text \<open>The state in which the completion is handled: undelivered bytes \<open>carry\<close>, new bytes \<open>bs\<close>.\<close>

definition rx_ready :: "env \<Rightarrow> nat \<Rightarrow> handle \<Rightarrow> ncb_t \<Rightarrow> nat \<Rightarrow> byte list \<Rightarrow> byte list \<Rightarrow> st \<Rightarrow> bool" where
  "rx_ready E cb h n0 p carry bs s \<longleftrightarrow> (\<exists>k n b buf. rx_link cb h p k n b buf s \<and> same_link n n0
     \<and> size_for_translation k = int (length bs) \<and> bs \<noteq> []
     \<and> (lb_data n = Null \<and> analyzed_offset k = int (length carry)
          \<and> take (length (carry @ bs)) buf = carry @ bs
        \<or> rx_large E cb k n b carry s \<and> take (length bs) buf = bs))"

lemma rx_arrive_ready:
  assumes I: "rx_inv E cb h n0 p carry s0" and A: "rx_arrive p bs s0 = Some s"
  shows "rx_ready E cb h n0 p carry bs s \<and> trace s = trace s0"
proof -
  from I obtain k n b buf where L0: "rx_link cb h p k n b buf s0" and same: "same_link n n0"
    and C: "rx_small E cb k n b buf carry \<or> rx_large E cb k n b carry s0"
    by (auto simp: rx_inv_def)
  from A L0 have bs: "bs \<noteq> []" "int (length bs) \<le> size_for_req k"
    by (auto simp: rx_arrive_def rx_link_def bind_eq_Some_conv)
  let ?k = "k\<lparr>size_for_translation := int (length bs)\<rparr>"
  from C show ?thesis
  proof
    assume S: "rx_small E cb k n b buf carry"
    then have fit: "length carry + length bs \<le> length buf"
      using bs L0 by (simp add: rx_small_def rx_link_def)
    have L: "rx_link cb h p ?k n b (overwrite buf (length carry) bs) s" "trace s = trace s0"
      using rx_arrive_eq [OF L0 _ bs fit] S A by (auto simp: rx_small_def)
    moreover have "take (length (carry @ bs)) (overwrite buf (length carry) bs) = carry @ bs"
      using S fit by (simp add: rx_small_def)
    ultimately show ?thesis using same S bs
      unfolding rx_ready_def rx_small_def by fastforce
  next
    assume R0: "rx_large E cb k n b carry s0"
    then have fit: "0 + length bs \<le> length buf" and irp: "irp k = Ptr b (int 0)"
      using bs L0 by (auto simp: rx_large_def rx_link_def)
    from rx_arrive_eq [OF L0 irp bs fit] A
    have L: "rx_link cb h p ?k n b (overwrite buf 0 bs) s" "trace s = trace s0"
      and H: "\<forall>l. l \<noteq> b \<and> l \<noteq> p \<longrightarrow> heap s l = heap s0 l" by auto
    have np: "heap s0 p = Some (Pkt k)" using L0 get_pkt_heapD by (auto simp: rx_link_def)
    have "rx_large E cb ?k n b carry s"
      using R0 H np unfolding rx_large_def by fastforce
    moreover have "take (length bs) (overwrite buf 0 bs) = bs" by simp
    ultimately show ?thesis using L same bs unfolding rx_ready_def by fastforce
  qed
qed

theorem recv_block:
  assumes I: "rx_ready E cb h n0 p carry bs s" and M: "mallocs E"
  shows "rx_result E cb h n0 p (carry @ bs) s (tcp_recv_block E h p s)"
proof -
  from I obtain k n b buf where L: "rx_link cb h p k n b buf s" and same: "same_link n n0"
    and bs: "size_for_translation k = int (length bs)" "bs \<noteq> []"
    and C: "lb_data n = Null \<and> analyzed_offset k = int (length carry)
          \<and> take (length (carry @ bs)) buf = carry @ bs
        \<or> rx_large E cb k n b carry s \<and> take (length bs) buf = bs"
    by (auto simp: rx_ready_def)
  from C have "rx_result E cb h n p (carry @ bs) s (tcp_recv_block E h p s)"
  proof (elim disjE conjE)
    assume S: "lb_data n = Null" "analyzed_offset k = int (length carry)"
      "take (length (carry @ bs)) buf = carry @ bs"
    have "tcp_recv_block E h p s = tcp_recv_parse E h p s"
      using L S by (simp add: tcp_recv_block_def ncb_lb_marked_def rx_link_def)
    then show ?thesis using recv_parse [OF L S(1) _ _ S(3) M] S bs by simp
  next
    assume R: "rx_large E cb k n b carry s" and front: "take (length bs) buf = bs"
    from R obtain l ld r u where l: "lb_data n = Ptr l 0" "l \<noteq> b" "heap s l = Some (Bytes Crt ld)"
      "lb_length n = int (length ld)" "lb_cpy_offset n = int (length carry)"
      "take (length carry) ld = carry" "cb \<le> length carry" "length carry < length ld"
      "rx_parser E n (take cb carry) = (r, u)" "0 \<le> r" "0 \<le> u" "u \<le> TCP_MAXIMUM_PACKET_SIZE"
      "int (length ld) = u + int cb" "TCP_RECV_BUFFER_SIZE < u + int cb"
      unfolding rx_large_def by blast
    have cb: "0 < cb" using L by (simp add: rx_link_def)
    have hd: "take cb (carry @ bs) = take cb carry" using l by simp
    have tot: "length ld = nat u + cb" using l by linarith
    let ?asm = "tcp_lb_assemble E (Some h) (Some p) s"
    have blk: "tcp_recv_block E h p s = do {
        (r, s1) \<leftarrow> ?asm; if r \<le> 0 then Some (r, s1) else tcp_recv_parse E h p s1 }"
      using L l(1,4,8) by (cases "ld = []") (simp_all add: tcp_recv_block_def ncb_lb_marked_def rx_link_def)
    show ?thesis
    proof (cases "length carry + length bs < length ld")
      case True
      have d: "rx_deframe E cb n (carry @ bs) = ([], carry @ bs, True)"
        using deframe_incomplete [OF cb, of "carry @ bs" "rx_parser E n"] hd l tot True by simp
      from lb_fill [OF L R bs front] True l obtain s' where
        "?asm = Some (0, s')" "progress [] s s'" "rx_inv E cb h n p (carry @ bs) s'" by auto
      then show ?thesis unfolding blk rx_result_def d by simp
    next
      case False
      define f where "f = take (length ld) (carry @ bs)"
      define rest where "rest = drop (length ld) (carry @ bs)"
      have f: "int (length f) = lb_length n" "carry @ bs = f @ rest"
        using False l by (simp_all add: f_def rest_def)
      obtain fs ys ok where dr: "rx_deframe E cb n rest = (fs, ys, ok)" by (metis prod_cases3)
      have d: "rx_deframe E cb n (carry @ bs) = (f # fs, ys, ok)"
        using deframe_Cons [OF cb, of "carry @ bs" "rx_parser E n" r u, OF _ _ l(10,11,12)]
          hd l(7,9) False dr by (simp add: f_def rest_def tot)
      from lb_complete [OF L R bs front f] obtain k' n' buf' s' where
        asm: "?asm = Some (int (length rest), s')" and L': "rx_link cb h p k' n' b buf' s'"
        and n': "same_link n' n" "lb_data n' = Null" and pr: "progress (rx_events E n [f]) s s'"
        and k': "analyzed_offset k' = 0" "irp k' = Ptr b 0" "size_for_req k' = TCP_RECV_BUFFER_SIZE"
        and rest: "rest \<noteq> [] \<longrightarrow> size_for_translation k' = int (length rest) \<and> take (length rest) buf' = rest"
        by auto
      show ?thesis
      proof (cases "rest = []")
        case True
        then have fs: "fs = []" "ys = []" "ok" using dr by auto
        have "rx_inv E cb h n p [] s'"
          unfolding rx_inv_def using L' n' k' True
          by (intro exI conjI disjI1) (auto simp: rx_small_def scan.simps)
        then show ?thesis
          unfolding blk rx_result_def d using asm pr fs True by simp
      next
        case False
        have "rx_result E cb h n p rest s' (tcp_recv_parse E h p s')"
          using recv_parse [OF L' n'(2) _ _ _ M, of rest] rest k' False
          by (simp add: rx_result_same [OF n'(1)])
        then obtain r' s2 where p2: "tcp_recv_parse E h p s' = Some (r', s2)"
          "progress (rx_events E n fs) s' s2"
          "if ok then r' = 0 \<and> rx_inv E cb h n p ys s2
           else r' < 0 \<and> (\<exists>k m b buf. rx_link cb h p k m b buf s2 \<and> same_link m n)"
          unfolding rx_result_def dr by auto
        have "progress (rx_events E n (f # fs)) s s2"
          unfolding rx_events_Cons [of E n f fs] by (rule progress_trans [OF pr p2(2)])
        then show ?thesis unfolding blk rx_result_def d using asm p2 False by simp
      qed
    qed
  qed
  then show ?thesis by (simp add: rx_result_same [OF same])
qed

end
