(* ===== verification/Tcp_Recv_Main.thy ===== *)
theory Tcp_Recv_Main
  imports Tcp_Recv_Step
begin

text \<open>
  The receive completion handler as a whole, on a link that stays open: what it delivers,
  that it asks for more data, that it holds no reference afterwards; and the sequence of
  the completions of a link, however the stream is cut.
\<close>

subsection \<open>The environment of an open link\<close>

text \<open>
  The object manager knows the handle, and other references keep the object alive while the
  handler works; the system accepts receive requests (at once or as pending).
\<close>

definition serving :: "env \<Rightarrow> handle \<Rightarrow> bool" where
  "serving E h \<longleftrightarrow> (\<forall>t. e_sys E t (C_objrefr h) \<noteq> 0 \<and> e_sys E t (C_objdefr h) = 0
     \<and> e_sys E t (C_objclos h) = 0)"

definition receiving :: "env \<Rightarrow> bool" where
  "receiving E \<longleftrightarrow> (\<forall>t sk p q m. e_sys E t (C_WSARecv sk p q m) = 0
     \<or> e_sys E t (C_WSARecv sk p q m) = SOCKET_ERROR
       \<and> (\<forall>t. e_sys E t C_WSAGetLastError = ERROR_IO_PENDING))"

lemma objrefr_serving:
  "serving E h \<Longrightarrow> ncbs s h = Some n \<Longrightarrow>
   objrefr E h s = (Some h, record_call (C_objrefr h) (e_sys E (trace s) (C_objrefr h)) s)"
  by (simp add: objref_def serving_def)

lemma objdefr_serving:
  "serving E h \<Longrightarrow> objdefr E h s = Some (record_call (C_objdefr h) 0 s)"
  by (simp add: objdefr_def sysc_def serving_def Let_def)

lemma objclos_serving:
  "serving E h \<Longrightarrow> objclos E h s = Some (record_call (C_objclos h) 0 s)"
  by (simp add: objclos_def sysc_def serving_def Let_def)

lemma tcprefr_serving:
  "serving E h \<Longrightarrow> ncbs s h = Some n \<Longrightarrow> proto_type n = kProto_TCP \<Longrightarrow> 0 \<le> h \<Longrightarrow>
   tcprefr E h s = Some ((0, Some h), record_call (C_objrefr h) (e_sys E (trace s) (C_objrefr h)) s)"
  by (simp add: tcprefr_def objrefr_serving Let_def)

text \<open>States that differ in the history only.\<close>

definition same_store :: "st \<Rightarrow> st \<Rightarrow> bool" where
  "same_store s s' \<longleftrightarrow> heap s' = heap s \<and> ncbs s' = ncbs s \<and> nextb s' = nextb s"

lemma same_store_rec [simp]: "same_store s (record_call c r s') = same_store s s'"
  by (simp add: same_store_def)

lemma same_store_refl [simp]: "same_store s s"
  by (simp add: same_store_def)

lemma same_store_get_pkt: "same_store s s' \<Longrightarrow> get_pkt p s' = get_pkt p s"
  by (simp add: same_store_def get_pkt_def)

lemma same_store_rx_link: "same_store s s' \<Longrightarrow> rx_link cb h p k n b buf s' = rx_link cb h p k n b buf s"
  by (simp add: same_store_def rx_link_def get_pkt_def wf_heap_def)

lemma same_store_rx_inv: "same_store s s' \<Longrightarrow> rx_inv E cb h n p xs s' = rx_inv E cb h n p xs s"
  by (simp add: rx_inv_def same_store_rx_link rx_large_def) (simp add: same_store_def)

lemma same_store_rx_ready:
  "same_store s s' \<Longrightarrow> rx_ready E cb h n p xs bs s' = rx_ready E cb h n p xs bs s"
  by (simp add: rx_ready_def same_store_rx_link rx_large_def) (simp add: same_store_def)

lemma progress_eqs:
  "progress evs s s' \<Longrightarrow> events (trace s') = events (trace s) @ evs
     \<and> requests (trace s') = requests (trace s) \<and> refs s' = refs s"
  by (auto simp: progress_def refs_def)

lemma refs_objrefr [simp]: "r \<noteq> 0 \<Longrightarrow> refs (record_call (C_objrefr h) r s) = (refs s)(h := refs s h + 1)"
  by (auto simp: refs_def fun_eq_iff)

lemma refs_objdefr_rec [simp]: "refs (record_call (C_objdefr h) r s) = (refs s)(h := refs s h - 1)"
  by (auto simp: refs_def fun_eq_iff)

lemma refs_objclos_rec [simp]: "refs (record_call (C_objclos h) r s) = refs s"
  by (auto simp: refs_def fun_eq_iff)

lemma asio_tcp_recv_serving:
  assumes "serving E h" "receiving E" "get_pkt p s = Some k" "link k = h" "ncbs s h = Some n" "hld n = h"
  shows "\<exists>s'. asio_tcp_recv E (Some p) s = Some (0, s') \<and> same_store s s'
    \<and> events (trace s') = events (trace s) \<and> refs s' = refs s
    \<and> requests (trace s') = requests (trace s) @ [I_WSARecv (sockfd n) p (irp k) (size_for_req k)]
    \<and> set (trace s) \<subseteq> set (trace s')"
proof -
  let ?r = "e_sys E (trace s @ [Call (C_objrefr h) (e_sys E (trace s) (C_objrefr h))])
      (C_WSARecv (sockfd n) p (irp k) (size_for_req k))"
  have "e_sys E (trace s) (C_objrefr h) \<noteq> 0" using assms by (simp add: serving_def)
  moreover have "?r = 0 \<or> ?r = SOCKET_ERROR \<and> (\<forall>t. e_sys E t C_WSAGetLastError = ERROR_IO_PENDING)"
    using assms by (simp add: receiving_def)
  ultimately show ?thesis using assms
    by (elim disjE) (auto simp: asio_tcp_recv_def objrefr_serving sysc_def Let_def pending_retval_def
      objdefr_ncb_def objdefr_serving)
qed

lemma freepkt_heap:
  assumes "get_pkt p s = Some k" "pkt_page_style k = kVirtualHeap" "ori_buffer k = Ptr b 0"
    and "heap s b = Some (Bytes Crt buf)"
  shows "freepkt E (Some p) s = Some (s\<lparr>heap := (heap s)(b := None, p := None)\<rparr>)"
proof -
  have "p \<noteq> b" using get_pkt_heapD [OF assms(1)] assms(4) by auto
  then show ?thesis using assms
    by (simp add: freepkt_def free_bytes free_def get_pkt_heap_upd get_pkt_heapD fun_upd_twist)
qed

subsection \<open>One completion\<close>

lemma rx_inv_pkt:
  assumes "rx_inv E cb h n0 p xs s"
  obtains k n where "get_pkt p s = Some k" "ncbs s h = Some n" "link k = h" "hld n = h"
    "sockfd n = sockfd n0" "0 < size_for_req k"
proof -
  from assms obtain k n b buf where L: "rx_link cb h p k n b buf s" "same_link n n0"
    by (auto simp: rx_inv_def)
  with rx_inv_request [OF assms] that show ?thesis by (auto simp: rx_link_def same_link_def)
qed

text \<open>
  Where the packet of a waiting link lets the system write: from the end of the undelivered bytes,
  or from the start when these are in the large-block buffer, up to the end of the buffer.
\<close>

definition writes_into :: "handle \<Rightarrow> byte list \<Rightarrow> st \<Rightarrow> ptr \<Rightarrow> int \<Rightarrow> bool" where
  "writes_into h carry s q m \<longleftrightarrow> (\<exists>b off buf n. q = Ptr b off \<and> heap s b = Some (Bytes Crt buf)
     \<and> int (length buf) = TCP_RECV_BUFFER_SIZE \<and> 0 \<le> off \<and> 0 < m \<and> off + m = int (length buf)
     \<and> ncbs s h = Some n
     \<and> (if lb_data n = Null then off = int (length carry) \<and> take (length carry) buf = carry else off = 0))"

lemma rx_inv_writes:
  assumes I: "rx_inv E cb h n0 p carry s" and k: "get_pkt p s = Some k"
  shows "writes_into h carry s (irp k) (size_for_req k)"
proof -
  from I obtain n b buf where L: "rx_link cb h p k n b buf s"
    and C: "rx_small E cb k n b buf carry \<or> rx_large E cb k n b carry s"
    using k by (auto simp: rx_inv_def rx_link_def)
  have "0 < size_for_req k" using rx_inv_request [OF I] k by auto
  with L C show ?thesis
    by (auto simp: writes_into_def rx_link_def rx_small_def rx_large_def)
qed

theorem recv_completion:
  assumes A: "rx_ready E cb h n0 p carry bs s"
    and M: "mallocs E" and S: "serving E h" and R: "receiving E"
    and D: "rx_deframe E cb n0 (carry @ bs) = (fs, ys, True)"
  shows "\<exists>s' k'. tcp_dispatch_io_recv E (Some p) s = Some s' \<and> rx_inv E cb h n0 p ys s'
    \<and> events (trace s') = events (trace s) @ rx_events E n0 fs \<and> get_pkt p s' = Some k'
    \<and> requests (trace s') = requests (trace s) @ [I_WSARecv (sockfd n0) p (irp k') (size_for_req k')]
    \<and> 0 < size_for_req k' \<and> refs s' = refs s"
proof -
  from A obtain k n b buf where L: "rx_link cb h p k n b buf s" "0 < size_for_translation k"
    by (auto simp: rx_ready_def)
  let ?s1 = "record_call (C_objrefr h) (e_sys E (trace s) (C_objrefr h)) s"
  have rf: "tcprefr E (link k) s = Some ((0, Some h), ?s1)" "e_sys E (trace s) (C_objrefr h) \<noteq> 0"
    using L tcprefr_serving [OF S] S by (auto simp: rx_link_def serving_def)
  have "rx_ready E cb h n0 p carry bs ?s1" using A by (simp add: same_store_rx_ready [of s ?s1])
  from recv_block [OF this M] D obtain s2 where
    blk: "tcp_recv_block E h p ?s1 = Some (0, s2)" "rx_inv E cb h n0 p ys s2"
    and p2: "progress (rx_events E n0 fs) ?s1 s2" by (auto simp: rx_result_def)
  from rx_inv_pkt [OF blk(2)] obtain k2 n2 where
    g2: "get_pkt p s2 = Some k2" "ncbs s2 h = Some n2" "link k2 = h" "hld n2 = h"
    "sockfd n2 = sockfd n0" "0 < size_for_req k2" .
  from asio_tcp_recv_serving [OF S R g2(1,3,2,4)] obtain s3 where
    a: "asio_tcp_recv E (Some p) s2 = Some (0, s3)" "same_store s2 s3"
      "events (trace s3) = events (trace s2)" "refs s3 = refs s2"
      "requests (trace s3) = requests (trace s2) @ [I_WSARecv (sockfd n2) p (irp k2) (size_for_req k2)]"
    by blast
  have i3: "rx_inv E cb h n0 p ys (record_call (C_objdefr h) 0 s3)"
    using blk(2) same_store_rx_inv [of s2 "record_call (C_objdefr h) 0 s3"] a(2) by simp
  have n3: "ncbs s3 h = Some n2" using a(2) g2 by (simp add: same_store_def)
  have "tcp_dispatch_io_recv E (Some p) s = Some (record_call (C_objdefr h) 0 s3)"
    using L rf blk a(1) n3 g2 objdefr_serving [OF S]
    by (simp add: tcp_dispatch_io_recv_def rx_link_def objdefr_ncb_def)
  moreover have "get_pkt p (record_call (C_objdefr h) 0 s3) = Some k2"
    using a(2) g2(1) by (simp add: same_store_def get_pkt_def)
  ultimately show ?thesis
    using i3 a(3-5) progress_eqs [OF p2] rf(2) g2(5,6) by auto
qed

text \<open>
  A malformed header: what came before it is delivered, the link is closed, the receive
  packet and its buffer are freed, nothing more is requested.
\<close>

theorem recv_malformed:
  assumes A: "rx_ready E cb h n0 p carry bs s" and M: "mallocs E" and S: "serving E h"
    and D: "rx_deframe E cb n0 (carry @ bs) = (fs, ys, False)"
  shows "\<exists>s'. tcp_dispatch_io_recv E (Some p) s = Some s' \<and> heap s' p = None
    \<and> events (trace s') = events (trace s) @ rx_events E n0 fs
    \<and> Call (C_objclos h) 0 \<in> set (trace s')
    \<and> requests (trace s') = requests (trace s) \<and> refs s' = refs s"
proof -
  from A obtain k n b buf where L: "rx_link cb h p k n b buf s" "0 < size_for_translation k"
    by (auto simp: rx_ready_def)
  let ?s1 = "record_call (C_objrefr h) (e_sys E (trace s) (C_objrefr h)) s"
  have rf: "tcprefr E (link k) s = Some ((0, Some h), ?s1)" "e_sys E (trace s) (C_objrefr h) \<noteq> 0"
    using L tcprefr_serving [OF S] S by (auto simp: rx_link_def serving_def)
  have "rx_ready E cb h n0 p carry bs ?s1" using A by (simp add: same_store_rx_ready [of s ?s1])
  from recv_block [OF this M] D obtain r s2 k2 n2 b2 buf2 where
    blk: "tcp_recv_block E h p ?s1 = Some (r, s2)" "r < 0" "rx_link cb h p k2 n2 b2 buf2 s2"
    and p2: "progress (rx_events E n0 fs) ?s1 s2" by (auto simp: rx_result_def)
  let ?s3 = "record_call (C_objclos h) 0 s2"
  from blk(3) have g2: "get_pkt p ?s3 = Some k2" "pkt_page_style k2 = kVirtualHeap"
    "ori_buffer k2 = Ptr b2 0" "heap ?s3 b2 = Some (Bytes Crt buf2)" "ncbs s2 h = Some n2" "hld n2 = h"
    by (auto simp: rx_link_def)
  have "tcp_dispatch_io_recv E (Some p) s = Some (record_call (C_objdefr h) 0
      (?s3\<lparr>heap := (heap s2)(b2 := None, p := None)\<rparr>))"
    using L rf blk g2 freepkt_heap [OF g2(1-4)] objdefr_serving [OF S] objclos_serving [OF S]
    by (simp add: tcp_dispatch_io_recv_def rx_link_def objdefr_ncb_def objclos_ncb_def)
  then show ?thesis using progress_eqs [OF p2] rf(2) by auto
qed

subsection \<open>A whole stream\<close>

text \<open>
  \<open>net\<close> is what the peer sent and the program has not received yet. The system completes
  one request after the other; each completion carries at most as many bytes as asked for,
  and otherwise as many as \<open>ws\<close>, the whim of the network, says (at least one).
\<close>

fun rx_run :: "env \<Rightarrow> nat \<Rightarrow> nat list \<Rightarrow> byte list \<Rightarrow> st \<Rightarrow> (byte list \<times> st) option" where
  "rx_run E p [] net s = Some (net, s)"
| "rx_run E p (w # ws) net s =
     (if net = [] then Some (net, s)
      else do {
        k \<leftarrow> get_pkt p s;
        let m = min (max 1 w) (nat (size_for_req k));
        s1 \<leftarrow> rx_arrive p (take m net) s;
        s2 \<leftarrow> tcp_dispatch_io_recv E (Some p) s1;
        rx_run E p ws (drop m net) s2 })"

lemma rx_arrive_total:
  assumes I: "rx_inv E cb h n0 p carry s" and "get_pkt p s = Some k" "bs \<noteq> []"
    and "int (length bs) \<le> size_for_req k"
  shows "\<exists>s1. rx_arrive p bs s = Some s1"
proof -
  obtain b buf where
    r: "irp k = Ptr b (TCP_RECV_BUFFER_SIZE - size_for_req k)" "heap s b = Some (Bytes Crt buf)"
    "int (length buf) = TCP_RECV_BUFFER_SIZE" "size_for_req k \<le> TCP_RECV_BUFFER_SIZE"
    using rx_inv_request [OF I] assms(2) by (metis option.inject)
  have "p \<noteq> b" using get_pkt_heapD [OF assms(2)] r(2) by auto
  with r assms show ?thesis
    by (simp add: rx_arrive_def store_bytes get_pkt_heap_upd get_pkt_heapD)
qed

text \<open>The undelivered bytes hold no complete frame.\<close>

lemma rx_inv_deframe:
  assumes "rx_inv E cb h n0 p carry s"
  shows "rx_deframe E cb n0 carry = ([], carry, True)"
proof -
  from assms obtain k n b buf where L: "rx_link cb h p k n b buf s" and same: "same_link n n0"
    and C: "rx_small E cb k n b buf carry \<or> rx_large E cb k n b carry s"
    by (auto simp: rx_inv_def)
  from C have "rx_deframe E cb n carry = ([], carry, True)"
  proof
    assume S: "rx_small E cb k n b buf carry"
    then have "rx_scan E cb n carry = ([], carry, Incomplete)" by (simp add: rx_small_def)
    moreover from this have "int (length carry) \<le> TCP_RECV_BUFFER_SIZE"
      using scan_rest_fits [OF calculation] L by (auto simp: rx_link_def intro: less_imp_le)
    ultimately show ?thesis by (auto dest: scan_deframe)
  next
    assume "rx_large E cb k n b carry s"
    then show ?thesis using L deframe_incomplete [of cb carry]
      by (auto simp: rx_large_def rx_link_def)
  qed
  then show ?thesis using same_link_parser [OF same] by simp
qed

theorem recv_stream:
  assumes "rx_inv E cb h n0 p carry s" "mallocs E" "serving E h" "receiving E"
    and "rx_deframe E cb n0 (carry @ net) = (fs, ys, True)" "length net \<le> length ws"
  shows "\<exists>s'. rx_run E p ws net s = Some ([], s') \<and> rx_inv E cb h n0 p ys s'
    \<and> events (trace s') = events (trace s) @ rx_events E n0 fs \<and> refs s' = refs s"
  using assms
proof (induction ws arbitrary: carry net fs s)
  case Nil
  with rx_inv_deframe [OF Nil.prems(1)] show ?case by simp
next
  case (Cons w ws)
  show ?case
  proof (cases "net = []")
    case True
    with rx_inv_deframe [OF Cons.prems(1)] Cons.prems show ?thesis by simp
  next
    case False
    from rx_inv_pkt [OF Cons.prems(1)] obtain k where
      k: "get_pkt p s = Some k" "0 < size_for_req k" by metis
    define m where "m = min (max 1 w) (nat (size_for_req k))"
    define c where "c = take m net"
    have m: "1 \<le> m" "int m \<le> size_for_req k" using k by (auto simp: m_def)
    then have c: "c \<noteq> []" "int (length c) \<le> size_for_req k" "net = c @ drop m net"
      using False by (auto simp: c_def)
    from rx_arrive_total [OF Cons.prems(1) k(1) c(1,2)] obtain s1 where
      a: "rx_arrive p c s = Some s1" by blast
    note rdy = rx_arrive_ready [OF Cons.prems(1) a]
    obtain gs zs ok where d: "rx_deframe E cb n0 (carry @ c) = (gs, zs, ok)" by (metis prod_cases3)
    have ok: "ok"
    proof (rule ccontr)
      assume "\<not> ok"
      with d deframer.decode_failed [of cb TCP_MAXIMUM_PACKET_SIZE "rx_parser E n0" "carry @ c" gs zs "drop m net"]
      show False using Cons.prems(5) c(3) by auto
    qed
    obtain fs2 ys2 ok2 where d2: "rx_deframe E cb n0 (zs @ drop m net) = (fs2, ys2, ok2)"
      by (metis prod_cases3)
    from deframer.decode_resume [of cb _ "rx_parser E n0" "carry @ c" gs zs "drop m net"] d ok d2
      Cons.prems(5) c(3) have rest: "fs = gs @ fs2" "ys2 = ys" "ok2" by auto
    from recv_completion [OF rdy [THEN conjunct1] Cons.prems(2-4)] d ok obtain s2 where
      s2: "tcp_dispatch_io_recv E (Some p) s1 = Some s2" "rx_inv E cb h n0 p zs s2"
        "events (trace s2) = events (trace s1) @ rx_events E n0 gs" "refs s2 = refs s1" by auto
    have "length (drop m net) \<le> length ws" using Cons.prems(6) m by simp
    from Cons.IH [OF s2(2) Cons.prems(2-4) _ this, of fs2] d2 rest obtain s3 where
      "rx_run E p ws (drop m net) s2 = Some ([], s3)" "rx_inv E cb h n0 p ys s3"
      "events (trace s3) = events (trace s2) @ rx_events E n0 fs2" "refs s3 = refs s2" by auto
    moreover have "refs s1 = refs s" using rdy by (simp add: refs_def)
    ultimately show ?thesis
      using k False a s2 rdy rest(1)
      by (simp add: m_def [symmetric, simplified] c_def [symmetric] Let_def rx_events_append)
  qed
qed

end
