(* ===== verification/Tcp_Send_Queue.thy ===== *)
theory Tcp_Send_Queue
  imports Tcp_Recv_Main
begin

text \<open>
  The sender queue of a link: what \<open>tcp_try_write\<close> does in each state of the queue and of
  the write slot, and the invariant \<open>tx_inv\<close> it keeps.
\<close>

subsection \<open>One call of \<open>tcp_try_write\<close>\<close>

abbreviation set_ncb :: "handle \<Rightarrow> ncb_t \<Rightarrow> st \<Rightarrow> st" where
  "set_ncb h n s \<equiv> s\<lparr>ncbs := (ncbs s)(h \<mapsto> n)\<rparr>"

text \<open>
  The queue of an initialised link that nobody has locked: the packets \<open>q\<close>, fewer than the
  limit, and \<open>w\<close> writers in the slot.
\<close>

definition sender :: "handle \<Rightarrow> ncb_t \<Rightarrow> nat list \<Rightarrow> int \<Rightarrow> bool" where
  "sender h n q w \<longleftrightarrow> hld n = h \<and> tcp_sender_cache_head n = Some q
     \<and> tcp_sender_list_size n = int (length q) \<and> length q < 500
     \<and> tcp_sender_locker n = Some 0 \<and> tcp_write_pending n = w"

lemma write_slot_free:
  "ncbs s h = Some n \<Longrightarrow> tcp_write_pending n = 0 \<Longrightarrow>
   write_slot h s = Some (True, set_ncb h (n\<lparr>tcp_write_pending := 1\<rparr>) s)"
  by (subst write_slot.simps) (simp add: i32_def)

lemma write_slot_taken:
  "ncbs s h = Some n \<Longrightarrow> 1 \<le> tcp_write_pending n \<Longrightarrow> tcp_write_pending n < 2 ^ 31 - 1 \<Longrightarrow>
   write_slot h s = Some (False, s)"
  by (subst write_slot.simps) (cases n, simp add: i32_def fun_upd_idem)

text \<open>Nothing is in progress: the head of the queue, with the new packet added, is sent.\<close>

lemma set_ncb_id: "ncbs s h = Some n \<Longrightarrow> set_ncb h n s = s"
  by (simp add: fun_upd_idem)

lemma try_write_send:
  assumes n: "ncbs s h = Some n" "sender h n q 0" and new: "case packet of Some p \<Rightarrow> length q < 499 | None \<Rightarrow> True"
    and q: "q @ (case packet of Some p \<Rightarrow> [p] | None \<Rightarrow> []) = x # rest"
  shows "tcp_try_write E (Some h) packet s = do {
     (r, s1) \<leftarrow> asio_tcp_send E (Some x) (set_ncb h (n\<lparr>tcp_sender_cache_head := Some rest,
       tcp_sender_list_size := int (length rest), tcp_write_pending := 1\<rparr>) s);
     s2 \<leftarrow> (if r < 0 then tcp_shutdown_by_packet E (Some x) s1 else Some s1);
     Some (0, s2) }"
proof (cases packet)
  case None
  with q have "q = x # rest" by simp
  with n None show ?thesis
    by (cases n) (simp add: tcp_try_write_def EnterCriticalSection_def LeaveCriticalSection_def
        try_enqueue_def pop_sender_def sender_def write_slot_free)
next
  case (Some p)
  with n new have c: "int (length q) + 1 < 500" "0 \<le> int (length q)" by auto
  from q Some have len: "length q = length rest" by (metis One_nat_def add_right_cancel length_append
    length_Cons list.size(3,4) option.simps(5))
  from n Some c q len show ?thesis
    by (cases n) (simp add: tcp_try_write_def EnterCriticalSection_def LeaveCriticalSection_def
        try_enqueue_def pop_sender_def sender_def write_slot_free TCP_MAXIMUM_SENDER_CACHED_CNT_PRE_LINK_def)
qed

text \<open>A send is in progress: the packet waits.\<close>

lemma try_write_wait:
  assumes "ncbs s h = Some n" "sender h n q 1" "length q < 499"
  shows "tcp_try_write E (Some h) (Some p) s = Some (0, set_ncb h (n\<lparr>tcp_sender_cache_head := Some (q @ [p]),
       tcp_sender_list_size := int (length q) + 1\<rparr>) s)"
proof -
  have "int (length q) + 1 < 500" using assms by simp
  with assms show ?thesis
  by (cases n) (simp add: tcp_try_write_def EnterCriticalSection_def LeaveCriticalSection_def
        try_enqueue_def sender_def write_slot_taken TCP_MAXIMUM_SENDER_CACHED_CNT_PRE_LINK_def)
qed

text \<open>The queue holds 499 packets, the most it ever holds: the packet is refused.\<close>

lemma try_write_refuse:
  assumes "ncbs s h = Some n" "sender h n q w" "\<not> length q < 499"
  shows "tcp_try_write E (Some h) (Some p) s = Some (- 1, s)"
proof -
  have "length q = 499" using assms by (simp add: sender_def)
  with assms show ?thesis
  by (cases n) (simp add: tcp_try_write_def EnterCriticalSection_def LeaveCriticalSection_def
        try_enqueue_def sender_def TCP_MAXIMUM_SENDER_CACHED_CNT_PRE_LINK_def set_ncb_id)
qed

text \<open>Nothing to send.\<close>

lemma try_write_empty:
  assumes "ncbs s h = Some n" "sender h n [] w"
  shows "tcp_try_write E (Some h) None s = Some (- 1, s)"
  using assms
  by (cases n) (simp add: tcp_try_write_def EnterCriticalSection_def LeaveCriticalSection_def
        try_enqueue_def sender_def set_ncb_id)

subsection \<open>The packets of the queue\<close>

text \<open>
  An item is a packet, its buffer and the bytes in it. \<open>owns\<close>: the packet was built by
  \<open>tcp_write\<close> for the link \<open>h\<close> and nothing was taken from it.
\<close>

type_synonym item = "nat \<times> nat \<times> byte list"

abbreviation item_pkt :: "item \<Rightarrow> nat" where "item_pkt i \<equiv> fst i"
abbreviation item_bytes :: "item \<Rightarrow> byte list" where "item_bytes i \<equiv> snd (snd i)"

definition owns :: "handle \<Rightarrow> st \<Rightarrow> item \<Rightarrow> bool" where
  "owns h s i \<longleftrightarrow> (case i of (p, b, bs) \<Rightarrow> \<exists>k. heap s p = Some (Pkt k) \<and> link k = h \<and> pkt_kind k = kSend
     \<and> pkt_page_style k = kNoAccess \<and> grp_packets_cnt k = 0 \<and> ori_buffer k = Ptr b 0
     \<and> irp k = Ptr b 0 \<and> heap s b = Some (Bytes Crt bs) \<and> size_for_req k = int (length bs))"

definition blocks :: "item list \<Rightarrow> nat list" where
  "blocks is = map fst is @ map (\<lambda>i. fst (snd i)) is"

lemma owns_frame: "owns h s i \<Longrightarrow> (\<And>b. b \<in> set (blocks [i]) \<Longrightarrow> heap s' b = heap s b) \<Longrightarrow> owns h s' i"
  by (auto simp: owns_def blocks_def)

definition tx_items :: "item option \<Rightarrow> item list \<Rightarrow> item list" where
  "tx_items fl q = (case fl of None \<Rightarrow> [] | Some i \<Rightarrow> [i]) @ q"

lemma tx_items_simps [simp]:
  "tx_items None q = q" "tx_items (Some i) q = i # q"
  by (simp_all add: tx_items_def)

text \<open>
  The state of the sending side between two operations: \<open>fl\<close> is in flight, \<open>q\<close> waits.
  Nothing waits while nothing is in flight.
\<close>

definition tx_inv :: "handle \<Rightarrow> ncb_t \<Rightarrow> item option \<Rightarrow> item list \<Rightarrow> st \<Rightarrow> bool" where
  "tx_inv h n0 fl q s \<longleftrightarrow> (\<exists>n. ncbs s h = Some n \<and> same_link n n0
      \<and> sender h n (map fst q) (if fl = None then 0 else 1))
     \<and> 0 \<le> h \<and> proto_type n0 = kProto_TCP \<and> (fl = None \<longrightarrow> q = []) \<and> wf_heap s
     \<and> (\<forall>i \<in> set (tx_items fl q). owns h s i) \<and> distinct (blocks (tx_items fl q))"

definition sending :: "env \<Rightarrow> bool" where
  "sending E \<longleftrightarrow> (\<forall>t sk p bs. e_sys E t (C_WSASend sk p bs) = 0
     \<or> e_sys E t (C_WSASend sk p bs) = SOCKET_ERROR
       \<and> (\<forall>t. e_sys E t C_WSAGetLastError = ERROR_IO_PENDING))"

lemma asio_tcp_send_serving:
  assumes "serving E h" "sending E" "owns h s (p, b, bs)" "ncbs s h = Some n" "hld n = h"
  shows "\<exists>s'. asio_tcp_send E (Some p) s = Some (0, s') \<and> same_store s s'
    \<and> events (trace s') = events (trace s) \<and> refs s' = refs s
    \<and> requests (trace s') = requests (trace s) @ [I_WSASend (sockfd n) p bs]"
proof -
  from assms(3) obtain k where k: "get_pkt p s = Some k" "link k = h" "irp k = Ptr b 0"
    "heap s b = Some (Bytes Crt bs)" "size_for_req k = int (length bs)"
    by (auto simp: owns_def get_pkt_def)
  have ld: "load (Ptr b 0) (int (length bs)) s = Some bs" using k by (simp add: load_bytes)
  let ?r = "e_sys E (trace s @ [Call (C_objrefr h) (e_sys E (trace s) (C_objrefr h))])
      (C_WSASend (sockfd n) p bs)"
  have "e_sys E (trace s) (C_objrefr h) \<noteq> 0" using assms by (simp add: serving_def)
  moreover have "?r = 0 \<or> ?r = SOCKET_ERROR \<and> (\<forall>t. e_sys E t C_WSAGetLastError = ERROR_IO_PENDING)"
    using assms by (simp add: sending_def)
  ultimately show ?thesis using assms(1,4,5) k ld
    by (elim disjE) (auto simp: asio_tcp_send_def objrefr_serving sysc_def Let_def pending_retval_def
      objdefr_ncb_def objdefr_serving)
qed

end
