(* ===== verification/Tcp_Send_Correct.thy ===== *)
theory Tcp_Send_Correct
  imports Tcp_Send_Queue
begin

text \<open>
  The sending side of a link as a FIFO channel: what writing a packet and completing a send
  do to the items in flight and waiting.
\<close>

lemma same_store_owns: "same_store s s' \<Longrightarrow> owns h s' i = owns h s i"
  by (simp add: owns_def same_store_def)

lemma same_store_tx_inv: "same_store s s' \<Longrightarrow> tx_inv h n fl q s' = tx_inv h n fl q s"
  by (simp add: tx_inv_def same_store_owns [of s s'] wf_heap_def) (simp add: same_store_def)

lemma owns_set_ncb [simp]: "owns h (s\<lparr>ncbs := N\<rparr>) i = owns h s i"
  by (simp add: owns_def)

lemma blocks_simps [simp]:
  "set (blocks (i # is)) = {fst i, fst (snd i)} \<union> set (blocks is)" "blocks [] = []"
  "set (blocks (is @ js)) = set (blocks is) \<union> set (blocks js)"
  by (auto simp: blocks_def)

lemma distinct_blocks [simp]:
  "distinct (blocks (i # is)) \<longleftrightarrow> fst i \<noteq> fst (snd i) \<and> distinct (blocks is)
     \<and> {fst i, fst (snd i)} \<inter> set (blocks is) = {}"
  "distinct (blocks (is @ [i])) \<longleftrightarrow> fst i \<noteq> fst (snd i) \<and> distinct (blocks is)
     \<and> {fst i, fst (snd i)} \<inter> set (blocks is) = {}"
  by (auto simp: blocks_def)

lemma item_blocks: "i \<in> set is \<Longrightarrow> fst i \<in> set (blocks is) \<and> fst (snd i) \<in> set (blocks is)"
  by (auto simp: blocks_def)

lemma owns_upd:
  "owns h s i \<Longrightarrow> i \<in> set is \<Longrightarrow> b \<notin> set (blocks is) \<Longrightarrow> owns h (s\<lparr>heap := (heap s)(b := x)\<rparr>) i"
  by (rule owns_frame) (auto dest: item_blocks)

text \<open>The requests the operation made; nothing else of the state's history changed.\<close>

definition requested :: "io_call list \<Rightarrow> st \<Rightarrow> st \<Rightarrow> bool" where
  "requested rs s s' \<longleftrightarrow> requests (trace s') = requests (trace s) @ rs
     \<and> events (trace s') = events (trace s) \<and> refs s' = refs s"

lemma try_write_item:
  assumes I: "tx_inv h n0 fl q s" and O: "owns h s i" "distinct (blocks [i])"
    "set (blocks [i]) \<inter> set (blocks (tx_items fl q)) = {}"
    and S: "serving E h" "sending E" and room: "length q < 499"
  shows "\<exists>s'. tcp_try_write E (Some h) (Some (item_pkt i)) s = Some (0, s') \<and> heap s' = heap s
    \<and> (if fl = None then tx_inv h n0 (Some i) [] s'
         \<and> requested [I_WSASend (sockfd n0) (item_pkt i) (item_bytes i)] s s'
       else tx_inv h n0 fl (q @ [i]) s' \<and> requested [] s s')"
proof -
  from I obtain n where n: "ncbs s h = Some n" "same_link n n0"
    "sender h n (map fst q) (if fl = None then 0 else 1)" by (auto simp: tx_inv_def)
  obtain p b bs where i: "i = (p, b, bs)" by (cases i)
  show ?thesis
  proof (cases fl)
    case None
    with I have q: "q = []" by (simp add: tx_inv_def)
    define n' where "n' = n\<lparr>tcp_sender_cache_head := Some [], tcp_sender_list_size := 0,
        tcp_write_pending := 1\<rparr>"
    let ?s = "set_ncb h n' s"
    have n': "ncbs ?s h = Some n'" "hld n' = h" "sockfd n' = sockfd n0" "same_link n' n0"
      "sender h n' [] 1"
      using n q None by (auto simp: n'_def same_link_def sender_def)
    from asio_tcp_send_serving [OF S, of ?s p b bs n'] O n' i obtain s1 where
      a: "asio_tcp_send E (Some p) ?s = Some (0, s1)" "same_store ?s s1"
        "events (trace s1) = events (trace s)" "refs s1 = refs s"
        "requests (trace s1) = requests (trace s) @ [I_WSASend (sockfd n0) p bs]" by auto
    have "tcp_try_write E (Some h) (Some p) s = Some (0, s1)"
      using try_write_send [OF n(1), of "[]" "Some p" p "[]" E] n q None a
      by (simp add: n'_def)
    moreover have "tx_inv h n0 (Some i) [] ?s"
      using I n' O i None q by (auto simp: tx_inv_def)
    ultimately show ?thesis
      using a None i same_store_tx_inv [OF a(2)] by (auto simp: requested_def same_store_def)
  next
    case (Some j)
    define n' where "n' = n\<lparr>tcp_sender_cache_head := Some (map fst (q @ [i])),
        tcp_sender_list_size := int (length q) + 1\<rparr>"
    let ?s = "set_ncb h n' s"
    have n': "same_link n' n0" "sender h n' (map fst (q @ [i])) 1"
      using n Some room by (auto simp: n'_def same_link_def sender_def)
    have "tcp_try_write E (Some h) (Some p) s = Some (0, ?s)"
      using try_write_wait [OF n(1), of "map fst q" E p] n room Some i by (simp add: n'_def)
    moreover have "tx_inv h n0 fl (q @ [i]) ?s"
      using I n' O i Some
      by (auto simp: tx_inv_def)
    ultimately show ?thesis using Some i by (auto simp: requested_def)
  qed
qed

text \<open>Freeing a sent packet.\<close>

lemma freepkt_item:
  assumes "owns h s (p, b, bs)" "p \<noteq> b"
  shows "freepkt E (Some p) s = Some (s\<lparr>heap := (heap s)(b := None, p := None)\<rparr>)"
  using assms
  by (auto simp: owns_def freepkt_def get_pkt_def free_def get_pkt_heap_upd mod_pkt_def fun_upd_twist)

text \<open>
  The system completes the send in flight: the worker notes how many bytes went out.
\<close>

definition tx_done :: "nat \<Rightarrow> int \<Rightarrow> st \<Rightarrow> st option" where
  "tx_done p m s = mod_pkt p (\<lambda>k. k\<lparr>size_for_translation := m\<rparr>) s"

lemma tx_done_inv:
  assumes I: "tx_inv h n0 (Some (p, b, bs)) q s"
  shows "\<exists>s1 k. tx_done p m s = Some s1 \<and> tx_inv h n0 (Some (p, b, bs)) q s1 \<and> get_pkt p s1 = Some k
    \<and> size_for_translation k = m \<and> trace s1 = trace s \<and> (\<forall>x. x \<noteq> p \<longrightarrow> heap s1 x = heap s x)"
proof -
  from I obtain k where k: "heap s p = Some (Pkt k)" and O: "owns h s (p, b, bs)"
    and pb: "p \<noteq> b" "p \<notin> set (blocks q)"
    by (auto simp: tx_inv_def owns_def)
  let ?k = "k\<lparr>size_for_translation := m\<rparr>"
  let ?s = "s\<lparr>heap := (heap s)(p \<mapsto> Pkt ?k)\<rparr>"
  have "tx_done p m s = Some ?s" using k by (simp add: tx_done_def get_pkt_def)
  moreover have "owns h ?s (p, b, bs)" using O k pb by (auto simp: owns_def)
  moreover have "\<forall>i \<in> set q. owns h ?s i"
    using I pb by (auto simp: tx_inv_def owns_upd)
  moreover have "wf_heap ?s"
    using I k wf_heap_fresh [of s p] by (auto simp: tx_inv_def intro: wf_heap_upd)
  ultimately show ?thesis using I k by (auto simp: tx_inv_def get_pkt_def)
qed

theorem send_completion:
  assumes I: "tx_inv h n0 (Some (p, b, bs)) q s" and S: "serving E h" "sending E"
    and k: "get_pkt p s = Some k" "0 < size_for_translation k"
  shows "\<exists>s'. tcp_dispatch_io_send E (Some p) s = Some s' \<and> heap s' = (heap s)(b := None, p := None)
    \<and> (case q of
         [] \<Rightarrow> tx_inv h n0 None [] s' \<and> requested [] s s'
       | i # q' \<Rightarrow> tx_inv h n0 (Some i) q' s'
           \<and> requested [I_WSASend (sockfd n0) (item_pkt i) (item_bytes i)] s s')"
proof -
  from I obtain n where n: "ncbs s h = Some n" "same_link n n0" "sender h n (map fst q) 1"
    by (auto simp: tx_inv_def)
  have O: "owns h s (p, b, bs)" "p \<noteq> b" and h: "0 \<le> h" "proto_type n = kProto_TCP" "hld n = h"
    using I n by (auto simp: tx_inv_def same_link_def sender_def)
  have lk: "link k = h" using O k by (auto simp: owns_def get_pkt_def)
  define s1 where "s1 = record_call (C_objrefr h) (e_sys E (trace s) (C_objrefr h)) s"
  have rf: "tcprefr E (link k) s = Some ((0, Some h), s1)" "e_sys E (trace s) (C_objrefr h) \<noteq> 0"
    using tcprefr_serving [OF S(1) n(1)] S h lk by (auto simp: s1_def serving_def)
  define n1 where "n1 = n\<lparr>tcp_write_pending := 0\<rparr>"
  define s2 where "s2 = set_ncb h n1 s1"
  have n1: "ncbs s2 h = Some n1" "sender h n1 (map fst q) 0" "same_link n1 n0"
    using n by (auto simp: s2_def n1_def sender_def same_link_def)
  have dec: "mod_ncb h (\<lambda>n. n\<lparr>tcp_write_pending := i32 (tcp_write_pending n - 1)\<rparr>) s1 = Some s2"
    using n by (simp add: s1_def s2_def n1_def sender_def)
  have disj: "p \<notin> set (blocks q)" "b \<notin> set (blocks q)" "distinct (blocks q)"
    using I by (auto simp: tx_inv_def)
  have kept: "\<forall>j \<in> set q. owns h (t\<lparr>heap := (heap t)(b := None, p := None)\<rparr>) j"
    "wf_heap (t\<lparr>heap := (heap t)(b := None, p := None)\<rparr>)" if "heap t = heap s" "nextb t = nextb s" for t
  proof -
    have "owns h t j" if "j \<in> set q" for j using I that \<open>heap t = heap s\<close> by (auto simp: tx_inv_def owns_def)
    then show "\<forall>j \<in> set q. owns h (t\<lparr>heap := (heap t)(b := None, p := None)\<rparr>) j"
      using disj owns_upd [of h "t\<lparr>heap := (heap t)(b := None)\<rparr>" _ q p None] owns_upd [of h t _ q b None]
      by auto
    show "wf_heap (t\<lparr>heap := (heap t)(b := None, p := None)\<rparr>)"
      using I that by (auto simp: tx_inv_def wf_heap_def)
  qed
  have run: "tcp_dispatch_io_send E (Some p) s = do {
      (_, s3) \<leftarrow> tcp_try_write E (Some h) None s2; s4 \<leftarrow> freepkt E (Some p) s3; objdefr E h s4 }"
    using k rf dec lk by (simp add: tcp_dispatch_io_send_def)
  show ?thesis
  proof (cases q)
    case Nil
    have "tcp_try_write E (Some h) None s2 = Some (- 1, s2)"
      using try_write_empty [OF n1(1)] n1(2) Nil by simp
    moreover have "owns h s2 (p, b, bs)" using O by (simp add: s2_def s1_def owns_def)
    ultimately have r: "tcp_dispatch_io_send E (Some p) s =
        Some (record_call (C_objdefr h) 0 (s2\<lparr>heap := (heap s2)(b := None, p := None)\<rparr>))"
      using run freepkt_item O objdefr_serving [OF S(1)] by simp
    have "tx_inv h n0 None [] (s2\<lparr>heap := (heap s2)(b := None, p := None)\<rparr>)"
      using n1 Nil I kept [of s2] by (auto simp: tx_inv_def s2_def s1_def)
    then have "tx_inv h n0 None [] (record_call (C_objdefr h) 0 (s2\<lparr>heap := (heap s2)(b := None, p := None)\<rparr>))"
      by (subst same_store_tx_inv [OF _]) simp_all
    with r Nil rf show ?thesis by (auto simp: requested_def s2_def s1_def)
  next
    case (Cons i q')
    obtain p' b' bs' where i: "i = (p', b', bs')" by (cases i)
    define n2 where "n2 = n1\<lparr>tcp_sender_cache_head := Some (map fst q'),
        tcp_sender_list_size := int (length q'), tcp_write_pending := 1\<rparr>"
    let ?s3 = "set_ncb h n2 s2"
    have n2: "ncbs ?s3 h = Some n2" "hld n2 = h" "sockfd n2 = sockfd n0" "same_link n2 n0"
      "sender h n2 (map fst q') 1"
      using n1 Cons by (auto simp: n2_def same_link_def sender_def)
    have own: "owns h ?s3 (p', b', bs')" using I Cons i by (simp add: tx_inv_def s2_def s1_def owns_def)
    from asio_tcp_send_serving [OF S own n2(1,2)] n2(3) obtain s4 where
      a: "asio_tcp_send E (Some p') ?s3 = Some (0, s4)" "same_store ?s3 s4"
        "events (trace s4) = events (trace s2)" "refs s4 = refs s2"
        "requests (trace s4) = requests (trace s2) @ [I_WSASend (sockfd n0) p' bs']" by auto
    have tw: "tcp_try_write E (Some h) None s2 = Some (0, s4)"
      using try_write_send [OF n1(1), of "map fst q" None p' "map fst q'" E] n1 Cons a i by (simp add: n2_def)
    have o4: "owns h s4 (p, b, bs)"
      using O same_store_owns [OF a(2)] by (simp add: s2_def s1_def owns_def)
    have e4: "heap s4 = heap s" "nextb s4 = nextb s" "ncbs s4 h = Some n2"
      using a(2) by (auto simp: same_store_def s2_def s1_def)
    have r: "tcp_dispatch_io_send E (Some p) s =
        Some (record_call (C_objdefr h) 0 (s4\<lparr>heap := (heap s4)(b := None, p := None)\<rparr>))"
      using run tw freepkt_item [OF o4] O objdefr_serving [OF S(1)] by simp
    have "tx_inv h n0 (Some i) q' (s4\<lparr>heap := (heap s4)(b := None, p := None)\<rparr>)"
      using n2 Cons I kept [OF e4(1,2)] e4 by (auto simp: tx_inv_def)
    then have "tx_inv h n0 (Some i) q' (record_call (C_objdefr h) 0 (s4\<lparr>heap := (heap s4)(b := None, p := None)\<rparr>))"
      by (subst same_store_tx_inv [OF _]) simp_all
    with r Cons rf i a(3-5) e4 show ?thesis by (auto simp: requested_def s2_def s1_def)
  qed
qed

end
