(* ===== verification/Tcp_Write.thy ===== *)
theory Tcp_Write
  imports Tcp_Send_Correct
begin

text \<open>
  \<open>tcp_write\<close>: the frame it builds from the user's data, and what becomes of it.
\<close>

subsection \<open>The buffer\<close>

definition frame_of :: "env \<Rightarrow> ncb_t \<Rightarrow> byte list \<Rightarrow> byte list" where
  "frame_of E n data =
     (if builder (tcp_tst n) = 0 \<or> attr n AND LINKATTR_TCP_NO_BUILD (e_nis E) \<noteq> 0 then data
      else snd (e_builder E (builder (tcp_tst n)) (int (length data))) @ data)"

text \<open>The builder of the link, when it is used, succeeds and writes a header of \<open>cb\<close> bytes.\<close>

definition builds :: "env \<Rightarrow> ncb_t \<Rightarrow> int \<Rightarrow> bool" where
  "builds E n len \<longleftrightarrow> builder (tcp_tst n) = 0 \<or> attr n AND LINKATTR_TCP_NO_BUILD (e_nis E) \<noteq> 0
     \<or> (case e_builder E (builder (tcp_tst n)) len of (r, hdr) \<Rightarrow>
          0 \<le> r \<and> int (length hdr) = tst_cb (tcp_tst n) \<and> tst_cb (tcp_tst n) \<le> TCP_RECV_BUFFER_SIZE)"

definition allocating :: "env \<Rightarrow> bool" where
  "allocating E \<longleftrightarrow> mallocs E \<and> (\<forall>t tag. e_sys E t (C_new tag) \<noteq> 0)"

lemma overwrite_whole: "length ys = length xs \<Longrightarrow> overwrite xs 0 ys = ys"
  by (simp add: overwrite_def)

lemma overwrite_parts:
  "length xs = length a + length c \<Longrightarrow> overwrite (overwrite xs 0 a) (length a) c = a @ c"
  by (simp add: overwrite_def)

lemma build_buffer:
  assumes n: "ncbs s h = Some n" and M: "mallocs E" and B: "builds E n (int (length data))"
    and len: "data \<noteq> []" "int (length data) \<le> TCP_MAXIMUM_PACKET_SIZE"
  shows "tcp_build_buffer E h data (int (length data)) 0 s =
    Some ((True, Ptr (nextb s) 0, int (length (frame_of E n data))),
      (record_call (C_malloc (length (frame_of E n data)))
          (e_sys E (trace s) (C_malloc (length (frame_of E n data)))) s)
        \<lparr>heap := (heap s)(nextb s \<mapsto> Bytes Crt (frame_of E n data)), nextb := Suc (nextb s)\<rparr>)"
proof (cases "builder (tcp_tst n) = 0 \<or> attr n AND LINKATTR_TCP_NO_BUILD (e_nis E) \<noteq> 0")
  case True
  then have f: "frame_of E n data = data" by (auto simp: frame_of_def)
  have sz: "size_t (int (length data)) = length data" using len by (simp add: MAX_value)
  show ?thesis unfolding f
    using n True sz
    by (auto simp: tcp_build_buffer_def malloc_ok [OF M] Let_def fill_payload_def copy_origin_def
        store_bytes overwrite_whole)
next
  case False
  obtain r0 hdr where b: "e_builder E (builder (tcp_tst n)) (int (length data)) = (r0, hdr)" by fastforce
  with B False have hdr: "0 \<le> r0" "int (length hdr) = tst_cb (tcp_tst n)"
    "tst_cb (tcp_tst n) \<le> TCP_RECV_BUFFER_SIZE" by (auto simp: builds_def)
  have f: "frame_of E n data = hdr @ data" using False b by (simp add: frame_of_def)
  have i: "int32 (tst_cb (tcp_tst n) + int (length data)) = Some (int (length hdr + length data))"
    "size_t (int (length hdr + length data)) = length hdr + length data"
    using hdr len by (simp_all add: MAX_value BUF_value)
  show ?thesis unfolding f
    using n False i b hdr(1) hdr(2) [symmetric]
    by (auto simp: tcp_build_buffer_def malloc_ok [OF M] Let_def fill_payload_def copy_origin_def
        store_bytes overwrite_parts simp del: of_nat_add)
qed

lemma alloc_send_packet:
  assumes "allocating E" "0 \<le> h"
  shows "allocate_packet E h kProto_TCP kSend 0 kNoAccess s = Some ((0, Some (nextb s)),
    (record_call (C_new ''packet_t'') (e_sys E (trace s) (C_new ''packet_t'')) s)
      \<lparr>heap := (heap s)(nextb s \<mapsto> Pkt (packet_init h kProto_TCP kSend 0 kNoAccess Null)),
       nextb := Suc (nextb s)\<rparr>)"
  using assms
  by (simp add: allocate_packet_def malloc_new_def sysc_def allocating_def alloc_obj_def Let_def
      packet_buffer_def get_pkt_heap_upd)

subsection \<open>The write\<close>

lemma tx_inv_grow:
  assumes "tx_inv h n0 fl q s" "wf_heap s'" "ncbs s' h = ncbs s h"
    and "\<And>b. b < nextb s \<Longrightarrow> heap s' b = heap s b"
  shows "tx_inv h n0 fl q s'"
proof -
  have "owns h s' i" if "i \<in> set (tx_items fl q)" for i
  proof -
    from assms(1) that have o: "owns h s i" "wf_heap s" by (auto simp: tx_inv_def)
    then have "fst i < nextb s" "fst (snd i) < nextb s"
      using wf_heap_fresh [of s] by (auto simp: owns_def)
    then show ?thesis using owns_frame [OF o(1), of s'] assms(4) by auto
  qed
  with assms show ?thesis by (auto simp: tx_inv_def)
qed

text \<open>Up to \<open>tcp_try_write\<close>: a new packet \<open>p\<close> with the frame in a new buffer \<open>b\<close>.\<close>

lemma write_built:
  assumes I: "tx_inv h n0 fl q s" and S: "serving E h" "allocating E"
    and B: "builds E n0 (int (length data))" and hd: "h \<noteq> INVALID_HTCPLINK (e_nis E)"
    and len: "data \<noteq> []" "int (length data) \<le> TCP_MAXIMUM_PACKET_SIZE"
  obtains n p b k s4 where "tcp_write E h (Some data) (int (length data)) 0 s = do {
       (r, s5) \<leftarrow> tcp_try_write E (Some h) (Some p) s4;
       s6 \<leftarrow> (if r < 0 then freepkt E (Some p) s5 else Some s5);
       s7 \<leftarrow> objdefr_ncb E h s6;
       Some (r, s7) }"
    and "ncbs s4 h = Some n" "hld n = h" "sender h n (map fst q) (if fl = None then 0 else 1)"
    and "owns h s4 (p, b, frame_of E n0 data)" "p \<noteq> b" "nextb s \<le> b" "nextb s \<le> p"
    and "heap s4 = (heap s)(b \<mapsto> Bytes Crt (frame_of E n0 data), p \<mapsto> Pkt k)" "ncbs s4 = ncbs s"
    and "wf_heap s4" "requests (trace s4) = requests (trace s)" "events (trace s4) = events (trace s)"
    and "refs s4 = (refs s)(h := refs s h + 1)"
proof -
  from I obtain n where n: "ncbs s h = Some n" "same_link n n0"
    and snd: "sender h n (map fst q) (if fl = None then 0 else 1)"
    and P: "proto_type n = kProto_TCP" "0 \<le> h" "length q < 500"
    "tcp_sender_list_size n = int (length q)" "hld n = h" and W: "wf_heap s"
    by (auto simp: tx_inv_def sender_def same_link_def)
  have fn: "frame_of E n data = frame_of E n0 data" "builds E n (int (length data))"
    using n(2) B by (auto simp: frame_of_def builds_def same_link_def)
  let ?f = "frame_of E n0 data"
  define s1 where "s1 = record_call (C_objrefr h) (e_sys E (trace s) (C_objrefr h)) s"
  have rf: "tcprefr E h s = Some ((0, Some h), s1)" "e_sys E (trace s) (C_objrefr h) \<noteq> 0"
    using tcprefr_serving [OF S(1) n(1)] S P by (auto simp: s1_def serving_def)
  obtain s2 where bb: "tcp_build_buffer E h data (int (length data)) 0 s1 =
      Some ((True, Ptr (nextb s) 0, int (length ?f)), s2)"
    and s2: "heap s2 = (heap s)(nextb s \<mapsto> Bytes Crt ?f)" "nextb s2 = Suc (nextb s)"
      "ncbs s2 = ncbs s" "requested [] s1 s2"
    using build_buffer [OF _ _ fn(2) len, of s1 h] n S(2) fn(1)
    by (auto simp: s1_def allocating_def requested_def)
  obtain s3 where al: "allocate_packet E h kProto_TCP kSend 0 kNoAccess s2 = Some ((0, Some (nextb s2)), s3)"
    and s3: "heap s3 = (heap s2)(nextb s2 \<mapsto> Pkt (packet_init h kProto_TCP kSend 0 kNoAccess Null))"
      "nextb s3 = Suc (nextb s2)" "ncbs s3 = ncbs s" "requested [] s2 s3"
    using alloc_send_packet [OF S(2) P(2), of s2] s2(3) by (auto simp: requested_def)
  define k where "k = (packet_init h kProto_TCP kSend 0 kNoAccess Null)\<lparr>ori_buffer := Ptr (nextb s) 0,
      irp := Ptr (nextb s) 0, size_for_req := int (length ?f)\<rparr>"
  let ?p = "Suc (nextb s)" and ?b = "nextb s"
  define s4 where "s4 = s3\<lparr>heap := (heap s3)(?p \<mapsto> Pkt k)\<rparr>"
  have md: "mod_pkt (nextb s2) (\<lambda>k. k\<lparr>ori_buffer := Ptr (nextb s) 0, irp := Ptr (nextb s) 0,
      size_for_req := int (length ?f)\<rparr>) s3 = Some s4"
    using s3 s2 by (simp add: s4_def k_def get_pkt_def)
  have h4: "heap s4 = (heap s)(?b \<mapsto> Bytes Crt ?f, ?p \<mapsto> Pkt k)"
    "nextb s4 = Suc ?p" "ncbs s4 = ncbs s" "requested [] s3 s4"
    using s2 s3 by (auto simp: s4_def fun_upd_twist requested_def)
  show thesis
  proof (rule that [of ?p s4 n ?b k])
    show "tcp_write E h (Some data) (int (length data)) 0 s = do {
       (r, s5) \<leftarrow> tcp_try_write E (Some h) (Some ?p) s4;
       s6 \<leftarrow> (if r < 0 then freepkt E (Some ?p) s5 else Some s5);
       s7 \<leftarrow> objdefr_ncb E h s6;
       Some (r, s7) }"
      using len hd rf(1) n P bb al md s2(2)
      by (cases "tcp_try_write E (Some h) (Some ?p) s4")
        (auto simp: tcp_write_def s1_def TCP_MAXIMUM_SENDER_CACHED_CNT_PRE_LINK_def)
    show "owns h s4 (?p, ?b, ?f)" by (simp add: owns_def h4 k_def packet_init_def)
    show "wf_heap s4" using W by (auto simp: h4 wf_heap_def)
    show "requests (trace s4) = requests (trace s)" "events (trace s4) = events (trace s)"
      "refs s4 = (refs s)(h := refs s h + 1)"
      using s2(4) s3(4) h4(4) rf(2) by (auto simp: requested_def s1_def)
  qed (use n snd P h4 in auto)
qed

theorem write_accepted:
  assumes I: "tx_inv h n0 fl q s" and S: "serving E h" "sending E" "allocating E"
    and B: "builds E n0 (int (length data))" and hd: "h \<noteq> INVALID_HTCPLINK (e_nis E)"
    and len: "data \<noteq> []" "int (length data) \<le> TCP_MAXIMUM_PACKET_SIZE" and room: "length q < 499"
  shows "\<exists>s' p b. tcp_write E h (Some data) (int (length data)) 0 s = Some (0, s')
    \<and> (if fl = None then tx_inv h n0 (Some (p, b, frame_of E n0 data)) [] s'
         \<and> requested [I_WSASend (sockfd n0) p (frame_of E n0 data)] s s'
       else tx_inv h n0 fl (q @ [(p, b, frame_of E n0 data)]) s' \<and> requested [] s s')"
proof -
  let ?f = "frame_of E n0 data"
  obtain n p b k s4 where w: "tcp_write E h (Some data) (int (length data)) 0 s = do {
       (r, s5) \<leftarrow> tcp_try_write E (Some h) (Some p) s4;
       s6 \<leftarrow> (if r < 0 then freepkt E (Some p) s5 else Some s5);
       s7 \<leftarrow> objdefr_ncb E h s6;
       Some (r, s7) }" and own: "owns h s4 (p, b, ?f)" "p \<noteq> b" and new: "nextb s \<le> b" "nextb s \<le> p"
    and h4: "heap s4 = (heap s)(b \<mapsto> Bytes Crt ?f, p \<mapsto> Pkt k)" "ncbs s4 = ncbs s" "wf_heap s4"
      "requests (trace s4) = requests (trace s)" "events (trace s4) = events (trace s)"
      "refs s4 = (refs s)(h := refs s h + 1)"
    by (rule write_built [OF I S(1,3) B hd len], erule that, assumption+)
  have I4: "tx_inv h n0 fl q s4"
    by (rule tx_inv_grow [OF I]) (use h4 new in auto)
  have fresh: "{p, b} \<inter> set (blocks (tx_items fl q)) = {}"
  proof -
    have "x < nextb s" if "x \<in> set (blocks (tx_items fl q))" for x
      using that I wf_heap_fresh [of s] by (fastforce simp: tx_inv_def blocks_def owns_def)
    from this [of p] this [of b] new show ?thesis by auto
  qed
  obtain s5 where tw: "tcp_try_write E (Some h) (Some p) s4 = Some (0, s5)"
    and s5: "if fl = None then tx_inv h n0 (Some (p, b, ?f)) [] s5 \<and> requested [I_WSASend (sockfd n0) p ?f] s4 s5
       else tx_inv h n0 fl (q @ [(p, b, ?f)]) s5 \<and> requested [] s4 s5"
    using try_write_item [OF I4 own(1) _ _ S(1,2) room] own(2) fresh by (fastforce split: if_splits)
  let ?s = "record_call (C_objdefr h) 0 s5"
  obtain n5 where n5: "ncbs s5 h = Some n5" "hld n5 = h"
    using s5 by (auto simp: tx_inv_def sender_def split: if_splits)
  have "tcp_write E h (Some data) (int (length data)) 0 s = Some (0, ?s)"
    using w tw n5 objdefr_serving [OF S(1)] by (simp add: objdefr_ncb_def)
  moreover have "requested rs s ?s" if "requested rs s4 s5" for rs
    using that h4 by (auto simp: requested_def)
  moreover have "tx_inv h n0 f q' ?s" if "tx_inv h n0 f q' s5" for f q'
    using that same_store_tx_inv [of s5 ?s] by simp
  ultimately show ?thesis using s5 by (cases "fl = None") (simp, blast)+
qed

text \<open>A full queue: the write is refused, and the buffers it had made are freed.\<close>

theorem write_refused:
  assumes I: "tx_inv h n0 fl q s" and S: "serving E h" "allocating E"
    and B: "builds E n0 (int (length data))" and hd: "h \<noteq> INVALID_HTCPLINK (e_nis E)"
    and len: "data \<noteq> []" "int (length data) \<le> TCP_MAXIMUM_PACKET_SIZE" and full: "length q = 499"
  shows "\<exists>s'. tcp_write E h (Some data) (int (length data)) 0 s = Some (- 1, s')
    \<and> tx_inv h n0 fl q s' \<and> requested [] s s' \<and> heap s' = heap s"
proof -
  let ?f = "frame_of E n0 data"
  obtain n p b k s4 where w: "tcp_write E h (Some data) (int (length data)) 0 s = do {
       (r, s5) \<leftarrow> tcp_try_write E (Some h) (Some p) s4;
       s6 \<leftarrow> (if r < 0 then freepkt E (Some p) s5 else Some s5);
       s7 \<leftarrow> objdefr_ncb E h s6;
       Some (r, s7) }" and own: "owns h s4 (p, b, ?f)" "p \<noteq> b" and new: "nextb s \<le> b" "nextb s \<le> p"
    and n: "ncbs s4 h = Some n" "hld n = h" "sender h n (map fst q) (if fl = None then 0 else 1)"
    and h4: "heap s4 = (heap s)(b \<mapsto> Bytes Crt ?f, p \<mapsto> Pkt k)" "ncbs s4 = ncbs s" "wf_heap s4"
      "requests (trace s4) = requests (trace s)" "events (trace s4) = events (trace s)"
      "refs s4 = (refs s)(h := refs s h + 1)"
    by (rule write_built [OF I S B hd len], erule that, assumption+)
  have tw: "tcp_try_write E (Some h) (Some p) s4 = Some (- 1, s4)"
    using try_write_refuse [OF n(1,3)] full by simp
  have "wf_heap s" using I by (simp add: tx_inv_def)
  then have freed: "(heap s4)(b := None, p := None) = heap s"
    using new by (auto simp: h4 wf_heap_def fun_eq_iff)
  let ?s = "record_call (C_objdefr h) 0 (s4\<lparr>heap := heap s\<rparr>)"
  have "tcp_write E h (Some data) (int (length data)) 0 s = Some (- 1, ?s)"
    using w tw freepkt_item [OF own, of E] freed objdefr_serving [OF S(1)] n
    by (simp add: objdefr_ncb_def)
  moreover have "requested [] s ?s" using h4 by (auto simp: requested_def)
  moreover have "tx_inv h n0 fl q ?s"
  proof (rule tx_inv_grow [OF I])
    have "wf_heap (s4\<lparr>heap := (heap s4)(b := None, p := None)\<rparr>)"
      using h4(3) by (auto simp: wf_heap_def)
    then show "wf_heap ?s" by (simp add: freed)
  qed (use h4 in auto)
  ultimately show ?thesis by auto
qed

end
