(* ===== verification/Tcp_Channel.thy ===== *)
theory Tcp_Channel
  imports Tcp_Write
begin

text \<open>
  The sending side of a link refines a FIFO channel: \<open>chan\<close> is its specification,
  \<open>tx_step\<close> the program (a write of the user, or the completion of the send in flight).
\<close>

subsection \<open>The specification\<close>

datatype tx_op = Write "byte list" | Done

record chan =
  sent :: "byte list list"
  waiting :: "byte list list"
  busy :: bool

text \<open>\<open>f\<close> is the frame of a piece of user data; the limit is the 499 packets that may wait.\<close>

fun chan_step :: "(byte list \<Rightarrow> byte list) \<Rightarrow> tx_op \<Rightarrow> chan \<Rightarrow> int \<times> chan" where
  "chan_step f (Write d) c =
     (if length (waiting c) \<ge> 499 then (- 1, c)
      else if busy c then (0, c\<lparr>waiting := waiting c @ [f d]\<rparr>)
      else (0, c\<lparr>sent := sent c @ [f d], busy := True\<rparr>))"
| "chan_step f Done c =
     (if \<not> busy c then (0, c)
      else case waiting c of
        [] \<Rightarrow> (0, c\<lparr>busy := False\<rparr>)
      | x # w \<Rightarrow> (0, c\<lparr>sent := sent c @ [x], waiting := w\<rparr>))"

fun chan_run :: "(byte list \<Rightarrow> byte list) \<Rightarrow> tx_op list \<Rightarrow> chan \<Rightarrow> int list \<times> chan" where
  "chan_run f [] c = ([], c)"
| "chan_run f (x # xs) c =
     (let (r, c1) = chan_step f x c; (rs, c2) = chan_run f xs c1 in (r # rs, c2))"

text \<open>The writes that were accepted, by their results.\<close>

fun accepted :: "(byte list \<Rightarrow> byte list) \<Rightarrow> tx_op list \<Rightarrow> int list \<Rightarrow> byte list list" where
  "accepted f (Write d # xs) (r # rs) = (if r = 0 then [f d] else []) @ accepted f xs rs"
| "accepted f (Done # xs) (r # rs) = accepted f xs rs"
| "accepted f xs rs = []"

lemma chan_step_fifo:
  "chan_step f x c = (r, c') \<Longrightarrow> busy c \<or> waiting c = [] \<Longrightarrow>
   sent c' @ waiting c' = sent c @ waiting c @ accepted f [x] [r] \<and> (busy c' \<or> waiting c' = [])
   \<and> (\<exists>ys. sent c' = sent c @ ys)"
  by (cases x) (auto split: if_splits list.splits)

lemma accepted_Cons: "accepted f (x # xs) (r # rs) = accepted f [x] [r] @ accepted f xs rs"
  by (cases x) auto

text \<open>First in, first out, and nothing is lost.\<close>

lemma chan_run_fifo:
  "chan_run f xs c = (rs, c') \<Longrightarrow> busy c \<or> waiting c = [] \<Longrightarrow>
   sent c' @ waiting c' = sent c @ waiting c @ accepted f xs rs \<and> (busy c' \<or> waiting c' = [])"
proof (induction xs arbitrary: c rs)
  case (Cons x xs)
  obtain r c1 where s: "chan_step f x c = (r, c1)" by fastforce
  with Cons.prems(1) obtain rs' where q: "chan_run f xs c1 = (rs', c')" and e: "rs = r # rs'"
    by (auto split: prod.splits)
  from chan_step_fifo [OF s Cons.prems(2)] Cons.IH [OF q] show ?case
    unfolding e accepted_Cons [of f x xs r rs'] by auto
qed simp

subsection \<open>The program\<close>

fun sends :: "io_call list \<Rightarrow> byte list list" where
  "sends [] = []"
| "sends (I_WSASend sk p bs # t) = bs # sends t"
| "sends (c # t) = sends t"

lemma sends_append [simp]: "sends (a @ b) = sends a @ sends b"
  by (induction a rule: sends.induct) auto

text \<open>The send in flight is the last one requested; it completes with all its bytes.\<close>

definition tx_complete :: "env \<Rightarrow> handle \<Rightarrow> st \<Rightarrow> st option" where
  "tx_complete E h s = do {
     n \<leftarrow> ncbs s h;
     if tcp_write_pending n = 0 then Some s
     else case last (requests (trace s)) of
       I_WSASend sk p bs \<Rightarrow> do {
         s1 \<leftarrow> tx_done p (int (length bs)) s;
         tcp_dispatch_io_send E (Some p) s1 }
     | _ \<Rightarrow> None }"

fun tx_step :: "env \<Rightarrow> handle \<Rightarrow> tx_op \<Rightarrow> st \<Rightarrow> (int \<times> st) option" where
  "tx_step E h (Write d) s = tcp_write E h (Some d) (int (length d)) 0 s"
| "tx_step E h Done s = map_option (Pair 0) (tx_complete E h s)"

fun tx_run :: "env \<Rightarrow> handle \<Rightarrow> tx_op list \<Rightarrow> st \<Rightarrow> (int list \<times> st) option" where
  "tx_run E h [] s = Some ([], s)"
| "tx_run E h (x # xs) s = do {
     (r, s1) \<leftarrow> tx_step E h x s;
     (rs, s2) \<leftarrow> tx_run E h xs s1;
     Some (r # rs, s2) }"

fun op_ok :: "env \<Rightarrow> ncb_t \<Rightarrow> tx_op \<Rightarrow> bool" where
  "op_ok E n (Write d) \<longleftrightarrow> d \<noteq> [] \<and> int (length d) \<le> TCP_MAXIMUM_PACKET_SIZE \<and> builds E n (int (length d))"
| "op_ok E n Done \<longleftrightarrow> True"

text \<open>The simulation relation; \<open>s0\<close> is the state at the start.\<close>

definition tx_sim :: "handle \<Rightarrow> ncb_t \<Rightarrow> st \<Rightarrow> chan \<Rightarrow> st \<Rightarrow> bool" where
  "tx_sim h n0 s0 c s \<longleftrightarrow> (\<exists>fl q. tx_inv h n0 fl q s \<and> busy c = (fl \<noteq> None) \<and> waiting c = map item_bytes q
     \<and> (\<forall>i \<in> set (tx_items fl q). item_bytes i \<noteq> [])
     \<and> (\<forall>i. fl = Some i \<longrightarrow> requests (trace s) \<noteq> []
          \<and> last (requests (trace s)) = I_WSASend (sockfd n0) (item_pkt i) (item_bytes i))
     \<and> sends (requests (trace s)) = sends (requests (trace s0)) @ sent c
     \<and> refs s = refs s0 \<and> events (trace s) = events (trace s0))"

theorem tx_refines:
  assumes R: "tx_sim h n0 s0 c s" and S: "serving E h" "sending E" "allocating E"
    and hd: "h \<noteq> INVALID_HTCPLINK (e_nis E)" and ok: "op_ok E n0 x"
    and c: "chan_step (frame_of E n0) x c = (r, c')"
  shows "\<exists>s'. tx_step E h x s = Some (r, s') \<and> tx_sim h n0 s0 c' s'"
proof -
  from R obtain fl q where I: "tx_inv h n0 fl q s" and b: "busy c = (fl \<noteq> None)" "waiting c = map item_bytes q"
    and ne: "\<forall>i \<in> set (tx_items fl q). item_bytes i \<noteq> []"
    and la: "\<forall>i. fl = Some i \<longrightarrow> requests (trace s) \<noteq> []
          \<and> last (requests (trace s)) = I_WSASend (sockfd n0) (item_pkt i) (item_bytes i)"
    and sd: "sends (requests (trace s)) = sends (requests (trace s0)) @ sent c"
      "refs s = refs s0" "events (trace s) = events (trace s0)"
    by (auto simp: tx_sim_def)
  show ?thesis
  proof (cases x)
    case (Write d)
    with ok have d: "d \<noteq> []" "int (length d) \<le> TCP_MAXIMUM_PACKET_SIZE" "builds E n0 (int (length d))" by auto
    have fne: "frame_of E n0 d \<noteq> []" using d by (auto simp: frame_of_def)
    have ql: "length q < 500" using I by (auto simp: tx_inv_def sender_def)
    show ?thesis
    proof (cases "length q < 499")
      case False
      with ql have "length q = 499" by simp
      from write_refused [OF I S(1,3) d(3) hd d(1,2) this] obtain s' where
        "tx_step E h x s = Some (- 1, s')" "tx_inv h n0 fl q s'" "requested [] s s'"
        using Write by auto
      then show ?thesis using c Write b ne la sd \<open>length q = 499\<close>
        by (auto simp: tx_sim_def requested_def)
    next
      case True
      from write_accepted [OF I S d(3) hd d(1,2) True] obtain s' p b' where
        w: "tx_step E h x s = Some (0, s')"
        "if fl = None then tx_inv h n0 (Some (p, b', frame_of E n0 d)) [] s'
           \<and> requested [I_WSASend (sockfd n0) p (frame_of E n0 d)] s s'
         else tx_inv h n0 fl (q @ [(p, b', frame_of E n0 d)]) s' \<and> requested [] s s'"
        using Write by auto
      show ?thesis
      proof (cases fl)
        case None
        with I have q: "q = []" by (simp add: tx_inv_def)
        have "tx_sim h n0 s0 c' s'" unfolding tx_sim_def
          by (rule exI [of _ "Some (p, b', frame_of E n0 d)"], rule exI [of _ "[]"])
            (use w(2) None q c Write b sd fne True in \<open>auto simp: requested_def\<close>)
        then show ?thesis using w c Write b None q by auto
      next
        case (Some i)
        have "tx_sim h n0 s0 c' s'" unfolding tx_sim_def
          by (rule exI [of _ fl], rule exI [of _ "q @ [(p, b', frame_of E n0 d)]"])
            (use w(2) Some c Write b sd fne True ne la in \<open>auto simp: requested_def\<close>)
        then show ?thesis using w c Write b Some True by auto
      qed
    qed
  next
    case Done
    from I obtain n where n: "ncbs s h = Some n" "tcp_write_pending n = (if fl = None then 0 else 1)"
      by (auto simp: tx_inv_def sender_def)
    show ?thesis
    proof (cases fl)
      case None
      then show ?thesis using n Done c b R by (auto simp: tx_complete_def)
    next
      case (Some i)
      obtain p b' bs where i: "i = (p, b', bs)" by (cases i)
      have bs: "0 < int (length bs)" using ne Some i by simp
      from tx_done_inv [of h n0 p b' bs q s "int (length bs)"] I Some i obtain s1 k where
        s1: "tx_done p (int (length bs)) s = Some s1" "tx_inv h n0 (Some (p, b', bs)) q s1"
          "get_pkt p s1 = Some k" "size_for_translation k = int (length bs)" "trace s1 = trace s" by auto
      from send_completion [OF s1(2) S(1,2) s1(3)] s1(4) bs obtain s2 where
        s2: "tcp_dispatch_io_send E (Some p) s1 = Some s2"
        "case q of [] \<Rightarrow> tx_inv h n0 None [] s2 \<and> requested [] s1 s2
         | i # q' \<Rightarrow> tx_inv h n0 (Some i) q' s2
             \<and> requested [I_WSASend (sockfd n0) (item_pkt i) (item_bytes i)] s1 s2" by auto
      have st: "tx_step E h x s = Some (0, s2)"
        using n Some Done la i s1(1) s2(1) by (simp add: tx_complete_def)
      have rs: "refs s1 = refs s" using s1(5) by (simp add: refs_def)
      show ?thesis
      proof (cases q)
        case Nil
        have "tx_sim h n0 s0 c' s2" unfolding tx_sim_def
          by (rule exI [of _ None], rule exI [of _ "[]"])
            (use s2(2) Nil c Done b sd Some s1(5) rs in \<open>auto simp: requested_def\<close>)
        then show ?thesis using st c Done b Nil Some by auto
      next
        case (Cons j q')
        have "tx_sim h n0 s0 c' s2" unfolding tx_sim_def
          by (rule exI [of _ "Some j"], rule exI [of _ q'])
            (use s2(2) Cons c Done b sd Some s1(5) rs ne in \<open>auto simp: requested_def\<close>)
        then show ?thesis using st c Done b Cons Some by auto
      qed
    qed
  qed
qed

theorem tx_run_refines:
  assumes "tx_sim h n0 s0 c s" "serving E h" "sending E" "allocating E"
    and "h \<noteq> INVALID_HTCPLINK (e_nis E)" "\<forall>x \<in> set xs. op_ok E n0 x"
    and "chan_run (frame_of E n0) xs c = (rs, c')"
  shows "\<exists>s'. tx_run E h xs s = Some (rs, s') \<and> tx_sim h n0 s0 c' s'"
  using assms
proof (induction xs arbitrary: c s rs)
  case (Cons x xs)
  obtain r c1 where st: "chan_step (frame_of E n0) x c = (r, c1)" by fastforce
  with Cons.prems(7) obtain rs' where q: "chan_run (frame_of E n0) xs c1 = (rs', c')" and e: "rs = r # rs'"
    by (auto split: prod.splits)
  from tx_refines [OF Cons.prems(1-5) _ st] Cons.prems(6) obtain s1 where
    s1: "tx_step E h x s = Some (r, s1)" "tx_sim h n0 s0 c1 s1" by auto
  from Cons.IH [OF s1(2) Cons.prems(2-5) _ q] Cons.prems(6) obtain s2 where
    "tx_run E h xs s1 = Some (rs', s2)" "tx_sim h n0 s0 c' s2" by auto
  with s1 e show ?case by auto
qed simp

end
