(* ===== verification/Witness.thy ===== *)
theory Witness
  imports Tcp_Channel
begin

text \<open>
  A concrete environment and concrete states: a platform on which every call succeeds, a
  protocol template with a header of four bytes that hold the user size (low byte first),
  a link that receives and a link that sends. They show that the hypotheses of the
  properties can hold together.
\<close>

definition w_sys :: "act list \<Rightarrow> call \<Rightarrow> int" where
  "w_sys t c = (case c of
     Obj (O_objdefr h) \<Rightarrow> 0 | Obj (O_objclos h) \<Rightarrow> 0
   | Sock s \<Rightarrow> 0
   | Io i \<Rightarrow> (case i of I_AssociatePort _ _ \<Rightarrow> 1 | I_AcceptEx _ _ _ \<Rightarrow> 1 | I_ConnectEx _ _ _ \<Rightarrow> 1 | _ \<Rightarrow> 0)
   | _ \<Rightarrow> 1)"

definition w_header :: "int \<Rightarrow> byte list" where
  "w_header u = [word_of_int u, word_of_int (u div 2 ^ 8), word_of_int (u div 2 ^ 16),
     word_of_int (u div 2 ^ 24)]"

definition w_size :: "byte list \<Rightarrow> int" where
  "w_size xs = uint (xs ! 0) + 2 ^ 8 * uint (xs ! 1) + 2 ^ 16 * uint (xs ! 2) + 2 ^ 24 * uint (xs ! 3)"

lemma w_size_header: "0 \<le> u \<Longrightarrow> u < 2 ^ 32 \<Longrightarrow> w_size (w_header u) = u"
proof -
  assume u: "0 \<le> u" "u < 2 ^ 32"
  define a where "a = u div 256"
  define b where "b = a div 256"
  define c where "c = b div 256"
  have d: "u div 65536 = b" "u div 16777216 = c"
    using zdiv_zmult2_eq [of 256 u 256] zdiv_zmult2_eq [of 256 u 65536] zdiv_zmult2_eq [of 256 a 256]
    by (simp_all add: a_def b_def c_def)
  have "u div 16777216 < 256" "0 \<le> u div 16777216" using u by auto
  then have "c mod 256 = c" using d by simp
  moreover have "256 * a + u mod 256 = u" "256 * b + a mod 256 = a" "256 * c + b mod 256 = b"
    by (simp_all add: a_def b_def c_def)
  ultimately show ?thesis
    by (simp add: w_size_def w_header_def uint_word_of_int d a_def [symmetric])
qed

definition w_nis :: nisdef where
  "w_nis = \<lparr>LINKATTR_TCP_FULLY_RECEIVE = 1, LINKATTR_TCP_NO_BUILD = 2,
     LINKATTR_TCP_UPDATE_ACCEPT_CONTEXT = 4, UDP_FLAG_BROADCAST = 2, UDP_FLAG_MULTICAST = 4,
     MAX_UDP_UNIT = 1472, MTU = 1500, LINK_ADDR_LOCAL = 1, LINK_ADDR_REMOTE = 2,
     INVALID_HTCPLINK = - 1, INVALID_HUDPLINK = - 1, NI_SETATTR = 1, NI_GETATTR = 2,
     NI_SETCTX = 3, NI_GETCTX = 4, NI_SETTST = 5, NI_GETTST = 6\<rparr>"

definition w_env :: env where
  "w_env = \<lparr>e_sys = w_sys, e_val = (\<lambda>t c. 0), e_val2 = (\<lambda>t c. 0),
     e_addr = (\<lambda>t c. sockaddr_zero), e_addr2 = (\<lambda>t c. sockaddr_zero), e_junk = (\<lambda>t i. 0),
     e_ncb = (\<lambda>t. ncb_zero), e_parser = (\<lambda>f hdr. (0, w_size hdr)),
     e_builder = (\<lambda>f u. (0, w_header u)), e_serializer = (\<lambda>f xs n. (0, case xs of None \<Rightarrow> [] | Some bs \<Rightarrow> bs)),
     e_pton = (\<lambda>a. Some 0), e_inet_addr = (\<lambda>a. 0), e_nis = w_nis\<rparr>"

definition w_ncb :: ncb_t where
  "w_ncb = ncb_zero\<lparr>hld := 7, sockfd := 9, proto_type := kProto_TCP, nis_callback := 1,
     tcp_tst := \<lparr>tst_cb = 4, builder = 1, parser = 1\<rparr>, tcp_sender_cache_head := Some [],
     tcp_sender_locker := Some 0\<rparr>"

definition w_st :: "mem \<Rightarrow> nat \<Rightarrow> st" where
  "w_st H i = \<lparr>heap = H, nextb = i, ncbs = [7 \<mapsto> w_ncb], unloads = [7 \<mapsto> Tcp_unload], trace = [],
     so_startup = 0, so_protocol_initialized = [False, False, False, False], io_inited = 0,
     epos = None, divisions = 0, current_ecr = 0, fn_GetAcceptExSockaddrs = False,
     fn_TransmitPackets = False\<rparr>"

definition w_rx :: st where
  "w_rx = w_st [0 \<mapsto> Pkt (packet_init 7 kProto_TCP kRecv TCP_RECV_BUFFER_SIZE kVirtualHeap (Ptr 1 0)),
     1 \<mapsto> Bytes Crt (replicate 69632 0)] 2"

definition w_tx :: st where
  "w_tx = w_st Map.empty 0"

lemmas w_defs = w_env_def w_sys_def w_nis_def w_ncb_def w_st_def w_rx_def w_tx_def ncb_zero_def packet_init_def

lemma w_env_ok: "mallocs w_env" "serving w_env 7" "receiving w_env" "sending w_env" "allocating w_env"
  by (simp_all add: mallocs_def serving_def receiving_def sending_def allocating_def w_env_def w_sys_def)

lemma w_rx_inv: "rx_inv w_env 4 7 w_ncb 0 [] w_rx"
  unfolding rx_inv_def
  by (rule exI, rule exI [of _ w_ncb], rule exI [of _ 1], rule exI [of _ "replicate 69632 0"], intro conjI disjI1)
    (auto simp: rx_link_def rx_small_def scan.simps BUF_value get_pkt_def wf_heap_def w_defs)

lemma w_tx_inv: "tx_inv 7 w_ncb None [] w_tx"
  by (simp add: tx_inv_def sender_def same_link_def wf_heap_def w_defs)

lemma w_builds: "builds w_env w_ncb u"
  by (simp add: builds_def w_defs w_header_def BUF_value)

text \<open>A link with a send in flight and a full queue.\<close>

definition w_pkt :: "nat \<Rightarrow> packet_t" where
  "w_pkt i = (packet_init 7 kProto_TCP kSend 0 kNoAccess Null)
     \<lparr>ori_buffer := Ptr (2 * i + 1) 0, irp := Ptr (2 * i + 1) 0, size_for_req := 1\<rparr>"

definition w_item :: "nat \<Rightarrow> item" where
  "w_item i = (2 * i, 2 * i + 1, [42])"

definition w_queue :: "nat \<Rightarrow> item list" where
  "w_queue m = map w_item [1..<Suc m]"

definition w_busy :: "nat \<Rightarrow> st" where
  "w_busy m = (w_st (\<lambda>b. if b < 2 * m + 2 then (if even b then Some (Pkt (w_pkt (b div 2))) else Some (Bytes Crt [42]))
       else None) (2 * m + 2))
     \<lparr>ncbs := [7 \<mapsto> w_ncb\<lparr>tcp_sender_cache_head := Some (map fst (w_queue m)),
        tcp_sender_list_size := int m, tcp_write_pending := 1\<rparr>]\<rparr>"

lemma w_busy_inv:
  assumes "m < 500"
  shows "tx_inv 7 w_ncb (Some (w_item 0)) (w_queue m) (w_busy m)"
proof -
  have items: "w_item 0 # w_queue m = map w_item [0..<Suc m]"
    by (simp add: w_queue_def upt_conv_Cons del: upt_Suc)
  have own: "owns 7 (w_busy m) (w_item i)" if "i < Suc m" for i
    using that by (simp add: owns_def w_item_def w_busy_def w_st_def w_pkt_def packet_init_def)
  have "distinct (blocks (map w_item [0..<Suc m]))"
  proof -
    have b: "blocks (map w_item is) = map (\<lambda>i. 2 * i) is @ map (\<lambda>i. 2 * i + 1) is" for "is"
      by (simp add: blocks_def w_item_def comp_def)
    have "2 * i \<noteq> 2 * j + (1 :: nat)" for i j by presburger
    then show ?thesis unfolding b by (auto simp: distinct_map inj_on_def simp del: upt_Suc)
  qed
  moreover have "\<forall>i \<in> set (map w_item [0..<Suc m]). owns 7 (w_busy m) i"
    using own by (auto simp del: upt_Suc)
  moreover have "wf_heap (w_busy m)" by (simp add: wf_heap_def w_busy_def w_st_def)
  moreover have "sender 7 (w_ncb\<lparr>tcp_sender_cache_head := Some (map fst (w_queue m)),
      tcp_sender_list_size := int m, tcp_write_pending := 1\<rparr>) (map fst (w_queue m)) 1"
    using assms by (simp add: sender_def w_ncb_def ncb_zero_def w_queue_def del: upt_Suc)
  ultimately show ?thesis
    unfolding tx_inv_def
    by (auto simp: items w_busy_def same_link_def simp del: upt_Suc) (simp add: w_ncb_def)
qed

end
