(* ===== verification/System.thy ===== *)
theory System
  imports Balance_Net Witness
begin

text \<open>
  The library as a whole: its user calls the exported functions, the system completes
  requests and writes received bytes, in any order. \<open>api\<close> is the meaning of one call of an
  exported function that releases the references it takes, \<open>session\<close> of any sequence of calls and
  completions. The operations that keep theirs (\<open>tcp_awaken\<close>, which is also \<open>udp_awaken\<close>,
  \<open>nis_cntl\<close> with an unknown command and the dispatch of a pipe event) are steps of \<open>session\<close> too,
  which counts the leak of each. \<open>nis_getver\<close> does not touch the state, and \<open>tcp_init\<close> and its
  like are \<open>so_init\<close> and \<open>so_uninit\<close>. The functions of \<open>libnsp\<close> that the DLL exports as well (the
  object manager among them) are not the library's own.
\<close>

subsection \<open>Calls and completions\<close>

inductive api :: "env \<Rightarrow> st \<Rightarrow> st \<Rightarrow> bool" for E where
  "so_init E proto th s = (r, s') \<Longrightarrow> api E s s'"
| "so_uninit E proto s = s' \<Longrightarrow> api E s s'"
| "tcp_create E cb str po s = Some (h, s') \<Longrightarrow> api E s s'"
| "tcp_destroy E lnk s = Some s' \<Longrightarrow> api E s s'"
| "tcp_connect E lnk str po s = Some (r, s') \<Longrightarrow> api E s s'"
| "tcp_connect2 E lnk str po s = Some (r, s') \<Longrightarrow> api E s s'"
| "tcp_listen E lnk blk s = Some (r, s') \<Longrightarrow> api E s s'"
| "tcp_write E lnk origin cb f s = Some (r, s') \<Longrightarrow> api E s s'"
| "tcp_settst E lnk tst s = Some (r, s') \<Longrightarrow> api E s s'"
| "tcp_settst_r E lnk tst s = Some (r, s') \<Longrightarrow> api E s s'"
| "tcp_gettst E lnk tst s = Some (x, s') \<Longrightarrow> api E s s'"
| "tcp_gettst_r E lnk tst prev s = Some (y, s') \<Longrightarrow> api E s s'"
| "tcp_getaddr E lnk nt ao po2 s = Some (a3, s') \<Longrightarrow> api E s s'"
| "tcp_setopt E lnk l k v s = Some (r, s') \<Longrightarrow> api E s s'"
| "tcp_getopt E lnk l k ov s = Some (g, s') \<Longrightarrow> api E s s'"
| "tcp_setattr E lnk at e s = Some (r, s') \<Longrightarrow> api E s s'"
| "tcp_getattr E lnk at en s = Some (g, s') \<Longrightarrow> api E s s'"
| "udp_create E cb str po fl s = Some (h, s') \<Longrightarrow> api E s s'"
| "udp_destroy E lnk s = Some s' \<Longrightarrow> api E s s'"
| "udp_write E lnk bs cb2 str po f s = Some (r, s') \<Longrightarrow> api E s s'"
| "udp_getaddr E lnk ao po2 s = Some (a3, s') \<Longrightarrow> api E s s'"
| "udp_setopt E lnk l k v s = Some (r, s') \<Longrightarrow> api E s s'"
| "udp_getopt E lnk l k ov s = Some (g, s') \<Longrightarrow> api E s s'"
| "udp_initialize_grp E lnk grp s = Some (gr, s') \<Longrightarrow> api E s s'"
| "udp_release_grp grp s = Some (og, s') \<Longrightarrow> api E s s'"
| "udp_raise_grp E lnk nm po s = Some (r, s') \<Longrightarrow> api E s s'"
| "udp_detach_grp E lnk s = Some s' \<Longrightarrow> api E s s'"
| "udp_write_grp E lnk grp s = Some (r, s') \<Longrightarrow> api E s s'"
| "udp_joingrp E lnk str po s = Some (r, s') \<Longrightarrow> api E s s'"
| "udp_dropgrp E lnk s = Some (r, s') \<Longrightarrow> api E s s'"
| "arp_create E as cb nm s = Some (h, s') \<Longrightarrow> api E s s'"
| "arp_destroy E lnk s = Some s' \<Longrightarrow> api E s s'"
| "arp_nrequest E mo me lnk target s = Some (r, s') \<Longrightarrow> api E s s'"
| "arp_request E mo me lnk nm s = Some (r, s') \<Longrightarrow> api E s s'"
| "nis_setctx E lnk ctx z s = Some (r, s') \<Longrightarrow> api E s s'"
| "nis_getctx E lnk ctx oz s = Some (cx, s') \<Longrightarrow> api E s s'"
| "nis_refctx E lnk oz s = Some (rx, s') \<Longrightarrow> api E s s'"
| "nis_ctxsize E lnk s = Some (r, s') \<Longrightarrow> api E s s'"
| "nis_setmask E lnk msk s = Some (r, s') \<Longrightarrow> api E s s'"
| "nis_getmask E lnk om s = Some (g, s') \<Longrightarrow> api E s s'"
| "nis_cntl E stack lnk cmd arg s = Some (ca, s') \<Longrightarrow> cmd \<in> cntl_commands (e_nis E) \<Longrightarrow> api E s s'"
| "nis_gethost E host io s = (gh, s') \<Longrightarrow> api E s s'"
| "nis_lgethost E nb cb s = (lh, s') \<Longrightarrow> api E s s'"
| "nis_checr ecr s = (old, s') \<Longrightarrow> api E s s'"
| "nis_call_ecr i logstr s = Some s' \<Longrightarrow> api E s s'"
| "nis_getifmisc E mk cbm isz as ifv cbifv s = Some (im, s') \<Longrightarrow> api E s s'"

text \<open>Received bytes are written by the system into buffers of the program.\<close>

text \<open>
  Three operations keep the reference they take when the object manager grants it: \<open>tcp_awaken\<close>
  (and \<open>udp_awaken\<close>, the same function), \<open>nis_cntl\<close> with an unknown command, and the dispatch of a
  pipe event. \<open>leaked E h s L\<close> counts one more reference that is never released on \<open>h\<close>.
\<close>

definition leaked :: "env \<Rightarrow> handle \<Rightarrow> st \<Rightarrow> (handle \<Rightarrow> int) \<Rightarrow> handle \<Rightarrow> int" where
  "leaked E h s L = (if granted E h s then L(h := L h + 1) else L)"

text \<open>
  \<open>session E s L s'\<close>: calls of any exported functions and completions of any requests lead from \<open>s\<close>
  to \<open>s'\<close>, and \<open>L\<close> counts on each handle the leaks among them.
\<close>

inductive session :: "env \<Rightarrow> st \<Rightarrow> (handle \<Rightarrow> int) \<Rightarrow> st \<Rightarrow> bool" for E s where
  start: "session E s (\<lambda>h. 0) s"
| call: "session E s L s1 \<Longrightarrow> api E s1 s2 \<Longrightarrow> session E s L s2"
| complete: "session E s L s1 \<Longrightarrow> get_pkt p s1 = Some k \<Longrightarrow> pkt_proto k \<noteq> kProto_PIPE \<Longrightarrow>
     so_dispatch_io_event E (Some p) m status s1 = Some s2 \<Longrightarrow> session E s L s2"
| receive: "session E s L s1 \<Longrightarrow> store q bs s1 = Some s2 \<Longrightarrow> session E s L s2"
| awaken: "session E s L s1 \<Longrightarrow> tcp_awaken E lnk d cb s1 = Some (r, s2) \<Longrightarrow> session E s (leaked E lnk s1 L) s2"
| awaken_udp: "session E s L s1 \<Longrightarrow> udp_awaken E lnk d cb s1 = Some (r, s2) \<Longrightarrow> session E s (leaked E lnk s1 L) s2"
| unknown_command: "session E s L s1 \<Longrightarrow> cmd \<notin> cntl_commands (e_nis E) \<Longrightarrow>
     nis_cntl E stack lnk cmd arg s1 = Some (ca, s2) \<Longrightarrow> session E s (leaked E lnk s1 L) s2"
| pipe: "session E s L s1 \<Longrightarrow> get_pkt p s1 = Some k \<Longrightarrow> pkt_proto k = kProto_PIPE \<Longrightarrow>
     so_dispatch_io_event E (Some p) m status s1 = Some s2 \<Longrightarrow> session E s (leaked E (link k) s1 L) s2"

text \<open>Each of the three keeps exactly one reference.\<close>

definition plus_one :: "env \<Rightarrow> handle \<Rightarrow> st \<Rightarrow> st \<Rightarrow> bool" where
  "plus_one E h s s' \<longleftrightarrow> ncbs s' = ncbs s \<and> refs s' = (if granted E h s then (refs s)(h := refs s h + 1) else refs s)"

lemma objrefr_plus_one: "objrefr E h s = (ncb, s') \<Longrightarrow> plus_one E h s s'"
  by (auto simp: plus_one_def granted_def objref_def refs_def fun_eq_iff split: if_splits)

lemma plus_one_then: "plus_one E h s s1 \<Longrightarrow> ncbs s2 = ncbs s1 \<Longrightarrow> refs s2 = refs s1 \<Longrightarrow> plus_one E h s s2"
  by (simp add: plus_one_def)

lemma awaken_plus_one:
  assumes "tcp_awaken E lnk d cb s = Some (r, s')"
  shows "plus_one E lnk s s'"
proof -
  obtain ncb s1 where o: "objrefr E lnk s = (ncb, s1)" by fastforce
  have "ncbs s' = ncbs s1 \<and> refs s' = refs s1"
    using assms o by (auto simp: tcp_awaken_def run_iff dest!: bal split: option.splits)
  then show ?thesis using plus_one_then [OF objrefr_plus_one [OF o]] by blast
qed

lemma pipe_plus_one:
  assumes "so_dispatch_io_event E (Some p) m status s = Some s'" "get_pkt p s = Some k" "pkt_proto k = kProto_PIPE"
  shows "plus_one E (link k) s s'"
proof -
  let ?s = "s\<lparr>heap := (heap s)(p \<mapsto> Pkt (k\<lparr>size_for_translation := m\<rparr>))\<rparr>"
  obtain ncb s1 where o: "objrefr E (link k) ?s = (ncb, s1)" by fastforce
  have "so_dispatch_pipe_event E p status ?s = Some s'"
    using assms by (simp add: so_dispatch_io_event_def)
  then have "ncbs s' = ncbs s1 \<and> refs s' = refs s1"
    using o by (auto simp: so_dispatch_pipe_event_def run_iff dest!: bal split: option.splits)
  moreover have "plus_one E (link k) s s1"
    using objrefr_plus_one [OF o] by (simp add: plus_one_def granted_def refs_def)
  ultimately show ?thesis using plus_one_then by blast
qed

lemma cntl_plus_one:
  assumes "nis_cntl E stack lnk cmd arg s = Some (ca, s')" "cmd \<notin> cntl_commands (e_nis E)"
  shows "plus_one E lnk s s'"
proof -
  obtain ncb s1 where o: "objrefr E lnk s = (ncb, s1)" by fastforce
  have "s' = s1" using assms o
    by (cases ncb) (auto simp: nis_cntl_def cntl_commands_def Let_def bind_eq_Some_conv)
  then show ?thesis using objrefr_plus_one [OF o] by simp
qed

lemma api_bal:
  assumes "api E s s'" "fresh_ref E" "hld_ok (ncbs s)"
  shows "refs s' = refs s \<and> hld_ok (ncbs s')"
  using assms so_uninit_frame by cases (auto dest!: bal)

lemma leaked_bal:
  assumes "refs s1 = (\<lambda>h. refs s h + L h) \<and> (\<forall>h. 0 \<le> L h) \<and> hld_ok (ncbs s1)" "plus_one E h s1 s2"
  shows "refs s2 = (\<lambda>g. refs s g + leaked E h s1 L g) \<and> (\<forall>g. 0 \<le> leaked E h s1 L g) \<and> hld_ok (ncbs s2)"
proof (intro conjI)
  show "hld_ok (ncbs s2)" using assms by (simp add: plus_one_def)
qed (use assms in \<open>auto simp: plus_one_def leaked_def\<close>)

lemma session_bal:
  assumes "session E s L s'" "fresh_ref E" "hld_ok (ncbs s)"
  shows "refs s' = (\<lambda>h. refs s h + L h) \<and> (\<forall>h. 0 \<le> L h) \<and> hld_ok (ncbs s')"
  using assms(1)
proof induction
  case start
  show ?case using assms(3) by simp
next
  case (call L s1 s2)
  then show ?case using api_bal [OF call.hyps(2) assms(2)] by simp
next
  case (complete L s1 p k m status s2)
  then show ?case using bal_so_dispatch [OF complete.hyps(4,2,3) assms(2)] by simp
next
  case (receive L s1 q bs s2)
  then show ?case by (auto dest!: bal_store)
next
  case (awaken L s1 lnk d cb r s2)
  from leaked_bal [OF awaken.IH awaken_plus_one [OF awaken.hyps(2)]] show ?case .
next
  case (awaken_udp L s1 lnk d cb r s2)
  from leaked_bal [OF awaken_udp.IH awaken_plus_one [OF awaken_udp.hyps(2) [unfolded udp_awaken_def]]] show ?case .
next
  case (unknown_command L s1 cmd stack lnk arg ca s2)
  from leaked_bal [OF unknown_command.IH cntl_plus_one [OF unknown_command.hyps(3,2)]] show ?case .
next
  case (pipe L s1 p k m status s2)
  from leaked_bal [OF pipe.IH pipe_plus_one [OF pipe.hyps(4,2,3)]] show ?case .
qed

subsection \<open>Properties\<close>

text \<open>
  C11. The references the library holds are accounted for: whatever functions of the library the
  user calls and whatever the system completes, in any order and whatever the platform answers, the number of references held on
  each handle is the number at the start plus the leaks of the three operations that keep theirs
  (a wake-up, the dispatch of its pipe event, an unknown command of \<open>nis_cntl\<close>; one for each that
  was granted). Every other exported function and completion releases exactly what it takes, and
  each control block stores its own handle.
\<close>

theorem session_balanced:
  assumes "session E s L s'" "fresh_ref E" "hld_ok (ncbs s)"
  shows "refs s' = (\<lambda>h. refs s h + L h) \<and> (\<forall>h. 0 \<le> L h) \<and> hld_ok (ncbs s')"
  using assms by (rule session_bal)

lemma w_fresh: "fresh_ref w_env"
  by (simp add: fresh_ref_def w_defs)

lemma w_hld: "hld_ok (ncbs w_tx)"
  by (simp add: hld_ok_def w_defs w_tx_def)

lemma session_balanced_witness:
  "\<exists>r s1 ca s2. nis_setmask w_env 7 3 w_tx = Some (r, s1) \<and> nis_cntl w_env 0 7 99 A_none s1 = Some (ca, s2)
    \<and> refs s1 7 = 0 \<and> refs s2 7 = 1 \<and> hld_ok (ncbs s2)"
proof -
  obtain r s1 where m: "nis_setmask w_env 7 3 w_tx = Some (r, s1)" "ncbs s1 7 \<noteq> None"
    by (simp add: nis_setmask_def objref_def objdefr_def sysc_def Let_def w_defs w_tx_def)
  then have a: "session w_env w_tx (\<lambda>h. 0) s1" by (intro session.call [OF session.start] api.intros(39))
  obtain ca s2 where c: "nis_cntl w_env 0 7 99 A_none s1 = Some (ca, s2)" "(99 :: int) \<notin> cntl_commands (e_nis w_env)"
    using m(2) by (auto simp: nis_cntl_def cntl_commands_def objref_def w_defs)
  have g: "granted w_env 7 s1" using m(2) by (simp add: granted_def w_defs)
  have z: "refs w_tx 7 = 0" by (simp add: refs_def w_tx_def w_st_def)
  show ?thesis
    using session_balanced [OF a w_fresh w_hld] session_balanced [OF session.unknown_command [OF a c(2,1)] w_fresh w_hld] m c g z
    by (auto simp: leaked_def)
qed

text \<open>
  A completion that a worker dispatches (a TCP or UDP request, finished or failed, in any
  state of the link) keeps the number of references on every handle.
\<close>

theorem completion_balanced:
  assumes "so_dispatch_io_event E (Some p) m status s = Some s'" "get_pkt p s = Some k"
    and "pkt_proto k \<noteq> kProto_PIPE" "fresh_ref E" "hld_ok (ncbs s)"
  shows "refs s' = refs s \<and> hld_ok (ncbs s')"
  using assms by (rule bal_so_dispatch)

lemma completion_balanced_witness:
  "\<exists>s'. so_dispatch_io_event w_env (Some 0) 0 0 w_rx = Some s' \<and> heap s' 0 = None \<and> refs s' = refs w_rx"
proof -
  obtain s' where s': "so_dispatch_io_event w_env (Some 0) 0 0 w_rx = Some s'" "heap s' 0 = None"
    by (simp add: so_dispatch_io_event_def tcp_dispatch_io_event_def tcp_dispatch_io_recv_def
        tcp_shutdown_by_packet_def objclos_def sysc_def freepkt_def free_def get_pkt_def mod_pkt_def w_defs)
  have "get_pkt 0 w_rx = Some (packet_init 7 kProto_TCP kRecv TCP_RECV_BUFFER_SIZE kVirtualHeap (Ptr 1 0))"
    "hld_ok (ncbs w_rx)" by (simp_all add: get_pkt_def hld_ok_def w_defs)
  with completion_balanced [OF s'(1) _ _ w_fresh] s' show ?thesis by (simp add: packet_init_def)
qed

text \<open>
  A reference function of the protocol \<open>P\<close> accepts exactly its handles: it succeeds just when the
  handle is not negative, belongs to an object of the protocol and the object manager grants the
  reference. It then gives out the control block and holds exactly one reference more; otherwise
  it gives out none and holds as many as before.
\<close>

definition accepts_exactly :: "(env \<Rightarrow> handle \<Rightarrow> st \<Rightarrow> ((int \<times> np) \<times> st) option) \<Rightarrow> proto_type \<Rightarrow> env \<Rightarrow> handle \<Rightarrow> st \<Rightarrow> bool" where
  "accepts_exactly ref P E h s \<longleftrightarrow>
     ((\<exists>s'. ref E h s = Some ((0, Some h), s'))
        \<longleftrightarrow> 0 \<le> h \<and> granted E h s \<and> (\<exists>n. ncbs s h = Some n \<and> proto_type n = P))
     \<and> (\<forall>r ncb s'. ref E h s = Some ((r, ncb), s') \<longrightarrow>
        (if r = 0 then ncb = Some h \<and> heap s' = heap s \<and> ncbs s' = ncbs s \<and> refs s' = (refs s)(h := refs s h + 1)
         else r < 0 \<and> ncb = None \<and> refs s' = refs s))"

text \<open>
  C23. A typed reference is type safe: \<open>tcprefr\<close>, \<open>udprefr\<close> and \<open>arprefr\<close> accept exactly the handles
  of their own protocol on which a reference is to be had, and then hold one reference more; a
  handle of another kind, a negative or an unknown one gets an error and no reference.
\<close>

theorem typed_handles:
  "accepts_exactly tcprefr kProto_TCP E h s \<and> accepts_exactly udprefr kProto_UDP E h s
   \<and> accepts_exactly arprefr kProto_IP E h s"
  unfolding accepts_exactly_def
  by (rule conjI [OF tcp_ref.ref_exact conjI [OF udp_ref.ref_exact arp_ref.ref_exact]])

lemma typed_handles_witness:
  "(\<exists>s'. tcprefr w_env 7 w_tx = Some ((0, Some 7), s') \<and> refs s' 7 = refs w_tx 7 + 1)
   \<and> (\<exists>s'. udprefr w_env 7 w_tx = Some ((- EPROTOTYPE, None), s') \<and> refs s' = refs w_tx)"
proof -
  obtain s1 where 1: "tcprefr w_env 7 w_tx = Some ((0, Some 7), s1)"
    by (simp add: tcprefr_def objref_def Let_def w_defs w_tx_def)
  obtain s2 where 2: "udprefr w_env 7 w_tx = Some ((- EPROTOTYPE, None), s2)"
    by (simp add: udprefr_def objref_def objdefr_def sysc_def Let_def w_defs w_tx_def)
  show ?thesis using typed_handles [of w_env 7 w_tx] 1 2 by (fastforce simp: accepts_exactly_def)
qed

text \<open>
  \<open>nis_cntl\<close> with a command it does not know returns \<open>-EINVAL\<close> on an existing link and
  keeps the reference it took.
\<close>

lemma cntl_unknown_leaks:
  assumes "cmd \<notin> cntl_commands (e_nis E)" "ncbs s lnk \<noteq> None" "e_sys E (trace s) (C_objrefr lnk) \<noteq> 0"
  shows "\<exists>s'. nis_cntl E stack lnk cmd arg s = Some ((- EINVAL, arg), s') \<and> refs s' = (refs s)(lnk := refs s lnk + 1)"
  using assms by (auto simp: nis_cntl_def cntl_commands_def objref_def refs_def fun_eq_iff)

lemma cntl_unknown_leaks_witness:
  "\<exists>s'. nis_cntl w_env 0 7 99 A_none w_tx = Some ((- 22, A_none), s') \<and> refs s' = (refs w_tx)(7 := refs w_tx 7 + 1)"
  by (rule cntl_unknown_leaks) (simp_all add: cntl_commands_def w_defs w_tx_def)

end
