(* ===== verification/Link_Props.thy ===== *)
theory Link_Props
  imports System
begin

text \<open>
  Properties of the interface of one link: templates, attributes, masks and contexts set and
  read back. On a platform that refuses no reference (\<open>steady\<close>) a call that does not close
  the link leaves its control block in place.
\<close>

text \<open>The object manager grants every reference on \<open>h\<close> and does not finalize it on release.\<close>

definition steady :: "env \<Rightarrow> handle \<Rightarrow> bool" where
  "steady E h \<longleftrightarrow> (\<forall>t. e_sys E t (C_objrefr h) \<noteq> 0 \<and> e_sys E t (C_objdefr h) = 0)"

lemma steady_objrefr:
  "steady E h \<Longrightarrow> ncbs s h = Some n \<Longrightarrow> \<exists>r. objrefr E h s = (Some h, record_call (C_objrefr h) r s)"
  by (auto simp: steady_def objref_def)

lemma steady_objdefr: "steady E h \<Longrightarrow> objdefr E h s = Some (record_call (C_objdefr h) 0 s)"
  by (simp add: steady_def objdefr_def sysc_def Let_def)

lemma steady_objdefr_ncb:
  "steady E h \<Longrightarrow> ncbs s h = Some n \<Longrightarrow> hld n = h \<Longrightarrow> objdefr_ncb E h s = Some (record_call (C_objdefr h) 0 s)"
  by (simp add: objdefr_ncb_def steady_objdefr)

lemma steady_tcprefr:
  assumes "steady E h" "ncbs s h = Some n" "proto_type n = kProto_TCP" "0 \<le> h"
  shows "\<exists>r. tcprefr E h s = Some ((0, Some h), record_call (C_objrefr h) r s)"
proof -
  obtain r where "objrefr E h s = (Some h, record_call (C_objrefr h) r s)"
    using steady_objrefr [OF assms(1,2)] ..
  then show ?thesis using assms by (auto simp: tcprefr_def)
qed

lemmas steady_ops = steady_objdefr steady_objdefr_ncb

subsection \<open>Templates\<close>

text \<open>
  A protocol template set on a TCP link by \<open>tcp_settst\<close> is what \<open>tcp_gettst\<close> reads back,
  and nothing else of the link changes.
\<close>

theorem tst_roundtrip:
  assumes "steady E h" "ncbs s h = Some n" "proto_type n = kProto_TCP" "hld n = h" "0 \<le> h"
  shows "\<exists>s1 s2. tcp_settst E h (Some t) s = Some (0, s1) \<and> ncbs s1 = (ncbs s)(h \<mapsto> n\<lparr>tcp_tst := t\<rparr>)
    \<and> heap s1 = heap s \<and> tcp_gettst E h (Some t0) s1 = Some ((0, Some t), s2) \<and> ncbs s2 = ncbs s1"
proof -
  obtain r where a: "tcprefr E h s = Some ((0, Some h), record_call (C_objrefr h) r s)"
    using steady_tcprefr [OF assms(1-3,5)] ..
  let ?s0 = "(record_call (C_objrefr h) r s)\<lparr>ncbs := (ncbs s)(h \<mapsto> n\<lparr>tcp_tst := t\<rparr>)\<rparr>"
  let ?s1 = "record_call (C_objdefr h) 0 ?s0"
  have 1: "tcp_settst E h (Some t) s = Some (0, ?s1)"
    using assms a by (simp add: tcp_settst_def steady_objdefr_ncb)
  obtain r' where b: "tcprefr E h ?s1 = Some ((0, Some h), record_call (C_objrefr h) r' ?s1)"
    using steady_tcprefr [OF assms(1), of ?s1 "n\<lparr>tcp_tst := t\<rparr>"] assms by auto
  have "tcp_gettst E h (Some t0) ?s1 = Some ((0, Some t), record_call (C_objdefr h) 0 (record_call (C_objrefr h) r' ?s1))"
    using assms b by (simp add: tcp_gettst_def steady_objdefr_ncb)
  with 1 show ?thesis by fastforce
qed

lemma w_steady: "steady w_env h"
  by (simp add: steady_def w_defs)

lemma tst_roundtrip_witness:
  "\<exists>s1 s2. tcp_settst w_env 7 (Some \<lparr>tst_cb = 8, builder = 2, parser = 3\<rparr>) w_tx = Some (0, s1)
    \<and> tcp_gettst w_env 7 (Some \<lparr>tst_cb = 0, builder = 0, parser = 0\<rparr>) s1
      = Some ((0, Some \<lparr>tst_cb = 8, builder = 2, parser = 3\<rparr>), s2)"
proof -
  have "ncbs w_tx 7 = Some w_ncb" "proto_type w_ncb = kProto_TCP" "hld w_ncb = 7"
    by (simp_all add: w_tx_def w_st_def w_ncb_def)
  then show ?thesis using tst_roundtrip [OF w_steady] by fastforce
qed

text \<open>
  C38. \<open>tcp_settst_r\<close>, which \<open>NI_SETTST\<close> calls, does not set the template: it returns 0 and the
  link keeps the template it had, because each field is assigned the value it was exchanged
  for. What \<open>tcp_gettst_r\<close> reads afterwards is the old template.
\<close>

theorem settst_r_has_no_effect:
  assumes "steady E h" "ncbs s h = Some n" "proto_type n = kProto_TCP" "0 \<le> h"
    and "tst_cb t \<le> TCP_MAXIMUM_TEMPLATE_SIZE"
  shows "\<exists>s1 s2. tcp_settst_r E h (Some t) s = Some (0, s1) \<and> ncbs s1 = ncbs s
    \<and> tcp_gettst_r E h (Some t0) (Some p0) s1 = Some ((0, Some (tcp_tst n), Some t0), s2)"
proof -
  obtain r where a: "tcprefr E h s = Some ((0, Some h), record_call (C_objrefr h) r s)"
    using steady_tcprefr [OF assms(1-4)] ..
  let ?s1 = "record_call (C_objdefr h) 0 ((record_call (C_objrefr h) r s)\<lparr>ncbs := ncbs s\<rparr>)"
  have u: "(ncbs s)(h \<mapsto> n) = ncbs s" using assms(2) by auto
  have 1: "tcp_settst_r E h (Some t) s = Some (0, ?s1)"
    using assms a u by (simp add: tcp_settst_r_def steady_objdefr)
  obtain r' where b: "tcprefr E h ?s1 = Some ((0, Some h), record_call (C_objrefr h) r' ?s1)"
    using steady_tcprefr [OF assms(1), of ?s1 n] assms by auto
  have "tcp_gettst_r E h (Some t0) (Some p0) ?s1
      = Some ((0, Some (tcp_tst n), Some t0), record_call (C_objdefr h) 0 (record_call (C_objrefr h) r' ?s1))"
    using assms b by (simp add: tcp_gettst_r_def steady_objdefr)
  with 1 show ?thesis by fastforce
qed

lemma settst_r_has_no_effect_witness:
  "\<exists>s1. tcp_settst_r w_env 7 (Some \<lparr>tst_cb = 8, builder = 2, parser = 3\<rparr>) w_tx = Some (0, s1)
    \<and> ncbs s1 = ncbs w_tx"
proof -
  have "ncbs w_tx 7 = Some w_ncb" "proto_type w_ncb = kProto_TCP"
    by (simp_all add: w_tx_def w_st_def w_ncb_def)
  then show ?thesis
    using settst_r_has_no_effect [OF w_steady, of w_tx 7 w_ncb "\<lparr>tst_cb = 8, builder = 2, parser = 3\<rparr>"]
    by (auto simp: TCP_MAXIMUM_TEMPLATE_SIZE_def)
qed

subsection \<open>Attributes and masks\<close>

lemma word_or_and_self: "(x OR a) AND a = (a :: u32)"
  by (rule bit_word_eqI) (auto simp: bit_simps)

lemma word_andnot_and_self: "(x AND NOT a) AND a = (0 :: u32)"
  by (rule bit_word_eqI) (auto simp: bit_simps)

lemma word_other_bits:
  assumes "a AND b = (0 :: u32)"
  shows "(x OR a) AND b = x AND b" "(x AND NOT a) AND b = x AND b"
proof -
  have "\<not> (bit a i \<and> bit b i)" for i using arg_cong [OF assms, of "\<lambda>w. bit w i"] by (simp add: bit_and_iff)
  then show "(x OR a) AND b = x AND b" "(x AND NOT a) AND b = x AND b"
    by (auto intro!: bit_word_eqI simp: bit_simps)
qed

definition known_attrs :: "nisdef \<Rightarrow> u32 set" where
  "known_attrs N = {LINKATTR_TCP_FULLY_RECEIVE N, LINKATTR_TCP_NO_BUILD N, LINKATTR_TCP_UPDATE_ACCEPT_CONTEXT N}"

lemma getattr_value:
  assumes "steady E h" "ncbs s h = Some n" "proto_type n = kProto_TCP" "0 \<le> h"
  shows "\<exists>s2. tcp_getattr E h b (Some e0) s = Some ((0, Some (if attr n AND b \<noteq> 0 then 1 else 0)), s2) \<and> ncbs s2 = ncbs s"
proof -
  obtain r where "tcprefr E h s = Some ((0, Some h), record_call (C_objrefr h) r s)"
    using steady_tcprefr [OF assms] ..
  then show ?thesis using assms by (simp add: tcp_getattr_def steady_objdefr)
qed

text \<open>
  C33. An attribute that \<open>tcp_setattr\<close> knows is read back as it was set, on or off, and every
  attribute that shares no bit with it keeps its value; an unknown attribute is refused with
  \<open>-EINVAL\<close> and changes nothing.
\<close>

theorem attr_roundtrip:
  assumes "steady E h" "ncbs s h = Some n" "proto_type n = kProto_TCP" "0 \<le> h"
  shows "\<exists>r s1. tcp_setattr E h a enable s = Some (r, s1)
    \<and> (if a \<in> known_attrs (e_nis E)
       then r = 0 \<and> (\<exists>s2. tcp_getattr E h a (Some e0) s1 = Some ((0, Some (if enable > 0 \<and> a \<noteq> 0 then 1 else 0)), s2))
         \<and> (\<forall>b. a AND b = 0 \<longrightarrow> (\<exists>s2 s3 v. tcp_getattr E h b (Some e0) s1 = Some ((0, Some v), s2)
              \<and> tcp_getattr E h b (Some e0) s = Some ((0, Some v), s3)))
       else r = - EINVAL \<and> ncbs s1 = ncbs s)"
proof -
  obtain q where a: "tcprefr E h s = Some ((0, Some h), record_call (C_objrefr h) q s)"
    using steady_tcprefr [OF assms] ..
  show ?thesis
  proof (cases "a \<in> known_attrs (e_nis E)")
    case True
    define a' where "a' = (if enable > 0 then attr n OR a else attr n AND NOT a)"
    let ?n = "n\<lparr>attr := a'\<rparr>"
    let ?s1 = "record_call (C_objdefr h) 0 ((record_call (C_objrefr h) q s)\<lparr>ncbs := (ncbs s)(h \<mapsto> ?n)\<rparr>)"
    have 1: "tcp_setattr E h a enable s = Some (0, ?s1)"
      using assms a True by (auto simp: tcp_setattr_def known_attrs_def steady_objdefr a'_def)
    have g: "\<exists>s2. tcp_getattr E h b (Some e0) ?s1 = Some ((0, Some (if attr ?n AND b \<noteq> 0 then 1 else 0)), s2)" for b
      using getattr_value [OF assms(1) _ _ assms(4), of ?s1 ?n b e0] assms(3) by auto
    have "a' AND a = (if enable > 0 then a else 0)"
      by (simp add: a'_def word_or_and_self word_andnot_and_self)
    then have 2: "\<exists>s2. tcp_getattr E h a (Some e0) ?s1
        = Some ((0, Some (if enable > 0 \<and> a \<noteq> 0 then 1 else 0)), s2)"
      using g [of a] by (cases "enable > 0") auto
    have 3: "\<exists>s2 s3 v. tcp_getattr E h b (Some e0) ?s1 = Some ((0, Some v), s2)
        \<and> tcp_getattr E h b (Some e0) s = Some ((0, Some v), s3)" if "a AND b = 0" for b
    proof -
      have "attr ?n AND b = attr n AND b"
        using word_other_bits [OF that, of "attr n"] by (simp add: a'_def)
      then show ?thesis using g [of b] getattr_value [OF assms, of b e0] by metis
    qed
    show ?thesis using 1 2 3 True by auto
  next
    case False
    then have "tcp_setattr E h a enable s = Some (- EINVAL, record_call (C_objdefr h) 0 (record_call (C_objrefr h) q s))"
      using assms a by (simp add: tcp_setattr_def known_attrs_def steady_objdefr)
    with False show ?thesis by simp
  qed
qed

lemma attr_roundtrip_witness:
  "\<exists>s1 s2. tcp_setattr w_env 7 2 1 w_tx = Some (0, s1) \<and> tcp_getattr w_env 7 2 (Some 0) s1 = Some ((0, Some 1), s2)"
proof -
  have "ncbs w_tx 7 = Some w_ncb" "proto_type w_ncb = kProto_TCP" "2 \<in> known_attrs (e_nis w_env)"
    by (simp_all add: w_tx_def w_st_def w_ncb_def known_attrs_def w_env_def w_nis_def)
  then show ?thesis using attr_roundtrip [OF w_steady, of w_tx 7 w_ncb 2 1 0] by auto
qed

text \<open>
  The mask of a link of any kind, set by \<open>nis_setmask\<close>, is read back by \<open>nis_getmask\<close> and by
  \<open>NI_GETATTR\<close>, for every 32-bit value.
\<close>

theorem mask_roundtrip:
  assumes "steady E h" "ncbs s h = Some n" "- (2 ^ 31) \<le> m" "m < 2 ^ 31"
    and "NI_GETATTR (e_nis E) \<noteq> NI_SETATTR (e_nis E)"
  shows "\<exists>s1 s2 s3. nis_setmask E h m s = Some (0, s1) \<and> nis_getmask E h (Some m0) s1 = Some ((0, Some m), s2)
    \<and> nis_cntl E stack h (NI_GETATTR (e_nis E)) arg s1 = Some ((m, arg), s3)"
proof -
  have m: "sint (word_of_int m :: u32) = m" using assms by (simp add: int_word_sint)
  obtain r where o: "objrefr E h s = (Some h, record_call (C_objrefr h) r s)"
    using steady_objrefr [OF assms(1,2)] ..
  let ?s1 = "record_call (C_objdefr h) 0 ((record_call (C_objrefr h) r s)\<lparr>ncbs := (ncbs s)(h \<mapsto> n\<lparr>attr := word_of_int m\<rparr>)\<rparr>)"
  have 1: "nis_setmask E h m s = Some (0, ?s1)" using o assms by (simp add: nis_setmask_def steady_objdefr)
  obtain r' where o': "objrefr E h ?s1 = (Some h, record_call (C_objrefr h) r' ?s1)"
    using steady_objrefr [OF assms(1), of ?s1 "n\<lparr>attr := word_of_int m\<rparr>"] by auto
  have "\<exists>s2. nis_getmask E h (Some m0) ?s1 = Some ((0, Some m), s2)"
    using o' assms m by (simp add: nis_getmask_def steady_objdefr)
  moreover have "\<exists>s3. nis_cntl E stack h (NI_GETATTR (e_nis E)) arg ?s1 = Some ((m, arg), s3)"
    using o' assms m by (simp add: nis_cntl_def steady_objdefr)
  ultimately show ?thesis using 1 by blast
qed

lemma mask_roundtrip_witness:
  "\<exists>s1 s2. nis_setmask w_env 7 (- 5) w_tx = Some (0, s1) \<and> nis_getmask w_env 7 (Some 0) s1 = Some ((0, Some (- 5)), s2)"
proof -
  have "ncbs w_tx 7 = Some w_ncb" "NI_GETATTR (e_nis w_env) \<noteq> NI_SETATTR (e_nis w_env)"
    by (simp_all add: w_tx_def w_st_def w_env_def w_nis_def)
  then show ?thesis using mask_roundtrip [OF w_steady, of w_tx 7 w_ncb "- 5"] by fastforce
qed

subsection \<open>The user context\<close>

text \<open>
  C34. A user context stored by \<open>nis_setctx\<close> on a link without one is read back byte for byte by
  \<open>nis_getctx\<close>, at the start of the caller's buffer, with its size; the rest of the buffer and
  the other memory of the program stay as they were.
\<close>

theorem ctx_roundtrip:
  assumes "steady E h" "mallocs E" "ncbs s h = Some n" "hld n = h" "ncb_ctx n = Null" "ncb_ctx_size n = 0"
    and "data \<noteq> []" "int (length data) < 2 ^ 31" "length data \<le> length buf"
  shows "\<exists>s1 s2. nis_setctx E h (Some data) (int (length data)) s = Some (0, s1)
    \<and> nis_getctx E h (Some buf) (Some z) s1
      = Some ((0, Some (data @ drop (length data) buf), Some (int (length data))), s2)
    \<and> (\<forall>b. b \<noteq> nextb s \<longrightarrow> heap s1 b = heap s b)"
proof -
  let ?m = "int (length data)"
  have sz: "size_t ?m = length data" using assms(8) by simp
  obtain r where o: "objrefr E h s = (Some h, record_call (C_objrefr h) r s)"
    using steady_objrefr [OF assms(1,3)] ..
  let ?s0 = "record_call (C_objrefr h) r s"
  let ?n = "n\<lparr>ncb_ctx_size := ?m, ncb_ctx := Ptr (nextb s) 0\<rparr>"
  obtain s3 where b: "setctx_body E h (Some data) ?m ?s0 = Some (0, s3)"
    and s3: "ncbs s3 = (ncbs s)(h \<mapsto> ?n)" "heap s3 = (heap s)(nextb s \<mapsto> Bytes Crt data)"
    using assms(3,5,6,7) sz
    by (simp add: setctx_body_def malloc_ok [OF assms(2)] copy_origin_def store_bytes Let_def)
      (simp add: overwrite_def)
  have 1: "nis_setctx E h (Some data) ?m s = Some (0, record_call (C_objdefr h) 0 s3)"
    using o b s3 assms by (simp add: nis_setctx_def steady_objdefr_ncb)
  let ?s1 = "record_call (C_objdefr h) 0 s3"
  obtain r' where o': "objrefr E h ?s1 = (Some h, record_call (C_objrefr h) r' ?s1)"
    using steady_objrefr [OF assms(1), of ?s1 ?n] s3 by auto
  have "overwrite buf 0 data = data @ drop (length data) buf" by (simp add: overwrite_def)
  then have "\<exists>s2. nis_getctx E h (Some buf) (Some z) ?s1
      = Some ((0, Some (data @ drop (length data) buf), Some ?m), s2)"
    using o' s3 assms by (simp add: nis_getctx_def steady_objdefr_ncb load_bytes)
  then obtain s2 where "nis_getctx E h (Some buf) (Some z) ?s1
      = Some ((0, Some (data @ drop (length data) buf), Some ?m), s2)" ..
  with 1 s3 show ?thesis by (intro exI [of _ ?s1] exI [of _ s2]) simp
qed

lemma ctx_roundtrip_witness:
  "\<exists>s1 s2. nis_setctx w_env 7 (Some [4, 5]) 2 w_tx = Some (0, s1)
    \<and> nis_getctx w_env 7 (Some [0, 0, 9]) (Some 3) s1 = Some ((0, Some [4, 5, 9], Some 2), s2)"
proof -
  have "ncbs w_tx 7 = Some w_ncb" "hld w_ncb = 7" "ncb_ctx w_ncb = Null" "ncb_ctx_size w_ncb = 0"
    by (simp_all add: w_tx_def w_st_def w_ncb_def ncb_zero_def)
  then show ?thesis
    using ctx_roundtrip [OF w_steady w_env_ok(1), of w_tx 7 w_ncb "[4, 5]" "[0, 0, 9]" 3] by auto
qed

text \<open>
  C39. Clearing the user context of a link twice is undefined: the first call of \<open>nis_setctx\<close> with
  NULL frees the block and returns 0, but the control block keeps the pointer to it, and the
  second call frees it again.
\<close>

theorem ctx_clear_twice_undefined:
  assumes "steady E h" "ncbs s h = Some n" "hld n = h" "ncb_ctx n = Ptr b 0" "heap s b = Some (Bytes Crt bs)"
  shows "\<exists>s1. nis_setctx E h None 0 s = Some (0, s1) \<and> heap s1 b = None \<and> nis_setctx E h None 0 s1 = None"
proof -
  obtain r where o: "objrefr E h s = (Some h, record_call (C_objrefr h) r s)"
    using steady_objrefr [OF assms(1,2)] ..
  let ?s0 = "record_call (C_objrefr h) r s"
  let ?n = "n\<lparr>ncb_ctx_size := 0\<rparr>"
  let ?s1 = "record_call (C_objdefr h) 0 (?s0\<lparr>heap := (heap s)(b := None), ncbs := (ncbs s)(h \<mapsto> ?n)\<rparr>)"
  have 1: "nis_setctx E h None 0 s = Some (0, ?s1)"
    using o assms by (simp add: nis_setctx_def setctx_body_def free_bytes steady_objdefr_ncb)
  obtain r' where o': "objrefr E h ?s1 = (Some h, record_call (C_objrefr h) r' ?s1)"
    using steady_objrefr [OF assms(1), of ?s1 ?n] by auto
  have "nis_setctx E h None 0 ?s1 = None"
    using o' assms by (simp add: nis_setctx_def setctx_body_def free_def)
  with 1 show ?thesis by (intro exI [of _ ?s1]) simp
qed

lemma ctx_clear_twice_undefined_witness:
  "\<exists>s s1. nis_setctx w_env 7 None 0 s = Some (0, s1) \<and> nis_setctx w_env 7 None 0 s1 = None"
proof -
  let ?n = "w_ncb\<lparr>ncb_ctx := Ptr 0 0, ncb_ctx_size := 1\<rparr>"
  let ?s = "(w_st [0 \<mapsto> Bytes Crt [1]] 1)\<lparr>ncbs := [7 \<mapsto> ?n]\<rparr>"
  have "ncbs ?s 7 = Some ?n" "hld ?n = 7" "ncb_ctx ?n = Ptr 0 0" "heap ?s 0 = Some (Bytes Crt [1])"
    by (simp_all add: w_st_def w_ncb_def)
  from ctx_clear_twice_undefined [OF w_steady this] show ?thesis by blast
qed

text \<open>
  C35. The context pointer set by \<open>NI_SETCTX\<close> is what \<open>NI_GETCTX\<close> stores through its argument, but
  \<open>NI_GETCTX\<close> also overwrites the previous context of the link with whatever its uninitialised
  local variable held.
\<close>

theorem cntl_ctx_roundtrip:
  assumes "steady E h" "ncbs s h = Some n"
    and "distinct [NI_SETATTR (e_nis E), NI_GETATTR (e_nis E), NI_SETCTX (e_nis E), NI_GETCTX (e_nis E)]"
  shows "\<exists>s1 s2 n2. nis_cntl E k1 h (NI_SETCTX (e_nis E)) (A_ptr c) s = Some ((0, A_ptr c), s1)
    \<and> nis_cntl E k2 h (NI_GETCTX (e_nis E)) (A_out old) s1 = Some ((0, A_out c), s2)
    \<and> ncbs s2 h = Some n2 \<and> context_ptr n2 = c \<and> prcontext n2 = k2"
proof -
  obtain r where o: "objrefr E h s = (Some h, record_call (C_objrefr h) r s)"
    using steady_objrefr [OF assms(1,2)] ..
  let ?n = "n\<lparr>prcontext := context_ptr n, context_ptr := c\<rparr>"
  let ?s1 = "record_call (C_objdefr h) 0 ((record_call (C_objrefr h) r s)\<lparr>ncbs := (ncbs s)(h \<mapsto> ?n)\<rparr>)"
  have 1: "nis_cntl E k1 h (NI_SETCTX (e_nis E)) (A_ptr c) s = Some ((0, A_ptr c), ?s1)"
    using o assms by (simp add: nis_cntl_def steady_objdefr)
  obtain r' where o': "objrefr E h ?s1 = (Some h, record_call (C_objrefr h) r' ?s1)"
    using steady_objrefr [OF assms(1), of ?s1 ?n] by auto
  let ?n2 = "?n\<lparr>prcontext := k2\<rparr>"
  have "\<exists>s2. nis_cntl E k2 h (NI_GETCTX (e_nis E)) (A_out old) ?s1 = Some ((0, A_out c), s2) \<and> ncbs s2 h = Some ?n2"
    using o' assms by (simp add: nis_cntl_def steady_objdefr)
  then show ?thesis using 1 by fastforce
qed

lemma cntl_ctx_roundtrip_witness:
  "\<exists>s1 s2 n2. nis_cntl w_env 0 7 3 (A_ptr 77) w_tx = Some ((0, A_ptr 77), s1)
    \<and> nis_cntl w_env 99 7 4 (A_out 0) s1 = Some ((0, A_out 77), s2) \<and> ncbs s2 7 = Some n2 \<and> prcontext n2 = 99"
proof -
  have "ncbs w_tx 7 = Some w_ncb" by (simp add: w_tx_def w_st_def)
  moreover have c: "NI_SETATTR (e_nis w_env) = 1" "NI_GETATTR (e_nis w_env) = 2" "NI_SETCTX (e_nis w_env) = 3"
    "NI_GETCTX (e_nis w_env) = 4" by (simp_all add: w_env_def w_nis_def)
  ultimately show ?thesis
    using cntl_ctx_roundtrip [OF w_steady, of w_tx 7 w_ncb 0 77 99 0] by auto
qed

subsection \<open>Waking a worker\<close>

lemma pipe_packet_alloc:
  assumes "allocating E" "0 \<le> h"
  shows "\<exists>s'. allocate_packet E h kProto_PIPE kPipe 0 kNoAccess s = Some ((0, Some (nextb s)), s')
    \<and> heap s' = (heap s)(nextb s \<mapsto> Pkt (packet_init h kProto_PIPE kPipe 0 kNoAccess Null)) \<and> ncbs s' = ncbs s
    \<and> events (trace s') = events (trace s) \<and> requests (trace s') = requests (trace s) \<and> refs s' = refs s"
  using assms
  by (simp add: allocate_packet_def malloc_new_def sysc_def allocating_def alloc_obj_def Let_def
      packet_buffer_def get_pkt_heap_upd refs_def fun_eq_iff)

text \<open>
  C40. A wake-up carries data through the completion port: the bytes given to \<open>tcp_awaken\<close> (or
  \<open>udp_awaken\<close>, the same code) are posted in a packet of their own to the port of the link, and
  its dispatch hands exactly these bytes to the user of the link and frees packet and buffer.
  But each of the two steps takes a reference on the link and gives none back, so that after a
  wake-up the link has two references more and is never unloaded.
\<close>

theorem wakeup_roundtrip:
  assumes "steady E h" "allocating E" "ncbs s h = Some n" "hld n = h" "0 \<le> h" "nis_callback n \<noteq> 0" "wf_heap s"
    and "io_get_pipefd h s = Some fd" "fd \<noteq> 0" "\<forall>t p. e_sys E t (C_PostQueuedCompletionStatus fd cb p) \<noteq> 0"
    and "0 < cb" "cb < 2 ^ 31" "cb \<le> int (length data)"
  shows "\<exists>p s1 s2. tcp_awaken E h (Some data) cb s = Some (0, s1)
    \<and> requests (trace s1) = requests (trace s) @ [I_PostQueuedCompletionStatus fd cb (Some p)]
    \<and> so_dispatch_io_event E (Some p) cb status s1 = Some s2
    \<and> events (trace s2) = events (trace s) @ [EvPipe h cb (take (nat cb) data)]
    \<and> heap s2 = heap s \<and> ncbs s2 = ncbs s \<and> refs s2 = (refs s)(h := refs s h + 2)"
proof -
  have M: "mallocs E" using assms(2) by (simp add: allocating_def)
  obtain r where o: "objrefr E h s = (Some h, record_call (C_objrefr h) r s)" "r \<noteq> 0"
    using assms(1,3) by (auto simp: steady_def objref_def)
  let ?s1 = "record_call (C_objrefr h) r s" and ?b = "nextb s" and ?p = "Suc (nextb s)"
  have sz: "size_t cb = nat cb" using assms(11,12) by simp
  obtain s2 where 2: "malloc E cb ?s1 = (Ptr ?b 0, s2)" "nextb s2 = ?p" "ncbs s2 = ncbs s" "events (trace s2) = events (trace s)"
    "heap s2 = (heap s)(?b \<mapsto> Bytes Crt (map (e_junk E (trace ?s1)) [0..<nat cb]))"
    "requests (trace s2) = requests (trace s)" "refs s2 = (refs s)(h := refs s h + 1)"
    using o(2) by (simp add: malloc_ok [OF M] sz Let_def refs_def fun_eq_iff)
  obtain s3 where 3: "allocate_packet E h kProto_PIPE kPipe 0 kNoAccess s2 = Some ((0, Some ?p), s3)"
    "heap s3 = (heap s2)(?p \<mapsto> Pkt (packet_init h kProto_PIPE kPipe 0 kNoAccess Null))" "ncbs s3 = ncbs s2"
    "events (trace s3) = events (trace s2)" "requests (trace s3) = requests (trace s2)" "refs s3 = refs s2"
    using pipe_packet_alloc [OF assms(2,5), of s2] 2(2) by auto
  let ?k = "(packet_init h kProto_PIPE kPipe 0 kNoAccess Null)\<lparr>link := h, ori_buffer := Ptr ?b 0\<rparr>"
  let ?H = "(heap s)(?b \<mapsto> Bytes Crt (take (nat cb) data))"
  let ?s5 = "s3\<lparr>heap := ?H(?p \<mapsto> Pkt ?k)\<rparr>"
  have c: "copy_origin (Ptr ?b 0) data cb (s3\<lparr>heap := (heap s3)(?p \<mapsto> Pkt ?k)\<rparr>) = Some ?s5"
    using assms(11,13) 2(5) 3(2) by (simp add: copy_origin_def store_bytes overwrite_def fun_upd_twist)
  let ?c = "C_PostQueuedCompletionStatus fd cb (Some ?p)"
  let ?s6 = "record_call ?c (e_sys E (trace ?s5) ?c) ?s5"
  have "io_get_pipefd h ?s1 = Some fd" using assms(8) by (simp add: io_get_pipefd_def epos_at_def)
  then have w: "tcp_awaken E h (Some data) cb s = Some (0, ?s6)"
    using o(1) 2(1) 3(1,2) c assms(9-11) by (simp add: tcp_awaken_def sysc_def Let_def get_pkt_def)
  let ?k7 = "?k\<lparr>size_for_translation := cb\<rparr>"
  let ?s7 = "?s6\<lparr>heap := ?H(?p \<mapsto> Pkt ?k7)\<rparr>"
  have n7: "ncbs ?s7 h = Some n" using 2(3) 3(3) assms(3) by simp
  obtain r' where o': "objrefr E h ?s7 = (Some h, record_call (C_objrefr h) r' ?s7)" "r' \<noteq> 0"
    using assms(1) n7 by (auto simp: steady_def objref_def)
  let ?s8 = "emit (EvPipe h cb (take (nat cb) data)) (record_call (C_objrefr h) r' ?s7)"
  have ld: "load (Ptr ?b 0) cb (record_call (C_objrefr h) r' ?s7) = Some (take (nat cb) data)"
    using assms(11,13) by (simp add: load_def bytes_at_def)
  have fresh: "heap s ?b = None" "heap s ?p = None" using assms(7) by (simp_all add: wf_heap_def)
  have "freepkt E (Some ?p) ?s8 = Some (?s8\<lparr>heap := heap s\<rparr>)"
    using fresh by (simp add: freepkt_def get_pkt_def packet_init_def free_def mod_pkt_def emit_def fun_eq_iff)
  then have d: "so_dispatch_io_event E (Some ?p) cb status ?s6 = Some (?s8\<lparr>heap := heap s\<rparr>)"
    using o'(1) ld n7 assms(4,6)
    by (simp add: so_dispatch_io_event_def so_dispatch_pipe_event_def get_pkt_def mod_pkt_def packet_init_def
        ncb_post_pipedata_def)
  have "refs (?s8\<lparr>heap := heap s\<rparr>) = (refs s)(h := refs s h + 2)"
    using o'(2) 2(7) 3(6) by (simp add: refs_def fun_eq_iff emit_def)
  with w d show ?thesis using 2(3,4,6) 3(3-5)
    by (intro exI [of _ ?p] exI [of _ ?s6] exI [of _ "?s8\<lparr>heap := heap s\<rparr>"]) (simp add: emit_def)
qed

lemma wakeup_roundtrip_witness:
  "\<exists>p s1 s2. tcp_awaken (w_env\<lparr>e_sys := \<lambda>t c. case c of Io _ \<Rightarrow> 1 | _ \<Rightarrow> w_sys t c\<rparr>) 7 (Some [5, 6]) 2
      (w_tx\<lparr>epos := Some [\<lparr>epfd = 100, actived = True, thread = 1, load_cnt = 0\<rparr>], divisions := 1\<rparr>) = Some (0, s1)
    \<and> so_dispatch_io_event (w_env\<lparr>e_sys := \<lambda>t c. case c of Io _ \<Rightarrow> 1 | _ \<Rightarrow> w_sys t c\<rparr>) (Some p) 2 0 s1 = Some s2
    \<and> events (trace s2) = [EvPipe 7 2 [5, 6]] \<and> refs s2 7 = 2"
proof -
  let ?E = "w_env\<lparr>e_sys := \<lambda>t c. case c of Io _ \<Rightarrow> 1 | _ \<Rightarrow> w_sys t c\<rparr>"
  let ?s = "w_tx\<lparr>epos := Some [\<lparr>epfd = 100, actived = True, thread = 1, load_cnt = 0\<rparr>], divisions := 1\<rparr>"
  have e: "steady ?E 7" "allocating ?E" "ncbs ?s 7 = Some w_ncb" "hld w_ncb = 7" "nis_callback w_ncb \<noteq> 0" "wf_heap ?s"
    "io_get_pipefd 7 ?s = Some 100" "\<forall>t p. e_sys ?E t (C_PostQueuedCompletionStatus 100 2 p) \<noteq> 0"
    by (simp_all add: steady_def allocating_def mallocs_def w_defs w_tx_def wf_heap_def io_get_pipefd_def c_mod_def epos_at_def)
  have z: "events (trace ?s) = []" "refs ?s 7 = 0" by (simp_all add: w_tx_def w_st_def refs_def)
  from wakeup_roundtrip [OF e(1-4) _ e(5-7) _ e(8), of "[5, 6]" 0] show ?thesis using z by fastforce
qed

end
