(* ===== verification/Loops.thy ===== *)
theory Loops
  imports Prelude
begin

text \<open>
  Loops of the code that only the answers of the system bring to an end. The code has no bound
  on their rounds; they return when some rank, which counts the bad answers still to come,
  falls in every round.
\<close>

text \<open>
  \<open>body\<close> is one round: undefined, an exit with a result, or the state of the next round. \<open>ok\<close> is
  what holds before each round, and \<open>post x r\<close> what the result \<open>r\<close> of the loop from \<open>x\<close> satisfies.
\<close>

locale settling_loop =
  fixes body :: "'x \<Rightarrow> ('r + 'x) option" and run :: "'x \<Rightarrow> 'r option"
    and ok :: "'x \<Rightarrow> bool" and rank :: "'x \<Rightarrow> nat" and post :: "'x \<Rightarrow> 'r \<Rightarrow> bool"
  assumes run_body: "run x = (case body x of None \<Rightarrow> None | Some (Inl r) \<Rightarrow> Some r | Some (Inr y) \<Rightarrow> run y)"
    and defined: "ok x \<Longrightarrow> body x \<noteq> None"
    and settles: "ok x \<Longrightarrow> body x = Some (Inr y) \<Longrightarrow> ok y \<and> rank y < rank x"
    and exits: "ok x \<Longrightarrow> body x = Some (Inl r) \<Longrightarrow> post x r"
    and carries: "ok x \<Longrightarrow> body x = Some (Inr y) \<Longrightarrow> post y r \<Longrightarrow> post x r"
begin

lemma returns: "ok x \<Longrightarrow> \<exists>r. run x = Some r \<and> post x r"
proof (induction "rank x" arbitrary: x rule: less_induct)
  case less
  from defined [OF less.prems] obtain out where out: "body x = Some out" by blast
  show ?case
  proof (cases out)
    case (Inl r)
    with out exits [OF less.prems] show ?thesis by (simp add: run_body)
  next
    case (Inr y)
    with out settles [OF less.prems] have y: "ok y" "rank y < rank x" by simp_all
    from less.hyps [OF y(2,1)] obtain r where "run y = Some r" "post y r" by blast
    with out Inr carries [OF less.prems, of y r] show ?thesis by (simp add: run_body [of x])
  qed
qed

end

end
