(* ===== verification/Udp_Props.thy ===== *)
theory Udp_Props
  imports Link_Props Loops
begin

text \<open>
  Properties of UDP links: a write sends one datagram, a received datagram reaches the user and
  the request is issued again, ICMP errors do not close the link, groups are allocated and
  released without loss.
\<close>

subsection \<open>Sending\<close>

lemma udp_tx_loop_done [simp]: "udp_tx_loop E h p cb a cb s = Some (0, s)"
  by (subst udp_tx_loop.simps) simp

lemma udp_tx_loop_one:
  assumes "ncbs s h = Some n" "load p cb s = Some bs" "0 < cb" "cb < 2 ^ 31"
    and "e_sys E (trace s) (C_sendto (sockfd n) bs a) = w"
    and "w = cb \<or> w \<le> 0 \<and> (\<forall>t. e_sys E t C_errno \<noteq> EINTR)"
  shows "\<exists>s'. udp_tx_loop E h p cb a 0 s = Some (if w = cb then 0 else - 1, s') \<and> heap s' = heap s
    \<and> ncbs s' = ncbs s \<and> requests (trace s') = requests (trace s) @ [I_sendto (sockfd n) bs a] \<and> refs s' = refs s"
  using assms
  by (subst udp_tx_loop.simps) (auto simp: sysc_def Let_def refs_groups)

text \<open>
  What \<open>udp_write\<close> does around the sending loop: it takes a reference, copies the data into a
  buffer of its own, and afterwards frees the buffer and releases the reference.
\<close>

definition udp_target :: "env \<Rightarrow> string \<Rightarrow> u16 \<Rightarrow> sockaddr_in" where
  "udp_target E str r_port = \<lparr>sin_family = AF_INET, sin_port = htons r_port, sin_addr = e_inet_addr E str\<rparr>"

lemma udp_write_around:
  assumes "steady E h" "mallocs E" "ncbs s h = Some n" "0 \<le> h" "wf_heap s"
    and "r_port \<noteq> 0" "0 < cb" "cb \<le> MAX_UDP_UNIT (e_nis E)" "cb < 2 ^ 31" "cb \<le> int (length data)"
  shows "\<exists>b s1. heap s1 = (heap s)(b \<mapsto> Bytes Crt (take (nat cb) data)) \<and> ncbs s1 = ncbs s
    \<and> requests (trace s1) = requests (trace s) \<and> refs s1 = (refs s)(h := refs s h + 1)
    \<and> (\<forall>w s2. udp_tx_loop E h (Ptr b 0) cb (udp_target E str r_port) 0 s1 = Some (w, s2) \<longrightarrow> heap s2 = heap s1
        \<longrightarrow> ncbs s2 = ncbs s1 \<longrightarrow> udp_write E h (Some data) cb (Some str) r_port 0 s
          = Some (w, record_call (C_objdefr h) 0 (s2\<lparr>heap := heap s\<rparr>)))"
proof -
  obtain r where o: "objrefr E h s = (Some h, record_call (C_objrefr h) r s)" "r \<noteq> 0"
    using assms(1,3) by (auto simp: steady_def objref_def)
  let ?s1 = "record_call (C_objrefr h) r s"
  let ?b = "nextb s"
  have sz: "size_t cb = nat cb" using assms(7,9) by simp
  obtain s2 where m: "malloc E cb ?s1 = (Ptr ?b 0, s2)"
    and s2: "heap s2 = (heap s)(?b \<mapsto> Bytes Crt (map (e_junk E (trace ?s1)) [0..<nat cb]))" "ncbs s2 = ncbs s"
      "requests (trace s2) = requests (trace s)" "refs s2 = refs ?s1"
    by (simp add: malloc_ok [OF assms(2)] sz Let_def)
  let ?s3 = "s2\<lparr>heap := (heap s)(?b \<mapsto> Bytes Crt (take (nat cb) data))\<rparr>"
  have f: "fill_payload E 0 (Ptr ?b 0) (Some data) cb cb s2 = Some (True, ?s3)"
    using assms(7,10) s2 by (simp add: fill_payload_def copy_origin_def store_bytes overwrite_def)
  have fr: "free (Ptr ?b 0) x = Some (x\<lparr>heap := heap s\<rparr>)" if "heap x = heap ?s3" for x
    using that wf_heap_None [OF assms(5)] by (simp add: free_def fun_upd_idem)
  have w: "udp_write E h (Some data) cb (Some str) r_port 0 s = Some (w, record_call (C_objdefr h) 0 (x\<lparr>heap := heap s\<rparr>))"
    if "udp_tx_loop E h (Ptr ?b 0) cb (udp_target E str r_port) 0 ?s3 = Some (w, x)" "heap x = heap ?s3" for w x
    using that fr [OF that(2)] assms o m f
    by (simp add: udp_write_def udp_tx_single_packet_def udp_target_def steady_objdefr)
  have "refs ?s3 = (refs s)(h := refs s h + 1)" using s2(4) o(2) by (simp add: refs_def fun_eq_iff)
  with w s2 show ?thesis by (intro exI [of _ ?b] exI [of _ ?s3]) simp
qed

text \<open>
  C27. \<open>udp_write\<close> without a serializer sends the user's data as one datagram to the address
  and port it was given, in one call of \<open>sendto\<close>; it returns 0 when the system takes all of it
  and -1 on an error other than an interruption; the buffer is freed and the reference
  released in both cases.
\<close>

theorem udp_write_one_datagram:
  assumes "steady E h" "mallocs E" "ncbs s h = Some n" "0 \<le> h" "wf_heap s"
    and "r_port \<noteq> 0" "0 < cb" "cb \<le> MAX_UDP_UNIT (e_nis E)" "cb < 2 ^ 31" "cb \<le> int (length data)"
    and a: "a = \<lparr>sin_family = AF_INET, sin_port = htons r_port, sin_addr = e_inet_addr E str\<rparr>"
    and w: "\<forall>t. e_sys E t (C_sendto (sockfd n) (take (nat cb) data) a) = w"
    and "w = cb \<or> w \<le> 0 \<and> (\<forall>t. e_sys E t C_errno \<noteq> EINTR)"
  shows "\<exists>s'. udp_write E h (Some data) cb (Some str) r_port 0 s = Some (if w = cb then 0 else - 1, s')
    \<and> requests (trace s') = requests (trace s) @ [I_sendto (sockfd n) (take (nat cb) data) a]
    \<and> heap s' = heap s \<and> ncbs s' = ncbs s \<and> refs s' = refs s"
proof -
  obtain b s1 where 1: "heap s1 = (heap s)(b \<mapsto> Bytes Crt (take (nat cb) data))" "ncbs s1 = ncbs s"
    "requests (trace s1) = requests (trace s)" "refs s1 = (refs s)(h := refs s h + 1)"
    and run: "\<And>w s2. udp_tx_loop E h (Ptr b 0) cb a 0 s1 = Some (w, s2) \<Longrightarrow> heap s2 = heap s1 \<Longrightarrow> ncbs s2 = ncbs s1
      \<Longrightarrow> udp_write E h (Some data) cb (Some str) r_port 0 s = Some (w, record_call (C_objdefr h) 0 (s2\<lparr>heap := heap s\<rparr>))"
    using udp_write_around [OF assms(1-10), of str] unfolding a udp_target_def by blast
  have l: "load (Ptr b 0) cb s1 = Some (take (nat cb) data)"
    using assms(7,10) 1(1) by (simp add: load_def bytes_at_def)
  have n: "ncbs s1 h = Some n" using 1(2) assms(3) by simp
  obtain s2 where t: "udp_tx_loop E h (Ptr b 0) cb a 0 s1 = Some (if w = cb then 0 else - 1, s2)"
    and s2: "heap s2 = heap s1" "ncbs s2 = ncbs s1" "refs s2 = refs s1"
      "requests (trace s2) = requests (trace s1) @ [I_sendto (sockfd n) (take (nat cb) data) a]"
    using udp_tx_loop_one [OF n l assms(7,9) w [THEN spec] assms(13)] by blast
  have "refs (record_call (C_objdefr h) 0 (s2\<lparr>heap := heap s\<rparr>)) = refs s"
    using s2(3) 1(4) by (simp add: refs_def fun_eq_iff)
  then show ?thesis using run [OF t s2(1,2)] s2 1 by simp
qed

lemma udp_write_one_datagram_witness:
  "\<exists>s'. udp_write (w_env\<lparr>e_sys := \<lambda>t c. case c of Io (I_sendto _ bs _) \<Rightarrow> int (length bs) | _ \<Rightarrow> w_sys t c\<rparr>)
      7 (Some [1, 2, 3]) 2 (Some ''10.0.0.1'') 53 0 w_tx = Some (0, s')
    \<and> requests (trace s') = [I_sendto 9 [1, 2] \<lparr>sin_family = 2, sin_port = htons 53, sin_addr = 0\<rparr>] \<and> heap s' = heap w_tx"
proof -
  let ?E = "w_env\<lparr>e_sys := \<lambda>t c. case c of Io (I_sendto _ bs _) \<Rightarrow> int (length bs) | _ \<Rightarrow> w_sys t c\<rparr>"
  have n: "ncbs w_tx 7 = Some w_ncb" by (simp add: w_tx_def w_st_def)
  have e: "steady ?E 7" "mallocs ?E" "wf_heap w_tx" "(2 :: int) \<le> MAX_UDP_UNIT (e_nis ?E)"
    "\<forall>t. e_sys ?E t (C_sendto (sockfd w_ncb) (take (nat 2) [1, 2, 3])
       \<lparr>sin_family = AF_INET, sin_port = htons 53, sin_addr = e_inet_addr ?E ''10.0.0.1''\<rparr>) = 2"
    by (simp_all add: steady_def mallocs_def w_sys_def w_env_def w_nis_def wf_heap_def w_tx_def w_st_def)
  obtain s' where s': "udp_write ?E 7 (Some [1, 2, 3]) 2 (Some ''10.0.0.1'') 53 0 w_tx = Some (0, s')"
    "requests (trace s') = requests (trace w_tx) @ [I_sendto (sockfd w_ncb) (take (nat 2) [1, 2, 3])
       \<lparr>sin_family = AF_INET, sin_port = htons 53, sin_addr = e_inet_addr ?E ''10.0.0.1''\<rparr>]" "heap s' = heap w_tx"
    using udp_write_one_datagram [OF e(1,2) n _ e(3) _ _ e(4) _ _ refl e(5)] by auto
  moreover have "requests (trace w_tx) = []" "sockfd w_ncb = 9" "e_inet_addr ?E x = 0" for x
    by (simp_all add: w_tx_def w_st_def w_ncb_def w_env_def)
  ultimately show ?thesis by simp
qed

subsection \<open>The sending loop ends when the interruptions do\<close>

definition udp_tx_round :: "env \<Rightarrow> handle \<Rightarrow> ptr \<Rightarrow> int \<Rightarrow> sockaddr_in \<Rightarrow> int \<times> st \<Rightarrow> ((int \<times> st) + (int \<times> st)) option" where
  "udp_tx_round E h p cb a x = (case x of (off, s) \<Rightarrow>
     if off < cb then do {
       n \<leftarrow> ncbs s h;
       bs \<leftarrow> load (padd p off) (cb - off) s;
       let (w, s1) = sysc E (C_sendto (sockfd n) bs a) s;
       if w \<le> 0 then
         (let (e, s2) = sysc E C_errno s1 in Some (if e = EINTR then Inr (off, s2) else Inl (- 1, s2)))
       else map_option (\<lambda>off'. Inr (off', s1)) (int32 (off + w)) }
     else Some (Inl (0, s)))"

text \<open>From \<open>N\<close> calls on no call is interrupted, and \<open>sendto\<close> never reports more than it was given.\<close>

definition interrupts_settle :: "env \<Rightarrow> nat \<Rightarrow> bool" where
  "interrupts_settle E N \<longleftrightarrow> (\<forall>t. N \<le> length t \<longrightarrow> e_sys E t C_errno \<noteq> EINTR)
     \<and> (\<forall>t sk bs a. e_sys E t (C_sendto sk bs a) \<le> int (length bs))"

definition tx_buffer :: "handle \<Rightarrow> ptr \<Rightarrow> int \<Rightarrow> st \<Rightarrow> bool" where
  "tx_buffer h p cb s \<longleftrightarrow> ncbs s h \<noteq> None \<and> cb < 2 ^ 31
     \<and> (\<exists>b g xs. p = Ptr b 0 \<and> heap s b = Some (Bytes g xs) \<and> cb \<le> int (length xs))"

lemma tx_buffer_load:
  assumes "tx_buffer h p cb s" "0 \<le> off" "off < cb"
  shows "\<exists>n bs. ncbs s h = Some n \<and> load (padd p off) (cb - off) s = Some bs \<and> int (length bs) = cb - off"
  using assms by (auto simp: tx_buffer_def load_bytes min_def)

abbreviation tx_rank :: "int \<Rightarrow> nat \<Rightarrow> int \<times> st \<Rightarrow> nat" where
  "tx_rank cb N x \<equiv> nat (cb - fst x) + (N - length (trace (snd x)))"

lemma udp_tx_round_ok:
  assumes "interrupts_settle E N" "0 \<le> off" "tx_buffer h p cb s"
  shows "\<exists>out. udp_tx_round E h p cb a (off, s) = Some out \<and> (case out of
      Inl (r, s') \<Rightarrow> r \<in> {0, - 1} \<and> same_store s s' \<and> refs s' = refs s
    | Inr (off', s') \<Rightarrow> 0 \<le> off' \<and> same_store s s' \<and> refs s' = refs s \<and> tx_rank cb N (off', s') < tx_rank cb N (off, s))"
proof (cases "off < cb")
  case True
  from tx_buffer_load [OF assms(3,2) True] obtain n bs where
    l: "ncbs s h = Some n" "load (padd p off) (cb - off) s = Some bs" "int (length bs) = cb - off" by blast
  let ?c = "C_sendto (sockfd n) bs a"
  let ?w = "e_sys E (trace s) ?c"
  let ?s1 = "record_call ?c ?w s"
  let ?e = "e_sys E (trace ?s1) C_errno"
  let ?s2 = "record_call C_errno ?e ?s1"
  have r: "refs ?s1 = refs s" "refs ?s2 = refs s" by (simp_all add: refs_def fun_eq_iff)
  have w: "?w \<le> cb - off" using assms(1) l(3) by (metis interrupts_settle_def)
  have cb: "cb < 2 ^ 31" using assms(3) by (simp add: tx_buffer_def)
  have e: "length (trace ?s1) < N" if "?e = EINTR"
    using assms(1) that by (force simp: interrupts_settle_def)
  consider "?w \<le> 0" "?e = EINTR" | "?w \<le> 0" "?e \<noteq> EINTR" | "0 < ?w" by linarith
  then show ?thesis
  proof cases
    case 1
    then show ?thesis using True l(1,2) r(2) assms(2) e by (simp add: udp_tx_round_def sysc_def Let_def)
  next
    case 2
    then show ?thesis using True l(1,2) r(2) by (simp add: udp_tx_round_def sysc_def Let_def)
  next
    case 3
    then have "int32 (off + ?w) = Some (off + ?w)" using w cb assms(2) by (intro int32_Some) linarith+
    then show ?thesis using 3 True l(1,2) r(1) assms(2) by (simp add: udp_tx_round_def sysc_def Let_def)
  qed
next
  case False
  then show ?thesis by (simp add: udp_tx_round_def)
qed

lemma tx_buffer_same: "same_store s s' \<Longrightarrow> tx_buffer h p cb s' = tx_buffer h p cb s"
  by (simp add: same_store_def tx_buffer_def)

abbreviation tx_ok :: "env \<Rightarrow> nat \<Rightarrow> handle \<Rightarrow> ptr \<Rightarrow> int \<Rightarrow> int \<times> st \<Rightarrow> bool" where
  "tx_ok E N h p cb x \<equiv> interrupts_settle E N \<and> 0 \<le> fst x \<and> tx_buffer h p cb (snd x)"

abbreviation tx_done :: "int \<times> st \<Rightarrow> int \<times> st \<Rightarrow> bool" where
  "tx_done x r \<equiv> fst r \<in> {0, - 1} \<and> same_store (snd x) (snd r) \<and> refs (snd r) = refs (snd x)"

lemma udp_tx_round_exit: "tx_ok E N h p cb x \<Longrightarrow> udp_tx_round E h p cb a x = Some (Inl r) \<Longrightarrow> tx_done x r"
  using udp_tx_round_ok [of E N "fst x" h p cb "snd x" a] by (cases r) simp

lemma udp_tx_round_next:
  assumes "tx_ok E N h p cb x" "udp_tx_round E h p cb a x = Some (Inr y)"
  shows "tx_ok E N h p cb y \<and> same_store (snd x) (snd y) \<and> refs (snd y) = refs (snd x) \<and> tx_rank cb N y < tx_rank cb N x"
  using udp_tx_round_ok [of E N "fst x" h p cb "snd x" a] assms tx_buffer_same [of "snd x" "snd y" h p cb]
  by (cases y) simp

lemma same_store_trans: "same_store s t \<Longrightarrow> same_store t u \<Longrightarrow> same_store s u"
  by (simp add: same_store_def)

interpretation sending: settling_loop "udp_tx_round E h p cb a" "\<lambda>x. udp_tx_loop E h p cb a (fst x) (snd x)"
  "tx_ok E N h p cb" "tx_rank cb N" tx_done
  for E h p cb a N
proof unfold_locales
  fix x
  show "udp_tx_loop E h p cb a (fst x) (snd x) = (case udp_tx_round E h p cb a x of None \<Rightarrow> None
     | Some (Inl r) \<Rightarrow> Some r | Some (Inr y) \<Rightarrow> udp_tx_loop E h p cb a (fst y) (snd y))"
    by (cases x, simp, subst udp_tx_loop.simps)
      (auto simp: udp_tx_round_def Let_def sysc_def split: bind_splits option.splits)
next
  fix x assume "tx_ok E N h p cb x"
  then show "udp_tx_round E h p cb a x \<noteq> None" using udp_tx_round_ok [of E N "fst x" h p cb "snd x" a] by auto
next
  fix x y assume "tx_ok E N h p cb x" "udp_tx_round E h p cb a x = Some (Inr y)"
  from udp_tx_round_next [OF this] show "tx_ok E N h p cb y \<and> tx_rank cb N y < tx_rank cb N x" by simp
next
  fix x r assume "tx_ok E N h p cb x" "udp_tx_round E h p cb a x = Some (Inl r)"
  from udp_tx_round_exit [OF this] show "tx_done x r" .
next
  fix x y r assume "tx_ok E N h p cb x" "udp_tx_round E h p cb a x = Some (Inr y)" and r: "tx_done y r"
  from udp_tx_round_next [OF this(1,2)] r same_store_trans [of "snd x" "snd y" "snd r"] show "tx_done x r" by simp
qed

text \<open>
  C30. \<open>udp_write\<close> returns whenever the interruptions of its calls come to an end: each round of its
  loop either sends bytes or uses up one of the finitely many interruptions. It returns 0 or -1,
  and in both cases its buffer is freed and its reference released. (While every \<open>sendto\<close> is
  interrupted it does not return, lemma \<open>udp_write_interrupted_forever\<close>.)
\<close>

theorem udp_write_returns:
  assumes "steady E h" "mallocs E" "ncbs s h = Some n" "0 \<le> h" "wf_heap s"
    and "r_port \<noteq> 0" "0 < cb" "cb \<le> MAX_UDP_UNIT (e_nis E)" "cb < 2 ^ 31" "cb \<le> int (length data)"
    and "interrupts_settle E N"
  shows "\<exists>r s'. udp_write E h (Some data) cb (Some str) r_port 0 s = Some (r, s') \<and> (r = 0 \<or> r = - 1)
    \<and> heap s' = heap s \<and> ncbs s' = ncbs s \<and> refs s' = refs s"
proof -
  obtain b s1 where 1: "heap s1 = (heap s)(b \<mapsto> Bytes Crt (take (nat cb) data))" "ncbs s1 = ncbs s"
    "refs s1 = (refs s)(h := refs s h + 1)"
    and run: "\<And>w s2. udp_tx_loop E h (Ptr b 0) cb (udp_target E str r_port) 0 s1 = Some (w, s2) \<Longrightarrow> heap s2 = heap s1
      \<Longrightarrow> ncbs s2 = ncbs s1
      \<Longrightarrow> udp_write E h (Some data) cb (Some str) r_port 0 s = Some (w, record_call (C_objdefr h) 0 (s2\<lparr>heap := heap s\<rparr>))"
    using udp_write_around [OF assms(1-10), of str] by blast
  have "tx_buffer h (Ptr b 0) cb s1" using 1(1,2) assms(3,7,9,10) by (simp add: tx_buffer_def)
  then obtain r s2 where t: "udp_tx_loop E h (Ptr b 0) cb (udp_target E str r_port) 0 s1 = Some (r, s2)"
    "r \<in> {0, - 1}" "same_store s1 s2" "refs s2 = refs s1"
    using sending.returns [where E = E and N = N and h = h and p = "Ptr b 0" and cb = cb and x = "(0, s1)"
        and a = "udp_target E str r_port"] assms(11) by auto
  then have "heap s2 = heap s1" "ncbs s2 = ncbs s1" by (simp_all add: same_store_def)
  moreover have "refs (record_call (C_objdefr h) 0 (s2\<lparr>heap := heap s\<rparr>)) = refs s"
    using t(4) 1(3) by (simp add: refs_def fun_eq_iff)
  ultimately show ?thesis using run [OF t(1)] t(2) 1(2) by auto
qed

text \<open>A platform whose first two datagrams are interrupted and whose third is sent.\<close>

definition w_eintr :: env where
  "w_eintr = w_env\<lparr>e_sys := \<lambda>t c. case c of Io (I_sendto _ bs _) \<Rightarrow> if length t < 6 then - 1 else int (length bs)
     | Sock S_errno \<Rightarrow> if length t < 7 then 4 else 0 | _ \<Rightarrow> w_sys t c\<rparr>"

lemma udp_write_returns_witness:
  "\<exists>r s'. udp_write w_eintr 7 (Some [1, 2, 3]) 2 (Some ''10.0.0.1'') 53 0 w_tx = Some (r, s') \<and> r \<in> {0, - 1}
    \<and> heap s' = heap w_tx \<and> refs s' = refs w_tx"
proof -
  have e: "steady w_eintr 7" "mallocs w_eintr" "ncbs w_tx 7 = Some w_ncb" "wf_heap w_tx" "(2 :: int) \<le> MAX_UDP_UNIT (e_nis w_eintr)"
    by (simp_all add: steady_def mallocs_def w_eintr_def w_sys_def w_env_def w_nis_def wf_heap_def w_tx_def w_st_def)
  have s: "interrupts_settle w_eintr 7" by (simp add: interrupts_settle_def w_eintr_def)
  from udp_write_returns [OF e(1-3) _ e(4) _ _ e(5) _ _ s, of 53 "[1, 2, 3]" "''10.0.0.1''"] show ?thesis by auto
qed

lemma udp_tx_loop_spins:
  assumes "\<forall>t sk bs. e_sys E t (C_sendto sk bs a) \<le> 0" "\<forall>t. e_sys E t C_errno = EINTR" "off < cb"
  shows "udp_tx_loop E h p cb a off s = None"
proof (rule ccontr)
  assume "udp_tx_loop E h p cb a off s \<noteq> None"
  then obtain x where "udp_tx_loop E h p cb a off s = Some x" by auto
  then have "(\<forall>t sk bs. e_sys E t (C_sendto sk bs a) \<le> 0) \<longrightarrow> (\<forall>t. e_sys E t C_errno = EINTR) \<longrightarrow> \<not> off < cb"
    by (rule udp_tx_loop.raw_induct
        [where P = "\<lambda>E h p cb a off s x. (\<forall>t sk bs. e_sys E t (C_sendto sk bs a) \<le> 0)
           \<longrightarrow> (\<forall>t. e_sys E t C_errno = EINTR) \<longrightarrow> \<not> off < cb", rotated])
      (auto simp: run_iff sysc_def)
  with assms show False by blast
qed

text \<open>
  A \<open>sendto\<close> that is interrupted every time is repeated for ever: \<open>udp_write\<close> has no bound
  on its attempts and does not return.
\<close>

lemma udp_write_interrupted_forever:
  assumes "steady E h" "mallocs E" "ncbs s h = Some n" "0 \<le> h" "r_port \<noteq> 0" "0 < cb"
    and "cb \<le> MAX_UDP_UNIT (e_nis E)"
    and "\<forall>t sk bs a. e_sys E t (C_sendto sk bs a) \<le> 0" "\<forall>t. e_sys E t C_errno = EINTR"
  shows "udp_write E h origin cb (Some str) r_port 0 s = None"
proof -
  obtain r where o: "objrefr E h s = (Some h, record_call (C_objrefr h) r s)"
    using steady_objrefr [OF assms(1,3)] ..
  have "\<forall>t sk bs. e_sys E t (C_sendto sk bs x) \<le> 0" for x using assms(8) by blast
  then have "udp_tx_loop E h p cb x 0 y = None" for p x y
    using assms(6,9) by (intro udp_tx_loop_spins) auto
  then show ?thesis using o assms
    by (auto simp: udp_write_def udp_tx_single_packet_def malloc_ok Let_def fill_payload_def
        split: bind_splits)
qed

lemma udp_write_interrupted_forever_witness:
  "udp_write (w_env\<lparr>e_sys := \<lambda>t c. case c of Sock S_errno \<Rightarrow> 4 | _ \<Rightarrow> w_sys t c\<rparr>) 7 (Some [1]) 1 (Some ''10.0.0.1'') 53 0 w_tx = None"
proof (rule udp_write_interrupted_forever)
  show "ncbs w_tx 7 = Some w_ncb" by (simp add: w_tx_def w_st_def)
qed (simp_all add: steady_def mallocs_def w_env_def w_nis_def w_sys_def)

subsection \<open>Receiving\<close>

lemma steady_udprefr:
  assumes "steady E h" "ncbs s h = Some n" "proto_type n = kProto_UDP" "0 \<le> h"
  shows "\<exists>r. r \<noteq> 0 \<and> udprefr E h s = Some ((0, Some h), record_call (C_objrefr h) r s)"
  using assms by (auto simp: udprefr_def steady_def objref_def)

text \<open>A receive request of a UDP link in the hands of the system.\<close>

definition udp_recv_packet :: "handle \<Rightarrow> nat \<Rightarrow> packet_t \<Rightarrow> st \<Rightarrow> bool" where
  "udp_recv_packet h p k s \<longleftrightarrow> get_pkt p s = Some k \<and> pkt_kind k = kRecv \<and> pkt_proto k = kProto_UDP \<and> link k = h"

text \<open>The calls that close a link or a socket.\<close>

fun closes :: "call \<Rightarrow> bool" where
  "closes (Obj (O_objclos h)) \<longleftrightarrow> True"
| "closes (Sock (S_closesocket sk)) \<longleftrightarrow> True"
| "closes (Sock (S_shutdown sk)) \<longleftrightarrow> True"
| "closes _ \<longleftrightarrow> False"

fun closings :: "act list \<Rightarrow> call list" where
  "closings [] = []"
| "closings (Ev e # t) = closings t"
| "closings (Call c r # t) = (if closes c then c # closings t else closings t)"

lemma closings_append [simp]: "closings (a @ b) = closings a @ closings b"
  by (induction a rule: closings.induct) auto

lemma asio_udp_recv_steady:
  assumes "steady E h" "ncbs s h = Some n" "hld n = h" "get_pkt p s = Some k" "link k = h"
  shows "\<exists>r s'. asio_udp_recv E (Some p) s = Some (r, s') \<and> heap s' = heap s \<and> ncbs s' = ncbs s
    \<and> events (trace s') = events (trace s) \<and> refs s' = refs s
    \<and> requests (trace s') = requests (trace s) @ [I_WSARecvFrom (sockfd n) p (irp k) (size_for_req k)]
    \<and> closings (trace s') = closings (trace s)"
proof -
  obtain r where o: "objrefr E h s = (Some h, record_call (C_objrefr h) r s)" "r \<noteq> 0"
    using assms(1,2) by (auto simp: steady_def objref_def)
  show ?thesis
    using assms o
    by (auto simp: asio_udp_recv_def sysc_def Let_def pending_retval_def objdefr_ncb_def steady_objdefr
        refs_def fun_eq_iff)
qed

text \<open>
  C28. The completion of a UDP receive gives the user one event with the datagram, its length and
  the address and port it came from (in host order), and issues the same request again on the
  same buffer; no memory is allocated, freed or lost.
\<close>

theorem udp_receive_delivers:
  assumes "steady E h" "ncbs s h = Some n" "proto_type n = kProto_UDP" "hld n = h" "0 \<le> h"
    and "udp_recv_packet h p k s" "nis_callback n \<noteq> 0" "0 < m" "pkt_remote_addr k = Some a"
    and "load (irp k) m s = Some bs" "0 \<le> status"
  shows "\<exists>s'. so_dispatch_io_event E (Some p) m status s = Some s'
    \<and> events (trace s') = events (trace s) @ [EvUdpRecv h m bs (ntohs (sin_port a)) (sin_addr a)]
    \<and> requests (trace s') = requests (trace s) @ [I_WSARecvFrom (sockfd n) p (irp k) (size_for_req k)]
    \<and> udp_recv_packet h p (k\<lparr>size_for_translation := 0\<rparr>) s'
    \<and> (\<forall>b. b \<noteq> p \<longrightarrow> heap s' b = heap s b) \<and> refs s' = refs s"
proof -
  have k: "get_pkt p s = Some k" "pkt_kind k = kRecv" "pkt_proto k = kProto_UDP" "link k = h"
    using assms(6) by (auto simp: udp_recv_packet_def)
  let ?k1 = "k\<lparr>size_for_translation := m\<rparr>" and ?k2 = "k\<lparr>size_for_translation := 0\<rparr>"
  let ?s1 = "s\<lparr>heap := (heap s)(p \<mapsto> Pkt ?k1)\<rparr>"
  obtain r where u: "r \<noteq> 0" "udprefr E h ?s1 = Some ((0, Some h), record_call (C_objrefr h) r ?s1)"
    using steady_udprefr [OF assms(1), of ?s1 n] assms by auto
  let ?s2 = "record_call (C_objrefr h) r ?s1"
  let ?s3 = "(emit (EvUdpRecv h m bs (ntohs (sin_port a)) (sin_addr a)) ?s2)\<lparr>heap := (heap s)(p \<mapsto> Pkt ?k2)\<rparr>"
  have ne: "irp k \<noteq> Ptr p i" for i
    using assms(8,10) k(1) by (auto simp: load_def bytes_at_def get_pkt_def split: option.splits obj.splits)
  have "load (irp k) m ?s1 = load (irp k) m s" by (rule load_cong) (use ne in auto)
  then have l: "load (irp k) m ?s1 = Some bs" using assms(10) by simp
  obtain q s4 where q: "asio_udp_recv E (Some p) ?s3 = Some (q, s4)" "heap s4 = heap ?s3" "ncbs s4 = ncbs ?s3"
    "events (trace s4) = events (trace ?s3)" "refs s4 = refs ?s3"
    "requests (trace s4) = requests (trace ?s3) @ [I_WSARecvFrom (sockfd n) p (irp k) (size_for_req k)]"
    using asio_udp_recv_steady [OF assms(1), of ?s3 n p ?k2] assms k by (auto simp: emit_def get_pkt_def)
  have "so_dispatch_io_event E (Some p) m status s = Some (record_call (C_objdefr h) 0 s4)"
    using k assms u l q
    by (simp add: so_dispatch_io_event_def udp_dispatch_io_event_def udp_dispatch_io_recv_def
        emit_def get_pkt_def mod_pkt_def steady_objdefr_ncb)
  moreover have "refs (record_call (C_objdefr h) 0 s4) = refs s"
    using q u by (simp add: refs_def fun_eq_iff emit_def)
  ultimately show ?thesis
    using q k by (intro exI [of _ "record_call (C_objdefr h) 0 s4"])
      (simp add: emit_def udp_recv_packet_def get_pkt_def)
qed

definition w_udp_ncb :: ncb_t where
  "w_udp_ncb = w_ncb\<lparr>proto_type := kProto_UDP\<rparr>"

definition w_udp_pkt :: packet_t where
  "w_udp_pkt = (packet_init 7 kProto_UDP kRecv 4 kNonPagedPool (Ptr 1 0))
     \<lparr>pkt_remote_addr := Some \<lparr>sin_family = 2, sin_port = htons 53, sin_addr = 5\<rparr>\<rparr>"

definition w_udp :: st where
  "w_udp = (w_st [0 \<mapsto> Pkt w_udp_pkt, 1 \<mapsto> Bytes Pages [8, 9, 0, 0]] 2)\<lparr>ncbs := [7 \<mapsto> w_udp_ncb]\<rparr>"

lemma w_udp_facts:
  "ncbs w_udp 7 = Some w_udp_ncb" "proto_type w_udp_ncb = kProto_UDP" "hld w_udp_ncb = 7" "nis_callback w_udp_ncb \<noteq> 0"
  "udp_recv_packet 7 0 w_udp_pkt w_udp" "pkt_page_style w_udp_pkt = kNonPagedPool" "sockfd w_udp_ncb = 9"
  "events (trace w_udp) = []" "requests (trace w_udp) = []"
  by (simp_all add: w_udp_def w_udp_ncb_def w_ncb_def w_udp_pkt_def packet_init_def udp_recv_packet_def get_pkt_def w_st_def)

lemma udp_receive_delivers_witness:
  "\<exists>s'. so_dispatch_io_event w_env (Some 0) 2 0 w_udp = Some s' \<and> events (trace s') = [EvUdpRecv 7 2 [8, 9] 53 5]
    \<and> requests (trace s') = [I_WSARecvFrom 9 0 (Ptr 1 0) 4]"
proof -
  have "load (irp w_udp_pkt) 2 w_udp = Some [8, 9]"
    "pkt_remote_addr w_udp_pkt = Some \<lparr>sin_family = 2, sin_port = htons 53, sin_addr = 5\<rparr>"
    by (simp_all add: w_udp_pkt_def packet_init_def w_udp_def w_st_def load_def bytes_at_def)
  from udp_receive_delivers [OF w_steady w_udp_facts(1-3) _ w_udp_facts(5,4) _ this(2,1), of 0]
  obtain s' where "so_dispatch_io_event w_env (Some 0) 2 0 w_udp = Some s'"
    "events (trace s') = [EvUdpRecv 7 2 [8, 9] 53 5]"
    "requests (trace s') = [I_WSARecvFrom 9 0 (irp w_udp_pkt) (size_for_req w_udp_pkt)]"
    using w_udp_facts by auto
  then show ?thesis by (simp add: w_udp_pkt_def packet_init_def)
qed

lemma freepkt_nonpaged:
  assumes "get_pkt p s = Some k" "pkt_page_style k = kNonPagedPool"
  shows "\<exists>s'. freepkt E (Some p) s = Some s' \<and> heap s' p = None \<and> ncbs s' = ncbs s
    \<and> requests (trace s') = requests (trace s) \<and> events (trace s') = events (trace s)
    \<and> closings (trace s') = closings (trace s) \<and> (\<forall>c. c \<in> set (trace s) \<longrightarrow> c \<in> set (trace s'))"
proof -
  define s1 where "s1 = snd (os_unlock_and_free_virtual_pages E (ori_buffer k) (word_of_int (size_for_req k)) s)"
  have h: "heap s p = Some (Pkt k)" using get_pkt_heapD [OF assms(1)] .
  have s1: "heap s1 p = heap s p" "ncbs s1 = ncbs s" "requests (trace s1) = requests (trace s)"
    "events (trace s1) = events (trace s)" "closings (trace s1) = closings (trace s)"
    "\<forall>c. c \<in> set (trace s) \<longrightarrow> c \<in> set (trace s1)"
    using h by (auto simp: s1_def os_unlock_and_free_virtual_pages_def os_free_memory_block_def virtual_free_def
        sysc_def Let_def split: ptr.splits option.splits obj.splits region.splits)
  then have "get_pkt p s1 = Some k" using h by (simp add: get_pkt_def)
  then have "freepkt E (Some p) s = Some (s1\<lparr>heap := (heap s1)(p := None)\<rparr>)"
    using assms h s1 by (simp add: freepkt_def s1_def [symmetric] free_def mod_pkt_def get_pkt_def)
  then show ?thesis using s1 by simp
qed

definition icmp_unreachable :: "int \<Rightarrow> bool" where
  "icmp_unreachable st \<longleftrightarrow> st \<in> {STATUS_PORT_UNREACHABLE, STATUS_PROTOCOL_UNREACHABLE, STATUS_HOST_UNREACHABLE}"

lemma udp_shutdown_ok:
  assumes "serving E h" "get_pkt p x = Some k" "link k = h" "pkt_kind k = kRecv" "pkt_page_style k = kNonPagedPool"
  shows "\<exists>x'. udp_shutdown_by_packet E (Some p) x = Some x' \<and> heap x' p = None \<and> ncbs x' = ncbs x
      \<and> requests (trace x') = requests (trace x) \<and> events (trace x') = events (trace x)
      \<and> Call (C_objclos h) 0 \<in> set (trace x') \<and> closings (trace x') = closings (trace x) @ [C_objclos h]"
proof -
  have cl: "objclos E h x = Some (record_call (C_objclos h) 0 x)"
    using assms(1) by (simp add: serving_def objclos_def sysc_def Let_def)
  obtain x' where "freepkt E (Some p) (record_call (C_objclos h) 0 x) = Some x'" "heap x' p = None" "ncbs x' = ncbs x"
    "requests (trace x') = requests (trace x)" "events (trace x') = events (trace x)"
    "closings (trace x') = closings (trace x) @ [C_objclos h]"
    "\<forall>c. c \<in> set (trace x @ [Call (C_objclos h) 0]) \<longrightarrow> c \<in> set (trace x')"
    using freepkt_nonpaged [of p "record_call (C_objclos h) 0 x" k E] assms by auto
  then show ?thesis using assms cl by (simp add: udp_shutdown_by_packet_def)
qed

text \<open>An ICMP error issues the request again.\<close>

lemma udp_exception_reissues:
  assumes "steady E h" "ncbs s h = Some n" "proto_type n = kProto_UDP" "hld n = h" "0 \<le> h"
    and k: "get_pkt p s = Some k" "pkt_kind k = kRecv" "link k = h" and "icmp_unreachable status"
  shows "\<exists>s'. udp_dispatch_io_exception E (Some p) status s = Some s' \<and> events (trace s') = events (trace s)
    \<and> requests (trace s') = requests (trace s) @ [I_WSARecvFrom (sockfd n) p (irp k) (size_for_req k)]
    \<and> get_pkt p s' = Some (k\<lparr>size_for_translation := 0\<rparr>) \<and> closings (trace s') = closings (trace s)
    \<and> heap s' = (heap s)(p \<mapsto> Pkt (k\<lparr>size_for_translation := 0\<rparr>)) \<and> ncbs s' = ncbs s \<and> refs s' = refs s"
proof -
  let ?k2 = "k\<lparr>size_for_translation := 0\<rparr>"
  obtain r where u: "udprefr E h s = Some ((0, Some h), record_call (C_objrefr h) r s)" "r \<noteq> 0"
    using steady_udprefr [OF assms(1-3,5)] by blast
  let ?s2 = "record_call (C_objrefr h) r s"
  let ?s3 = "?s2\<lparr>heap := (heap s)(p \<mapsto> Pkt ?k2)\<rparr>"
  obtain q s4 where q: "asio_udp_recv E (Some p) ?s3 = Some (q, s4)" "heap s4 = heap ?s3" "ncbs s4 = ncbs ?s3"
    "events (trace s4) = events (trace ?s3)" "closings (trace s4) = closings (trace ?s3)" "refs s4 = refs ?s3"
    "requests (trace s4) = requests (trace ?s3) @ [I_WSARecvFrom (sockfd n) p (irp k) (size_for_req k)]"
    using asio_udp_recv_steady [OF assms(1), of ?s3 n p ?k2] assms by (auto simp: get_pkt_def)
  have "udp_dispatch_io_exception E (Some p) status s = Some (record_call (C_objdefr h) 0 s4)"
    using assms u q by (simp add: udp_dispatch_io_exception_def icmp_unreachable_def mod_pkt_def get_pkt_def steady_objdefr_ncb)
  then show ?thesis using q u(2) by (auto simp: get_pkt_def refs_def fun_eq_iff)
qed

text \<open>
  C29. A failed UDP receive does not take the link down when the error is an ICMP \<open>unreachable\<close>
  message provoked by an earlier datagram: the request is issued again, and nothing is closed,
  freed, released or changed but for the size field of the packet. Any other error, and also a
  datagram of length zero, closes the link, once and nothing else, and frees the packet.
\<close>

theorem udp_receive_errors:
  assumes "serving E h" "ncbs s h = Some n" "proto_type n = kProto_UDP" "hld n = h" "0 \<le> h"
    and "udp_recv_packet h p k s" "pkt_page_style k = kNonPagedPool" "status < 0 \<or> m = 0"
  shows "\<exists>s'. so_dispatch_io_event E (Some p) m status s = Some s' \<and> events (trace s') = events (trace s)
    \<and> (if status < 0 \<and> icmp_unreachable status
       then requests (trace s') = requests (trace s) @ [I_WSARecvFrom (sockfd n) p (irp k) (size_for_req k)]
         \<and> udp_recv_packet h p (k\<lparr>size_for_translation := 0\<rparr>) s' \<and> closings (trace s') = closings (trace s)
         \<and> heap s' = (heap s)(p \<mapsto> Pkt (k\<lparr>size_for_translation := 0\<rparr>)) \<and> ncbs s' = ncbs s \<and> refs s' = refs s
       else requests (trace s') = requests (trace s) \<and> heap s' p = None \<and> Call (C_objclos h) 0 \<in> set (trace s')
         \<and> closings (trace s') = closings (trace s) @ [C_objclos h])"
proof -
  have E: "steady E h" using assms(1) by (simp add: serving_def steady_def)
  have k: "get_pkt p s = Some k" "pkt_kind k = kRecv" "pkt_proto k = kProto_UDP" "link k = h"
    using assms(6) by (auto simp: udp_recv_packet_def)
  let ?k1 = "k\<lparr>size_for_translation := m\<rparr>"
  let ?s1 = "s\<lparr>heap := (heap s)(p \<mapsto> Pkt ?k1)\<rparr>"
  have d: "so_dispatch_io_event E (Some p) m status s = udp_dispatch_io_event E p status ?s1"
    using k by (simp add: so_dispatch_io_event_def mod_pkt_def get_pkt_def)
  have k1: "get_pkt p ?s1 = Some ?k1" "pkt_kind ?k1 = kRecv" "link ?k1 = h" "pkt_page_style ?k1 = kNonPagedPool"
    using k assms(7) by (simp_all add: get_pkt_def)
  consider (icmp) "status < 0" "icmp_unreachable status" | (other) "status < 0" "\<not> icmp_unreachable status"
    | (zero) "0 \<le> status" "m = 0" using assms(8) by linarith
  then show ?thesis
  proof cases
    case icmp
    have "ncbs ?s1 h = Some n" using assms(2) by simp
    from udp_exception_reissues [OF E this assms(3-5) k1(1-3) icmp(2)] show ?thesis
      using icmp k d by (auto simp: udp_dispatch_io_event_def udp_recv_packet_def refs_def)
  next
    case other
    obtain r where u: "udprefr E h ?s1 = Some ((0, Some h), record_call (C_objrefr h) r ?s1)"
      using steady_udprefr [OF E, of ?s1 n] assms by auto
    let ?s2 = "record_call (C_objrefr h) r ?s1"
    have "get_pkt p ?s2 = Some ?k1" using k1(1) by (simp add: get_pkt_def)
    from udp_shutdown_ok [OF assms(1) this k1(3,2,4)] obtain x where x: "udp_shutdown_by_packet E (Some p) ?s2 = Some x"
      "heap x p = None" "ncbs x = ncbs s" "requests (trace x) = requests (trace s)" "events (trace x) = events (trace s)"
      "Call (C_objclos h) 0 \<in> set (trace x)" "closings (trace x) = closings (trace s) @ [C_objclos h]" by auto
    have "udp_dispatch_io_event E p status ?s1 = Some (record_call (C_objdefr h) 0 x)"
      using other k assms u x E
      by (simp add: udp_dispatch_io_event_def udp_dispatch_io_exception_def icmp_unreachable_def mod_pkt_def get_pkt_def
          steady_objdefr_ncb)
    then show ?thesis using x other d by simp
  next
    case zero
    from udp_shutdown_ok [OF assms(1) k1(1,3,2,4)] show ?thesis using zero k1(1) d
      by (auto simp: udp_dispatch_io_event_def)
  qed
qed

lemma udp_receive_errors_witness:
  "(\<exists>s'. so_dispatch_io_event w_env (Some 0) 0 STATUS_PORT_UNREACHABLE w_udp = Some s'
      \<and> requests (trace s') = [I_WSARecvFrom 9 0 (irp w_udp_pkt) (size_for_req w_udp_pkt)]
      \<and> closings (trace s') = [])
   \<and> (\<exists>s'. so_dispatch_io_event w_env (Some 0) 0 0 w_udp = Some s' \<and> heap s' 0 = None)"
proof -
  note E = udp_receive_errors [OF w_env_ok(2) w_udp_facts(1-3) _ w_udp_facts(5,6)]
  have "STATUS_PORT_UNREACHABLE < 0" "icmp_unreachable STATUS_PORT_UNREACHABLE"
    by (simp_all add: STATUS_PORT_UNREACHABLE_def icmp_unreachable_def)
  moreover have "closings (trace w_udp) = []" by (simp add: w_udp_def w_st_def)
  ultimately show ?thesis using E [of STATUS_PORT_UNREACHABLE 0] E [of 0 0] w_udp_facts by auto
qed

subsection \<open>Groups\<close>

text \<open>The blocks from \<open>i\<close> up, one for each item, each as long as the item says.\<close>

fun grp_blocks :: "mem \<Rightarrow> nat \<Rightarrow> packet_grp \<Rightarrow> bool" where
  "grp_blocks H i [] \<longleftrightarrow> True"
| "grp_blocks H i ((d, n) # g) \<longleftrightarrow> d = Ptr i 0 \<and> (\<exists>bs. H i = Some (Bytes Crt bs) \<and> int (length bs) = n)
     \<and> grp_blocks H (Suc i) g"

lemma grp_blocks_cong:
  "(\<And>b. i \<le> b \<Longrightarrow> H' b = H b) \<Longrightarrow> grp_blocks H' i g = grp_blocks H i g"
  by (induction g arbitrary: i) (auto split: prod.splits)

lemma grp_fill_ok:
  assumes "mallocs E" "\<forall>x \<in> set g. 0 < snd x \<and> snd x \<le> MTU (e_nis E)" "MTU (e_nis E) < 2 ^ 31"
  shows "\<exists>g' s'. grp_fill E g s = ((True, g'), s') \<and> map snd g' = map snd g \<and> grp_blocks (heap s') (nextb s) g'
    \<and> (\<forall>b. b < nextb s \<or> nextb s + length g \<le> b \<longrightarrow> heap s' b = heap s b) \<and> ncbs s' = ncbs s"
  using assms(2)
proof (induction g arbitrary: s)
  case (Cons e g)
  obtain d n where e: "e = (d, n)" by fastforce
  with Cons.prems assms(3) have n: "0 < n" "n \<le> MTU (e_nis E)" "size_t n = nat n" by auto
  obtain s1 where m: "malloc E n s = (Ptr (nextb s) 0, s1)"
    and s1: "heap s1 = (heap s)(nextb s \<mapsto> Bytes Crt (map (e_junk E (trace s)) [0..<nat n]))"
      "nextb s1 = Suc (nextb s)" "ncbs s1 = ncbs s"
    by (simp add: malloc_ok [OF assms(1)] n Let_def)
  obtain g' s' where r: "grp_fill E g s1 = ((True, g'), s')" "map snd g' = map snd g"
    "grp_blocks (heap s') (Suc (nextb s)) g'"
    "\<forall>b. b < Suc (nextb s) \<or> Suc (nextb s) + length g \<le> b \<longrightarrow> heap s' b = heap s1 b" "ncbs s' = ncbs s1"
    using Cons.IH [of s1] Cons.prems s1 by auto
  then have "grp_fill E (e # g) s = ((True, (Ptr (nextb s) 0, n) # g'), s')" using e n m by simp
  then show ?case using e r s1 n by auto
qed simp

lemma grp_clear_ok:
  "grp_blocks (heap s) i g \<Longrightarrow> \<exists>s'. grp_clear g s = Some (map (\<lambda>x. (Null, snd x)) g, s')
     \<and> heap s' = (\<lambda>b. if i \<le> b \<and> b < i + length g then None else heap s b) \<and> ncbs s' = ncbs s"
proof (induction g arbitrary: s i)
  case (Cons e g)
  obtain d n where e: "e = (d, n)" by fastforce
  with Cons.prems obtain bs where i: "d = Ptr i 0" "heap s i = Some (Bytes Crt bs)" "grp_blocks (heap s) (Suc i) g" by auto
  let ?s1 = "s\<lparr>heap := (heap s)(i := None)\<rparr>"
  have "grp_blocks (heap ?s1) (Suc i) g" using i(3) by (subst grp_blocks_cong [of _ _ "heap s"]) auto
  from Cons.IH [OF this] obtain s' where "grp_clear g ?s1 = Some (map (\<lambda>x. (Null, snd x)) g, s')"
    "heap s' = (\<lambda>b. if Suc i \<le> b \<and> b < Suc i + length g then None else heap ?s1 b)" "ncbs s' = ncbs s" by auto
  with e i show ?case by (auto simp: free_bytes fun_eq_iff)
qed (auto simp: fun_eq_iff)

text \<open>
  C31. On a link with a pseudo connection \<open>udp_initialize_grp\<close> gives each item of a group (of
  lengths between 1 and the MTU) a block of its own of the length asked for, and
  \<open>udp_release_grp\<close> gives all of them back: the memory is what it was before.
\<close>

theorem grp_roundtrip:
  assumes "steady E h" "mallocs E" "ncbs s h = Some n" "proto_type n = kProto_UDP" "hld n = h" "0 \<le> h" "wf_heap s"
    and "connected n \<noteq> 0" "g \<noteq> []" "\<forall>x \<in> set g. 0 < snd x \<and> snd x \<le> MTU (e_nis E)" "MTU (e_nis E) < 2 ^ 31"
  shows "\<exists>g1 s1 g2 s2. udp_initialize_grp E h (Some g) s = Some ((0, Some g1), s1)
    \<and> map snd g1 = map snd g \<and> grp_blocks (heap s1) (nextb s) g1
    \<and> udp_release_grp (Some g1) s1 = Some (Some g2, s2) \<and> (\<forall>x \<in> set g2. fst x = Null) \<and> heap s2 = heap s"
proof -
  obtain r where u: "udprefr E h s = Some ((0, Some h), record_call (C_objrefr h) r s)"
    using steady_udprefr [OF assms(1,3,4,6)] by blast
  obtain g1 s1 where f: "grp_fill E g (record_call (C_objrefr h) r s) = ((True, g1), s1)" "map snd g1 = map snd g"
    "grp_blocks (heap s1) (nextb s) g1" "\<forall>b. b < nextb s \<or> nextb s + length g \<le> b \<longrightarrow> heap s1 b = heap s b"
    "ncbs s1 = ncbs s"
    using grp_fill_ok [OF assms(2,10,11), of "record_call (C_objrefr h) r s"] by auto
  let ?s1 = "record_call (C_objdefr h) 0 s1"
  have 1: "udp_initialize_grp E h (Some g) s = Some ((0, Some g1), ?s1)"
    using u f assms by (simp add: udp_initialize_grp_def steady_objdefr_ncb)
  obtain s2 where c: "grp_clear g1 ?s1 = Some (map (\<lambda>x. (Null, snd x)) g1, s2)"
    "heap s2 = (\<lambda>b. if nextb s \<le> b \<and> b < nextb s + length g1 then None else heap s1 b)"
    using grp_clear_ok [of ?s1 "nextb s" g1] f(3) by (fastforce simp: if_distrib cong: if_cong)
  have "length g1 = length g" using f(2) map_eq_imp_length_eq by blast
  moreover have "heap s b = None" if "nextb s \<le> b" for b using assms(7) that by (simp add: wf_heap_def)
  ultimately have "heap s2 = heap s" using c(2) f(4) by (fastforce simp: fun_eq_iff not_le not_less)
  then show ?thesis using 1 c f
    by (intro exI [of _ g1] exI [of _ ?s1] exI [of _ "map (\<lambda>x. (Null, snd x)) g1"] exI [of _ s2])
      (auto simp: udp_release_grp_def)
qed

lemma grp_roundtrip_witness:
  "\<exists>g1 s1 g2 s2. udp_initialize_grp w_env 7 (Some [(Null, 100), (Null, 1500)])
      (w_udp\<lparr>ncbs := [7 \<mapsto> w_udp_ncb\<lparr>connected := 5\<rparr>]\<rparr>) = Some ((0, Some g1), s1)
    \<and> udp_release_grp (Some g1) s1 = Some (Some g2, s2) \<and> heap s2 = heap w_udp"
proof -
  let ?s = "w_udp\<lparr>ncbs := [7 \<mapsto> w_udp_ncb\<lparr>connected := 5\<rparr>]\<rparr>"
  have "wf_heap ?s" by (simp add: wf_heap_def w_udp_def w_st_def)
  moreover have "MTU (e_nis w_env) = 1500" by (simp add: w_env_def w_nis_def)
  ultimately show ?thesis
    using grp_roundtrip [OF w_steady w_env_ok(1), of ?s 7 "w_udp_ncb\<lparr>connected := 5\<rparr>" "[(Null, 100), (Null, 1500)]"]
      w_udp_facts(2,3) by fastforce
qed

end
