(* ===== verification/Life_Props.thy ===== *)
theory Life_Props
  imports Udp_Props
begin

text \<open>
  Properties of the life of packets and links: what is allocated is released, an unloaded link
  leaves nothing behind, the loop that locks memory ends once the system lets it.
\<close>

subsection \<open>Packets\<close>

lemma bal_heap_sysc: "sysc E c s = (r, s') \<Longrightarrow> heap s' = heap s"
  by (auto simp: sysc_def Let_def)

text \<open>The loop that locks a block of pages does not touch the memory of the program.\<close>

lemma lock_iteration_memory:
  assumes "lock_iteration E blk sz hp fl s = (x, s')"
  shows "heap s' = heap s \<and> nextb s' = nextb s
    \<and> ((\<forall>t. e_sys E t (C_VirtualCommit blk (unat sz)) \<noteq> 0) \<longrightarrow> (case x of Inl (ok, b, _) \<Rightarrow> b = blk | Inr (b, _) \<Rightarrow> b = blk))
    \<and> (case x of Inr (b, _) \<Rightarrow> b = blk | _ \<Rightarrow> True)"
  using assms by (auto simp: lock_iteration_def lock_adjust_def sysc_def Let_def split: if_splits)

lemma lock_loop_memory:
  assumes "lock_loop E blk sz hp fl s = Some x"
  shows "heap (snd x) = heap s \<and> nextb (snd x) = nextb s
    \<and> ((\<forall>t. e_sys E t (C_VirtualCommit blk (unat sz)) \<noteq> 0) \<longrightarrow> fst (snd (fst x)) = blk)"
  using assms
proof (rule lock_loop.raw_induct
    [where P = "\<lambda>E blk sz hp fl s x. heap (snd x) = heap s \<and> nextb (snd x) = nextb s
       \<and> ((\<forall>t. e_sys E t (C_VirtualCommit blk (unat sz)) \<noteq> 0) \<longrightarrow> fst (snd (fst x)) = blk)", rotated])
  fix f E blk sz hp fl s x
  assume ih: "\<And>E blk sz hp fl s x. f E blk sz hp fl s = Some x \<Longrightarrow> heap (snd x) = heap s \<and> nextb (snd x) = nextb s
      \<and> ((\<forall>t. e_sys E t (C_VirtualCommit blk (unat sz)) \<noteq> 0) \<longrightarrow> fst (snd (fst x)) = blk)"
    and r: "(case lock_iteration E blk sz hp fl s of (Inl out, s') \<Rightarrow> Some (out, s')
      | (Inr (blk', hp', fl'), s') \<Rightarrow> f E blk' sz hp' fl' s') = Some x"
  obtain y s' where y: "lock_iteration E blk sz hp fl s = (y, s')" by fastforce
  show "heap (snd x) = heap s \<and> nextb (snd x) = nextb s
      \<and> ((\<forall>t. e_sys E t (C_VirtualCommit blk (unat sz)) \<noteq> 0) \<longrightarrow> fst (snd (fst x)) = blk)"
  proof (cases y)
    case (Inl out)
    then show ?thesis using lock_iteration_memory [OF y] r y by (auto split: prod.splits)
  next
    case (Inr z)
    obtain b hp' fl' where z: "z = (b, hp', fl')" by (cases z)
    then have "b = blk" "heap s' = heap s" "nextb s' = nextb s" using lock_iteration_memory [OF y] Inr by auto
    moreover have "f E b sz hp' fl' s' = Some x" using r y Inr z by simp
    ultimately show ?thesis using ih by metis
  qed
qed

text \<open>The pages of a packet can be committed and given back.\<close>

definition pages_ok :: "env \<Rightarrow> bool" where
  "pages_ok E \<longleftrightarrow> (\<forall>t p n. e_sys E t (C_VirtualCommit p n) \<noteq> 0) \<and> (\<forall>t p. e_sys E t (C_VirtualFree p) \<noteq> 0)"

lemma virtual_free_block:
  assumes "pages_ok E" "heap s b = Some (Bytes Pages xs)"
  shows "heap (virtual_free E (Ptr b 0) s) = (heap s)(b := None)"
  using assms by (simp add: virtual_free_def pages_ok_def sysc_def Let_def)

lemma lock_epilogue_memory:
  assumes "pages_ok E" "heap s b = Some (Bytes Pages xs)" "lock_epilogue E ((ok, Ptr b 0, hp), s) = (q, s')"
  shows "if q = Null then heap s' = (heap s)(b := None) else q = Ptr b 0 \<and> heap s' = heap s"
proof -
  define s1 where "s1 = (if hp \<noteq> INVALID_HANDLE_VALUE then snd (sysc E (C_CloseHandle hp) s) else s)"
  have h: "heap s1 = heap s" by (simp add: s1_def sysc_def Let_def)
  have "(q, s') = (if ok then (Ptr b 0, s1) else (Null, virtual_free E (Ptr b 0) s1))"
    using assms(3) by (auto simp: lock_epilogue_def s1_def Let_def)
  with h virtual_free_block [of E s1 b xs] assms(1,2) show ?thesis by (auto split: if_splits)
qed

lemma lock_new_block:
  assumes "os_lock_virtual_pages E Null sz s = Some (q, s')" "heap s (nextb s) = None" "pages_ok E"
  shows "if q = Null then heap s' = heap s
    else q = Ptr (nextb s) 0 \<and> (\<exists>xs. heap s' = (heap s)(nextb s \<mapsto> Bytes Pages xs))"
proof -
  obtain b s1 where a: "os_allocate_block E (- 1) sz s = (b, s1)" by fastforce
  show ?thesis
  proof (cases b)
    case Null
    then show ?thesis using assms(1) a
      by (auto simp: os_lock_virtual_pages_def os_allocate_block_def sysc_def Let_def alloc_obj_def split: if_splits)
  next
    case (Ptr i off)
    then obtain xs where s1: "b = Ptr (nextb s) 0" "heap s1 = (heap s)(nextb s \<mapsto> Bytes Pages xs)"
      using a by (auto simp: os_allocate_block_def sysc_def Let_def alloc_obj_def split: if_splits)
    then obtain out where l: "lock_loop E b sz INVALID_HANDLE_VALUE True s1 = Some out" "lock_epilogue E out = (q, s')"
      using assms(1) a by (auto simp: os_lock_virtual_pages_def)
    obtain ok b' hp s2 where o: "out = ((ok, b', hp), s2)" by (metis surj_pair)
    have "heap s2 = heap s1" "b' = b" using lock_loop_memory [OF l(1)] assms(3) by (auto simp: o pages_ok_def)
    then have "heap s2 (nextb s) = Some (Bytes Pages xs)" "lock_epilogue E ((ok, Ptr (nextb s) 0, hp), s2) = (q, s')"
      using s1 l(2) o by simp_all
    from lock_epilogue_memory [OF assms(3) this] show ?thesis
      using \<open>heap s2 = heap s1\<close> s1(2) assms(2) by (auto simp: fun_upd_idem)
  qed
qed

lemma freepkt_pages:
  assumes "pages_ok E" "get_pkt p s = Some k" "pkt_page_style k = kNonPagedPool" "ori_buffer k = Ptr b 0"
    and "heap s b = Some (Bytes Pages xs)"
  shows "\<exists>s'. freepkt E (Some p) s = Some s' \<and> heap s' = (heap s)(b := None, p := None)"
proof -
  let ?c = "C_VirtualUnlock (Ptr b 0) (unat (word_of_int (size_for_req k) :: u32))"
  define s1 where "s1 = record_call ?c (e_sys E (trace s) ?c) s"
  have p: "heap s p = Some (Pkt k)" "p \<noteq> b" using get_pkt_heapD [OF assms(2)] assms(5) by auto
  have "heap (virtual_free E (Ptr b 0) s1) = (heap s)(b := None)"
    using virtual_free_block [OF assms(1), of s1 b xs] assms(5) by (simp add: s1_def)
  moreover have "snd (os_unlock_and_free_virtual_pages E (Ptr b 0) (word_of_int (size_for_req k)) s) = virtual_free E (Ptr b 0) s1"
    by (simp add: os_unlock_and_free_virtual_pages_def os_free_memory_block_def sysc_def Let_def s1_def)
  ultimately show ?thesis using assms p
    by (simp add: freepkt_def mod_pkt_def get_pkt_def free_def)
qed

text \<open>A packet in locked pages: the block follows the packet, and \<open>freepkt\<close> gives both back.\<close>

lemma packet_pages_roundtrip:
  assumes a: "allocate_packet E h proto ty n kNonPagedPool s = Some ((r, packet), s1)" and "wf_heap s" "pages_ok E"
  shows "if r < 0 then packet = None \<and> heap s1 = heap s
    else \<exists>p k s2. packet = Some p \<and> get_pkt p s1 = Some k \<and> link k = h \<and> pkt_kind k = ty \<and> pkt_proto k = proto
      \<and> freepkt E packet s1 = Some s2 \<and> heap s2 = heap s"
proof -
  have f: "heap s (nextb s) = None" "heap s (Suc (nextb s)) = None" using assms(2) by (auto simp: wf_heap_def)
  show ?thesis
  proof (cases "h < 0")
    case True
    then show ?thesis using a by (simp add: allocate_packet_def)
  next
    case False
    obtain q s2 where q: "malloc_new E ''packet_t'' (Pkt packet_raw) s = (q, s2)" by fastforce
    show ?thesis
    proof (cases q)
      case Null
      then show ?thesis using a q False by (auto simp: allocate_packet_def malloc_new_def sysc_def Let_def alloc_obj_def split: if_splits)
    next
      case (Ptr p i)
      then have p: "q = Ptr (nextb s) 0" "p = nextb s" "i = 0" "heap s2 = (heap s)(nextb s \<mapsto> Pkt packet_raw)" "nextb s2 = Suc (nextb s)"
        using q by (auto simp: malloc_new_def sysc_def Let_def alloc_obj_def split: if_splits)
      show ?thesis
      proof (cases "0 < n")
        case False
        then show ?thesis using a q p f \<open>\<not> h < 0\<close>
          by (auto simp: allocate_packet_def packet_buffer_def free_def fun_upd_idem)
      next
        case True
        obtain b s3 where b: "os_lock_virtual_pages E Null (word_of_int n) s2 = Some (b, s3)"
          using a q p True \<open>\<not> h < 0\<close> by (cases "os_lock_virtual_pages E Null (word_of_int n) s2") (auto simp: allocate_packet_def packet_buffer_def)
        from lock_new_block [OF b _ assms(3)] p f
        have bs: "if b = Null then heap s3 = heap s2 else b = Ptr (Suc (nextb s)) 0
            \<and> (\<exists>xs. heap s3 = (heap s2)(Suc (nextb s) \<mapsto> Bytes Pages xs))" by (auto split: if_splits)
        show ?thesis
        proof (cases "b = Null")
          case True
          then show ?thesis using a q p f b bs \<open>0 < n\<close> \<open>\<not> h < 0\<close>
            by (auto simp: allocate_packet_def packet_buffer_def free_def fun_upd_idem)
        next
          case False
          with bs obtain xs where xs: "b = Ptr (Suc (nextb s)) 0" "heap s3 = (heap s2)(Suc (nextb s) \<mapsto> Bytes Pages xs)" by auto
          let ?k = "packet_init h proto ty n kNonPagedPool b"
          have r: "r = 0" "packet = Some (nextb s)" "s1 = s3\<lparr>heap := (heap s3)(nextb s \<mapsto> Pkt ?k)\<rparr>"
            using a q p b xs \<open>0 < n\<close> \<open>\<not> h < 0\<close>
            by (auto simp: allocate_packet_def packet_buffer_def mod_pkt_def get_pkt_def)
          have g: "get_pkt (nextb s) s1 = Some ?k" "heap s1 (Suc (nextb s)) = Some (Bytes Pages xs)"
            by (simp_all add: get_pkt_def r(3) xs(2))
          from freepkt_pages [OF assms(3) g(1) _ _ g(2)] obtain s5 where "freepkt E packet s1 = Some s5"
            "heap s5 = (heap s1)(Suc (nextb s) := None, nextb s := None)" by (auto simp: r(2) packet_init_def xs(1))
          moreover have "(heap s1)(Suc (nextb s) := None, nextb s := None) = heap s"
            using f p xs r(3) by (auto simp: fun_eq_iff)
          ultimately show ?thesis using r g(1) by (auto simp: packet_init_def)
        qed
      qed
    qed
  qed
qed

text \<open>A platform on which every call answers 1.\<close>

definition w_pages :: env where
  "w_pages = w_env\<lparr>e_sys := \<lambda>t c. 1\<rparr>"

text \<open>
  C32. Allocation and release of a packet leave the memory as it was: \<open>freepkt\<close> after a
  successful \<open>allocate_packet\<close> gives back the packet and its buffer, and an allocation that
  fails keeps nothing, whatever the allocator answers. This holds for packets without data, for
  buffers of the heap, and for buffers of locked pages as long as the system does not refuse to
  commit pages it has reserved or to release them (where it does, the code loses the block).
\<close>

theorem packet_roundtrip:
  assumes "allocate_packet E h proto ty n style s = Some ((r, packet), s1)" "wf_heap s"
    and "style = kNonPagedPool \<longrightarrow> pages_ok E"
  shows "if r < 0 then packet = None \<and> heap s1 = heap s
    else \<exists>p k s2. packet = Some p \<and> get_pkt p s1 = Some k \<and> link k = h \<and> pkt_kind k = ty \<and> pkt_proto k = proto
      \<and> freepkt E packet s1 = Some s2 \<and> heap s2 = heap s"
proof -
  have f: "heap s (nextb s) = None" "heap s (Suc (nextb s)) = None" using assms(2) by (auto simp: wf_heap_def)
  have g: "free (Ptr b 0) x = (case heap x b of Some y \<Rightarrow> if crt_obj y then Some (x\<lparr>heap := (heap x)(b := None)\<rparr>) else None
      | None \<Rightarrow> None)" for b x
    by (simp add: free_def split: option.splits)
  note d = allocate_packet_def malloc_new_def malloc_def alloc_obj_def packet_buffer_def sysc_def Let_def g
    freepkt_def packet_init_def get_pkt_def mod_pkt_def
  show ?thesis
  proof (cases style)
    case kNoAccess
    with assms(1) f show ?thesis
      by (auto simp: d fun_upd_idem split: if_splits)
  next
    case kVirtualHeap
    with assms(1) f show ?thesis
      by (auto simp: d fun_upd_idem fun_upd_twist split: if_splits)
  next
    case kNonPagedPool
    with assms show ?thesis using packet_pages_roundtrip by blast
  qed
qed

lemma packet_roundtrip_witness:
  "(\<exists>p s1 s2. allocate_packet w_env 7 kProto_TCP kRecv 16 kVirtualHeap w_tx = Some ((0, Some p), s1)
     \<and> freepkt w_env (Some p) s1 = Some s2 \<and> heap s2 = heap w_tx)
   \<and> (\<exists>p s1 s2. allocate_packet w_pages 7 kProto_UDP kRecv 4096 kNonPagedPool w_tx = Some ((0, Some p), s1)
     \<and> freepkt w_pages (Some p) s1 = Some s2 \<and> heap s2 = heap w_tx)"
proof
  obtain p s1 where a: "allocate_packet w_env 7 kProto_TCP kRecv 16 kVirtualHeap w_tx = Some ((0, Some p), s1)"
    by (simp add: allocate_packet_def malloc_new_def malloc_def alloc_obj_def packet_buffer_def sysc_def Let_def
        w_defs w_tx_def mod_pkt_def get_pkt_def)
  have w: "wf_heap w_tx" by (simp add: wf_heap_def w_tx_def w_st_def)
  from packet_roundtrip [OF a this] a
  show "\<exists>p s1 s2. allocate_packet w_env 7 kProto_TCP kRecv 16 kVirtualHeap w_tx = Some ((0, Some p), s1)
     \<and> freepkt w_env (Some p) s1 = Some s2 \<and> heap s2 = heap w_tx" by auto
  have "lock_loop w_pages b sz INVALID_HANDLE_VALUE True s = Some ((True, b, INVALID_HANDLE_VALUE),
      record_call (C_VirtualLock b (unat sz)) 1 s)" for b sz s
    by (subst lock_loop.simps) (simp add: lock_iteration_def sysc_def Let_def w_pages_def w_env_def)
  then obtain p s1 where "allocate_packet w_pages 7 kProto_UDP kRecv 4096 kNonPagedPool w_tx = Some ((0, Some p), s1)"
    by (simp add: allocate_packet_def malloc_new_def alloc_obj_def packet_buffer_def sysc_def Let_def
        os_lock_virtual_pages_def os_allocate_block_def os_is_page_aligned_def lock_epilogue_def
        w_pages_def w_env_def w_tx_def w_st_def mod_pkt_def get_pkt_def)
  moreover have "pages_ok w_pages" by (simp add: pages_ok_def w_pages_def w_env_def)
  ultimately show "\<exists>p s1 s2. allocate_packet w_pages 7 kProto_UDP kRecv 4096 kNonPagedPool w_tx = Some ((0, Some p), s1)
     \<and> freepkt w_pages (Some p) s1 = Some s2 \<and> heap s2 = heap w_tx"
    using packet_roundtrip [OF _ w] by fastforce
qed

subsection \<open>Unloading a link\<close>

lemma tcp_drain_ok:
  assumes "\<forall>i \<in> set q. owns h s i" "distinct (blocks q)" "ncbs s h = Some n"
    and "tcp_sender_cache_head n = Some (map fst q)"
  shows "\<exists>s'. tcp_drain E h (map fst q) s = Some s' \<and> trace s' = trace s
    \<and> heap s' = (\<lambda>b. if b \<in> set (blocks q) then None else heap s b)
    \<and> ncbs s' = (ncbs s)(h \<mapsto> n\<lparr>tcp_sender_cache_head := Some []\<rparr>)"
  using assms
proof (induction q arbitrary: s n)
  case Nil
  then show ?case by (cases n) (auto simp: fun_upd_idem)
next
  case (Cons i q)
  obtain p b bs where i: "i = (p, b, bs)" by (cases i)
  have pb: "p \<noteq> b" "p \<notin> set (blocks q)" "b \<notin> set (blocks q)" "distinct (blocks q)"
    using Cons.prems(2) i by auto
  let ?n = "n\<lparr>tcp_sender_cache_head := Some (map fst q)\<rparr>"
  let ?s1 = "s\<lparr>ncbs := (ncbs s)(h \<mapsto> ?n)\<rparr>"
  let ?s2 = "?s1\<lparr>heap := (heap s)(b := None, p := None)\<rparr>"
  have f: "freepkt E (Some p) ?s1 = Some ?s2"
    using freepkt_item [of h ?s1 p b bs E] Cons.prems(1) i pb(1) by simp
  have o: "\<forall>i \<in> set q. owns h ?s2 i"
  proof
    fix j assume j: "j \<in> set q"
    show "owns h ?s2 j"
      by (rule owns_frame [of h s]) (use Cons.prems(1) j pb item_blocks [OF j] in \<open>auto simp: blocks_def\<close>)
  qed
  have n: "ncbs ?s2 h = Some ?n" "tcp_sender_cache_head ?n = Some (map fst q)" by simp_all
  from Cons.IH [OF o pb(4) n] obtain s' where s': "tcp_drain E h (map fst q) ?s2 = Some s'"
    "trace s' = trace ?s2" "heap s' = (\<lambda>x. if x \<in> set (blocks q) then None else heap ?s2 x)"
    "ncbs s' = (ncbs ?s2)(h \<mapsto> ?n\<lparr>tcp_sender_cache_head := Some []\<rparr>)" by blast
  have "tcp_drain E h (map fst (i # q)) s = Some s'" using s'(1) f i Cons.prems(3) by simp
  moreover have "heap s' = (\<lambda>x. if x \<in> set (blocks (i # q)) then None else heap s x)"
    unfolding s'(3) using i by (auto simp: fun_eq_iff)
  ultimately show ?case using s' by (intro exI [of _ s']) (simp add: fun_eq_iff)
qed

lemma ioclose_ok:
  assumes "ncbs s h = Some n"
  shows "\<exists>s'. ioclose E (Some h) s = Some s' \<and> heap s' = heap s \<and> events (trace s') = events (trace s)
    \<and> ncbs s' = (ncbs s)(h \<mapsto> n\<lparr>sockfd := INVALID_SOCKET\<rparr>) \<and> refs s' = refs s
    \<and> (sockfd n \<noteq> INVALID_SOCKET \<longrightarrow> (\<exists>r. Call (C_closesocket (sockfd n)) r \<in> set (trace s')))"
  using assms by (cases n) (auto simp: ioclose_def sysc_def Let_def fun_upd_idem)

text \<open>The block of the large-block buffer, of the user context: none, or one the program allocated.\<close>

definition heap_ptr :: "mem \<Rightarrow> ptr \<Rightarrow> bool" where
  "heap_ptr H p \<longleftrightarrow> p = Null \<or> (\<exists>b bs. p = Ptr b 0 \<and> H b = Some (Bytes Crt bs))"

lemma unmark_ok:
  assumes "ncbs s h = Some n" "heap_ptr (heap s) (lb_data n)" "lb_data n \<noteq> Null \<longrightarrow> 0 < lb_length n"
  shows "\<exists>s' off. ncb_unmark_lb (Some h) s = Some s' \<and> trace s' = trace s
    \<and> heap s' = (\<lambda>b. if Ptr b 0 = lb_data n then None else heap s b)
    \<and> ncbs s' = (ncbs s)(h \<mapsto> n\<lparr>lb_data := Null, lb_length := 0, lb_cpy_offset := off\<rparr>)"
proof (cases "lb_data n")
  case Null
  then have e: "n\<lparr>lb_data := Null, lb_length := 0, lb_cpy_offset := lb_cpy_offset n\<rparr> = n\<lparr>lb_length := 0\<rparr>" by (cases n) simp
  let ?s = "s\<lparr>ncbs := (ncbs s)(h \<mapsto> n\<lparr>lb_length := 0\<rparr>)\<rparr>"
  have u: "ncb_unmark_lb (Some h) s = Some ?s" using assms Null by (simp add: ncb_unmark_lb_def)
  have "heap ?s = (\<lambda>b. if Ptr b 0 = lb_data n then None else heap s b)" using Null by simp
  moreover have "ncbs ?s = (ncbs s)(h \<mapsto> n\<lparr>lb_data := Null, lb_length := 0, lb_cpy_offset := lb_cpy_offset n\<rparr>)"
    unfolding e by simp
  moreover have "trace ?s = trace s" by simp
  ultimately show ?thesis using u by blast
next
  case (Ptr b i)
  with assms obtain bs where b: "i = 0" "heap s b = Some (Bytes Crt bs)" "0 < lb_length n"
    by (auto simp: heap_ptr_def)
  let ?n = "n\<lparr>lb_data := Null, lb_cpy_offset := 0, lb_length := 0\<rparr>"
  let ?s = "s\<lparr>heap := (heap s)(b := None), ncbs := (ncbs s)(h \<mapsto> ?n)\<rparr>"
  have e: "n\<lparr>lb_data := Null, lb_length := 0, lb_cpy_offset := 0\<rparr> = ?n" by simp
  have "ncb_unmark_lb (Some h) s = Some ?s" using assms(1) Ptr b by (simp add: ncb_unmark_lb_def free_bytes)
  moreover have "heap ?s = (\<lambda>c. if Ptr c 0 = lb_data n then None else heap s c)"
    using Ptr b(1) by (simp add: fun_eq_iff)
  moreover have "ncbs ?s = (ncbs s)(h \<mapsto> n\<lparr>lb_data := Null, lb_length := 0, lb_cpy_offset := 0\<rparr>)"
    unfolding e by simp
  moreover have "trace ?s = trace s" by simp
  ultimately show ?thesis by blast
qed

lemma free_context_ok:
  assumes "ncbs s h = Some n" "heap_ptr (heap s) (ncb_ctx n)" "ncb_ctx n \<noteq> Null \<longrightarrow> 0 < ncb_ctx_size n"
  shows "\<exists>s'. free_user_context h s = Some s' \<and> trace s' = trace s \<and> ncbs s' = ncbs s
    \<and> heap s' = (\<lambda>b. if Ptr b 0 = ncb_ctx n then None else heap s b)"
proof (cases "ncb_ctx n")
  case Null
  then show ?thesis using assms by (simp add: free_user_context_def)
next
  case (Ptr c i)
  with assms obtain bs where c: "i = 0" "heap s c = Some (Bytes Crt bs)" "0 < ncb_ctx_size n"
    by (auto simp: heap_ptr_def)
  with Ptr assms(1) show ?thesis by (auto simp: free_user_context_def free_bytes fun_eq_iff)
qed

text \<open>The first half of \<open>tcp_unload\<close>: the notice, the socket and the large-block buffer.\<close>

lemma unload_socket_ok:
  assumes n: "ncbs s h = Some n" "hld n = h" "nis_callback n \<noteq> 0" "sockfd n \<noteq> INVALID_SOCKET"
    and lb: "heap_ptr (heap s) (lb_data n)" "lb_data n \<noteq> Null \<longrightarrow> 0 < lb_length n"
  shows "\<exists>s1 s2 s3 off. ncb_post_preclose (Some h) s = Some s1 \<and> ioclose E (Some h) s1 = Some s2
    \<and> ncb_unmark_lb (Some h) s2 = Some s3
    \<and> ncbs s3 = (ncbs s)(h \<mapsto> n\<lparr>sockfd := INVALID_SOCKET, lb_data := Null, lb_length := 0, lb_cpy_offset := off\<rparr>)
    \<and> heap s3 = (\<lambda>b. if Ptr b 0 = lb_data n then None else heap s b)
    \<and> events (trace s3) = events (trace s) @ [EvPreClose h (context_ptr n)] \<and> refs s3 = refs s
    \<and> (\<exists>r. Call (C_closesocket (sockfd n)) r \<in> set (trace s3))"
proof -
  let ?s1 = "emit (EvPreClose h (context_ptr n)) s"
  have 1: "ncb_post_preclose (Some h) s = Some ?s1" using n by (simp add: ncb_post_preclose_def)
  let ?n2 = "n\<lparr>sockfd := INVALID_SOCKET\<rparr>"
  obtain s2 where 2: "ioclose E (Some h) ?s1 = Some s2" "heap s2 = heap s"
    "events (trace s2) = events (trace s) @ [EvPreClose h (context_ptr n)]" "ncbs s2 = (ncbs s)(h \<mapsto> ?n2)"
    "refs s2 = refs s" "\<exists>r. Call (C_closesocket (sockfd n)) r \<in> set (trace s2)"
    using ioclose_ok [of ?s1 h n E] n by (auto simp: emit_def refs_def)
  have "ncbs s2 h = Some ?n2" "heap_ptr (heap s2) (lb_data ?n2)" "lb_data ?n2 \<noteq> Null \<longrightarrow> 0 < lb_length ?n2"
    using 2 lb by simp_all
  from unmark_ok [OF this] obtain s3 off where 3: "ncb_unmark_lb (Some h) s2 = Some s3" "trace s3 = trace s2"
    "heap s3 = (\<lambda>b. if Ptr b 0 = lb_data n then None else heap s b)"
    "ncbs s3 = (ncbs s)(h \<mapsto> ?n2\<lparr>lb_data := Null, lb_length := 0, lb_cpy_offset := off\<rparr>)"
    using 2 by (auto cong: if_cong)
  have "events (trace s3) = events (trace s) @ [EvPreClose h (context_ptr n)]" "refs s3 = refs s"
    "\<exists>r. Call (C_closesocket (sockfd n)) r \<in> set (trace s3)"
    using 2(3,5,6) 3(2) by (simp_all add: refs_def)
  with 1 2(1) 3(1,3,4) show ?thesis
    by - (rule exI [of _ ?s1], rule exI [of _ s2], rule exI [of _ s3], rule exI [of _ off], intro conjI)
qed

text \<open>
  C22. When the last reference of a closed link goes, \<open>tcp_unload\<close> tells the user first that the
  link closes and last that it is closed, closes the socket, and frees everything the link
  still owned: each packet that waits in the sender queue with its data, the large-block
  buffer and the user context, and nothing else; the lock is deleted.
\<close>

theorem tcp_unload_releases:
  assumes n: "ncbs s h = Some n" "hld n = h" "nis_callback n \<noteq> 0" "sockfd n \<noteq> INVALID_SOCKET"
    and q: "tcp_sender_cache_head n = Some (map fst q)" "tcp_sender_locker n = Some 0"
      "\<forall>i \<in> set q. owns h s i" "distinct (blocks q)"
    and lb: "heap_ptr (heap s) (lb_data n)" "lb_data n \<noteq> Null \<longrightarrow> 0 < lb_length n"
    and ctx: "heap_ptr (heap s) (ncb_ctx n)" "ncb_ctx n \<noteq> Null \<longrightarrow> 0 < ncb_ctx_size n"
    and apart: "\<forall>b \<in> set (blocks q). lb_data n \<noteq> Ptr b 0 \<and> ncb_ctx n \<noteq> Ptr b 0"
      "lb_data n = Null \<or> lb_data n \<noteq> ncb_ctx n"
  shows "\<exists>s' n'. tcp_unload E (Some h) s = Some s'
    \<and> events (trace s') = events (trace s) @ [EvPreClose h (context_ptr n), EvClosed h]
    \<and> (\<exists>r. Call (C_closesocket (sockfd n)) r \<in> set (trace s'))
    \<and> heap s' = (\<lambda>b. if b \<in> set (blocks q) \<or> Ptr b 0 = lb_data n \<or> Ptr b 0 = ncb_ctx n then None else heap s b)
    \<and> ncbs s' h = Some n' \<and> sockfd n' = INVALID_SOCKET \<and> tcp_sender_locker n' = None
    \<and> tcp_sender_cache_head n' = Some [] \<and> refs s' = refs s"
proof -
  obtain s1 s2 s3 off where 3: "ncb_post_preclose (Some h) s = Some s1" "ioclose E (Some h) s1 = Some s2"
    "ncb_unmark_lb (Some h) s2 = Some s3"
    "ncbs s3 = (ncbs s)(h \<mapsto> n\<lparr>sockfd := INVALID_SOCKET, lb_data := Null, lb_length := 0, lb_cpy_offset := off\<rparr>)"
    "heap s3 = (\<lambda>b. if Ptr b 0 = lb_data n then None else heap s b)"
    "events (trace s3) = events (trace s) @ [EvPreClose h (context_ptr n)]" "refs s3 = refs s"
    "\<exists>r. Call (C_closesocket (sockfd n)) r \<in> set (trace s3)"
    using unload_socket_ok [OF n lb, of E] by (elim exE conjE) (rule that, assumption+, rule exI, assumption)
  define n3 where "n3 = n\<lparr>sockfd := INVALID_SOCKET, lb_data := Null, lb_length := 0, lb_cpy_offset := off\<rparr>"
  note 3 = 3 [folded n3_def]
  let ?n4 = "n3\<lparr>tcp_sender_list_size := 0, tcp_sender_locker := Some 1\<rparr>"
  let ?s4 = "s3\<lparr>ncbs := (ncbs s)(h \<mapsto> ?n4)\<rparr>"
  have n3: "tcp_sender_locker n3 = Some 0" "tcp_sender_cache_head n3 = Some (map fst q)" "hld n3 = h"
    "nis_callback n3 = nis_callback n" "ncb_ctx n3 = ncb_ctx n" "ncb_ctx_size n3 = ncb_ctx_size n"
    "sockfd n3 = INVALID_SOCKET"
    by (simp_all add: n3_def q n)
  have hb: "heap s3 b = heap s b" if "b \<in> set (blocks q)" for b using apart(1) 3(5) that by auto
  have o: "\<forall>i \<in> set q. owns h ?s4 i"
  proof
    fix j assume j: "j \<in> set q"
    have "owns h s j" using q(3) j by simp
    then show "owns h ?s4 j"
      by (rule owns_frame) (use item_blocks [OF j] in \<open>auto simp: blocks_def [of "[j]"] intro!: hb\<close>)
  qed
  have n4: "ncbs ?s4 h = Some ?n4" "tcp_sender_cache_head ?n4 = Some (map fst q)" using n3 by simp_all
  from tcp_drain_ok [OF o q(4) n4] obtain s5 where 5: "tcp_drain E h (map fst q) ?s4 = Some s5" "trace s5 = trace ?s4"
    "heap s5 = (\<lambda>b. if b \<in> set (blocks q) then None else heap ?s4 b)"
    "ncbs s5 = (ncbs ?s4)(h \<mapsto> ?n4\<lparr>tcp_sender_cache_head := Some []\<rparr>)" by blast
  let ?n6 = "?n4\<lparr>tcp_sender_cache_head := Some [], tcp_sender_locker := None\<rparr>"
  let ?s6 = "s5\<lparr>ncbs := (ncbs s)(h \<mapsto> ?n6)\<rparr>"
  have "heap s5 c = heap s c" if "ncb_ctx n = Ptr c 0" for c using that apart 5(3) 3(5) by auto
  then have "heap_ptr (heap ?s6) (ncb_ctx ?n6)" using ctx(1) n3(5) by (auto simp: heap_ptr_def)
  with ctx(2) n3 obtain s7 where 7: "free_user_context h ?s6 = Some s7" "trace s7 = trace s5" "ncbs s7 = ncbs ?s6"
    "heap s7 = (\<lambda>b. if Ptr b 0 = ncb_ctx n then None else heap s5 b)"
    using free_context_ok [of ?s6 h ?n6] by (auto cong: if_cong)
  have "tcp_unload E (Some h) s = ncb_post_close (Some h) s7"
    using 3(1-4) n3 5(1,4) 7(1)
    by (simp add: tcp_unload_def EnterCriticalSection_def LeaveCriticalSection_def DeleteCriticalSection_def)
  also have "\<dots> = Some (emit (EvClosed h) s7)" using 7 n3 n by (simp add: ncb_post_close_def)
  finally have "tcp_unload E (Some h) s = Some (emit (EvClosed h) s7)" .
  moreover have "refs (emit (EvClosed h) s7) = refs s" using 3(7) 5 7 by (simp add: refs_def emit_def)
  moreover have "heap s7 = (\<lambda>b. if b \<in> set (blocks q) \<or> Ptr b 0 = lb_data n \<or> Ptr b 0 = ncb_ctx n then None else heap s b)"
    using 7(4) 5(3) 3(5) by (auto simp: fun_eq_iff)
  ultimately show ?thesis using 3(6,8) 5(2) 7(2,3) n3
    by (intro exI [of _ "emit (EvClosed h) s7"] exI [of _ ?n6]) (auto simp: emit_def)
qed

text \<open>A link with two packets in its queue, a large block and a user context.\<close>

definition w_closing :: st where
  "w_closing = (w_busy 2)\<lparr>heap := (heap (w_busy 2))(6 \<mapsto> Bytes Crt [1, 2, 3, 4], 7 \<mapsto> Bytes Crt [5]),
     ncbs := [7 \<mapsto> w_ncb\<lparr>tcp_sender_cache_head := Some (map fst (w_queue 2)), tcp_sender_list_size := 2,
       lb_data := Ptr 6 0, lb_length := 4, ncb_ctx := Ptr 7 0, ncb_ctx_size := 1\<rparr>]\<rparr>"

lemma tcp_unload_releases_witness:
  "\<exists>s'. tcp_unload w_env (Some 7) w_closing = Some s' \<and> events (trace s') = [EvPreClose 7 0, EvClosed 7]
    \<and> heap s' = (\<lambda>b. if b \<in> {2, 3, 4, 5, 6, 7} then None else heap w_closing b)"
proof -
  let ?n = "w_ncb\<lparr>tcp_sender_cache_head := Some (map fst (w_queue 2)), tcp_sender_list_size := 2,
       lb_data := Ptr 6 0, lb_length := 4, ncb_ctx := Ptr 7 0, ncb_ctx_size := 1\<rparr>"
  have q: "w_queue 2 = [(2, 3, [42]), (4, 5, [42])]"
    by (simp add: w_queue_def w_item_def upt_rec numeral_2_eq_2)
  have "ncbs w_closing 7 = Some ?n" "hld ?n = 7" "nis_callback ?n \<noteq> 0" "sockfd ?n \<noteq> INVALID_SOCKET"
    "tcp_sender_cache_head ?n = Some (map fst (w_queue 2))" "tcp_sender_locker ?n = Some 0"
    by (simp_all add: w_closing_def w_ncb_def ncb_zero_def INVALID_SOCKET_def)
  moreover have "\<forall>i \<in> set (w_queue 2). owns 7 w_closing i" "distinct (blocks (w_queue 2))"
    by (simp_all add: q owns_def blocks_def w_closing_def w_busy_def w_st_def w_pkt_def packet_init_def)
  moreover have "heap_ptr (heap w_closing) (lb_data ?n)" "heap_ptr (heap w_closing) (ncb_ctx ?n)"
    by (simp_all add: heap_ptr_def w_closing_def)
  moreover have "\<forall>b \<in> set (blocks (w_queue 2)). lb_data ?n \<noteq> Ptr b 0 \<and> ncb_ctx ?n \<noteq> Ptr b 0"
    by (simp add: q blocks_def)
  ultimately obtain s' where s': "tcp_unload w_env (Some 7) w_closing = Some s'"
    "events (trace s') = events (trace w_closing) @ [EvPreClose 7 (context_ptr ?n), EvClosed 7]"
    "heap s' = (\<lambda>b. if b \<in> set (blocks (w_queue 2)) \<or> Ptr b 0 = lb_data ?n \<or> Ptr b 0 = ncb_ctx ?n
       then None else heap w_closing b)"
    using tcp_unload_releases [of w_closing 7 ?n "w_queue 2" w_env] by auto
  moreover have "context_ptr ?n = 0" "trace w_closing = []"
    by (simp_all add: w_closing_def w_busy_def w_ncb_def ncb_zero_def w_st_def)
  ultimately show ?thesis by (intro exI [of _ s']) (auto simp: q blocks_def fun_eq_iff)
qed

subsection \<open>Locking memory\<close>

text \<open>From \<open>N\<close> calls on, the system never answers that the working set is too small.\<close>

definition quota_settles :: "env \<Rightarrow> nat \<Rightarrow> bool" where
  "quota_settles E N \<longleftrightarrow> (\<forall>t. N \<le> length t \<longrightarrow> e_sys E t C_GetLastError \<noteq> ERROR_WORKING_SET_QUOTA)"

definition lock_measure :: "nat \<Rightarrow> st \<Rightarrow> bool \<Rightarrow> nat" where
  "lock_measure N s fl = 2 * (N - length (trace s)) + (if fl then 1 else 0)"

lemma lock_iteration_decreases:
  assumes "quota_settles E N" "lock_iteration E blk sz hp fl s = (Inr (blk', hp', fl'), s')"
  shows "blk' = blk \<and> lock_measure N s' fl' < lock_measure N s fl"
proof -
  have l: "length t < N" if "e_sys E t C_GetLastError = ERROR_WORKING_SET_QUOTA" for t
    using assms(1) that by (force simp: quota_settles_def)
  show ?thesis
    using assms(2) l
    by (auto simp: lock_iteration_def lock_adjust_def sysc_def Let_def lock_measure_def
        split: if_splits dest!: l)
qed

text \<open>The block was locked: some call of \<open>VirtualLock\<close> on it did not fail.\<close>

definition locked :: "ptr \<Rightarrow> u32 \<Rightarrow> st \<Rightarrow> bool" where
  "locked p sz s \<longleftrightarrow> (\<exists>r. r \<noteq> 0 \<and> Call (C_VirtualLock p (unat sz)) r \<in> set (trace s))"

lemma lock_iteration_leaves:
  assumes "lock_iteration E blk sz hp fl s = (Inl (ok, b, hp'), s')"
  shows "(ok \<longrightarrow> b = blk \<and> locked blk sz s') \<and> (b = blk \<or> b = Null)"
  using assms by (auto simp: lock_iteration_def lock_adjust_def sysc_def Let_def locked_def split: if_splits)

text \<open>The loop over the block, the process handle and the retry flag settles when the quota does.\<close>

interpretation locking: settling_loop
  "\<lambda>(b, hp, fl, s). case lock_iteration E b sz hp fl s of (Inl out, s') \<Rightarrow> Some (Inl (out, s'))
     | (Inr (b', hp', fl'), s') \<Rightarrow> Some (Inr (b', hp', fl', s'))"
  "\<lambda>(b, hp, fl, s). lock_loop E b sz hp fl s"
  "\<lambda>_. quota_settles E N" "\<lambda>(b, hp, fl, s). lock_measure N s fl"
  "\<lambda>(b, _) ((ok, b', _), s'). (ok \<longrightarrow> b' = b \<and> locked b sz s') \<and> (b' = b \<or> b' = Null)"
  for E sz N
proof unfold_locales
  fix x :: "ptr \<times> int \<times> bool \<times> st"
  obtain b hp fl s where x: "x = (b, hp, fl, s)" by (cases x)
  show "(case x of (b, hp, fl, s) \<Rightarrow> lock_loop E b sz hp fl s) = (case (case x of (b, hp, fl, s) \<Rightarrow>
      case lock_iteration E b sz hp fl s of (Inl out, s') \<Rightarrow> Some (Inl (out, s'))
        | (Inr (b', hp', fl'), s') \<Rightarrow> Some (Inr (b', hp', fl', s'))) of
      None \<Rightarrow> None | Some (Inl r) \<Rightarrow> Some r | Some (Inr (b, hp, fl, s)) \<Rightarrow> lock_loop E b sz hp fl s)"
    unfolding x by (subst lock_loop.simps) (simp split: prod.split sum.split)
qed (auto split: prod.splits sum.splits dest: lock_iteration_decreases lock_iteration_leaves)

lemma lock_loop_ends:
  assumes "quota_settles E N"
  shows "\<exists>ok b hp' s'. lock_loop E blk sz hp fl s = Some ((ok, b, hp'), s')
    \<and> (ok \<longrightarrow> b = blk \<and> locked blk sz s') \<and> (b = blk \<or> b = Null)"
  using locking.returns [OF assms, where x = "(blk, hp, fl, s)" and sz = sz] by auto

lemma lock_epilogue_result:
  "\<exists>s'. lock_epilogue E ((ok, b, hp), s) = (if ok then b else Null, s') \<and> (ok \<and> locked b sz s \<longrightarrow> locked b sz s')"
  by (auto simp: lock_epilogue_def Let_def sysc_def locked_def)

lemma lock_then_epilogue:
  assumes "quota_settles E N"
  shows "\<exists>b s'. map_option (lock_epilogue E) (lock_loop E blk sz hp fl s) = Some (b, s')
    \<and> (b \<noteq> Null \<longrightarrow> b = blk \<and> locked b sz s')"
proof -
  obtain ok b hp' s1 where l: "lock_loop E blk sz hp fl s = Some ((ok, b, hp'), s1)"
    "ok \<longrightarrow> b = blk \<and> locked blk sz s1"
    using lock_loop_ends [OF assms] by blast
  obtain s' where e: "lock_epilogue E ((ok, b, hp'), s1) = (if ok then b else Null, s')"
    "ok \<and> locked b sz s1 \<longrightarrow> locked b sz s'" using lock_epilogue_result by blast
  show ?thesis using l e by (intro exI [of _ "if ok then b else Null"] exI [of _ s']) auto
qed

text \<open>
  C24. \<open>os_lock_virtual_pages\<close> returns whenever the system stops answering that the working set is
  too small: each round of the loop either grows the working set after such an answer or uses
  its single retry after \<open>ERROR_NOACCESS\<close>. A block it returns has been locked, and a block of
  the caller comes back as it is or not at all.
\<close>

theorem lock_pages_returns:
  assumes "quota_settles E N"
  shows "\<exists>b s'. os_lock_virtual_pages E blk sz s = Some (b, s')
    \<and> (b \<noteq> Null \<longrightarrow> locked b sz s' \<and> (blk = Null \<or> b = blk))"
proof (cases blk)
  case Null
  obtain p s1 where a: "os_allocate_block E (- 1) sz s = (p, s1)" by fastforce
  show ?thesis
  proof (cases p)
    case Null
    with a \<open>blk = Null\<close> show ?thesis by (simp add: os_lock_virtual_pages_def)
  next
    case (Ptr b i)
    with a \<open>blk = Null\<close> lock_then_epilogue [OF assms, of p sz INVALID_HANDLE_VALUE True s1]
    show ?thesis by (auto simp: os_lock_virtual_pages_def)
  qed
next
  case (Ptr b i)
  with lock_then_epilogue [OF assms, of blk sz INVALID_HANDLE_VALUE True s]
  show ?thesis by (auto simp: os_lock_virtual_pages_def)
qed

text \<open>A platform on which \<open>VirtualLock\<close> fails three times for the working set and then works.\<close>

definition w_quota :: env where
  "w_quota = w_env\<lparr>e_sys := (\<lambda>t c. if length t < 9 then
     (case c of C_VirtualLock _ _ \<Rightarrow> 0 | C_GetLastError \<Rightarrow> ERROR_WORKING_SET_QUOTA | _ \<Rightarrow> 1) else 1)\<rparr>"

lemma lock_pages_returns_witness:
  "\<exists>b s'. os_lock_virtual_pages w_quota (Ptr 0 0) 4096 w_tx = Some (b, s')
    \<and> b \<in> {Null, Ptr 0 0}"
proof -
  have "quota_settles w_quota 9" by (simp add: quota_settles_def w_quota_def ERROR_WORKING_SET_QUOTA_def)
  from lock_pages_returns [OF this, of "Ptr 0 0" 4096 w_tx] show ?thesis by auto
qed

lemma lock_iteration_quota:
  assumes "\<forall>t. e_sys E t (C_VirtualLock blk (unat sz)) = 0" "\<forall>t. e_sys E t C_GetLastError = ERROR_WORKING_SET_QUOTA"
    and "\<forall>t. e_sys E t C_OpenProcess \<noteq> INVALID_HANDLE_VALUE" "\<forall>t hp. e_sys E t (C_GetProcessWorkingSetSize hp) \<noteq> 0"
    and "\<forall>t hp a b. e_sys E t (C_SetProcessWorkingSetSize hp a b) \<noteq> 0"
  shows "\<exists>hp' s'. lock_iteration E blk sz hp fl s = (Inr (blk, hp', fl), s')"
  using assms by (simp add: lock_iteration_def lock_adjust_def sysc_def Let_def)

lemma lock_loop_spins:
  assumes "\<forall>t. e_sys E t (C_VirtualLock blk (unat sz)) = 0" "\<forall>t. e_sys E t C_GetLastError = ERROR_WORKING_SET_QUOTA"
    and "\<forall>t. e_sys E t C_OpenProcess \<noteq> INVALID_HANDLE_VALUE" "\<forall>t hp. e_sys E t (C_GetProcessWorkingSetSize hp) \<noteq> 0"
    and "\<forall>t hp a b. e_sys E t (C_SetProcessWorkingSetSize hp a b) \<noteq> 0"
  shows "lock_loop E blk sz hp fl s = None"
proof (rule ccontr)
  note spin = lock_iteration_quota [OF assms]
  assume "lock_loop E blk sz hp fl s \<noteq> None"
  then obtain x where "lock_loop E blk sz hp fl s = Some x" by auto
  then have "\<not> (\<forall>hp fl s. \<exists>hp' s'. lock_iteration E blk sz hp fl s = (Inr (blk, hp', fl), s'))"
  proof (rule lock_loop.raw_induct
      [where P = "\<lambda>E blk sz hp fl s x. \<not> (\<forall>hp fl s. \<exists>hp' s'. lock_iteration E blk sz hp fl s = (Inr (blk, hp', fl), s'))", rotated])
    fix f E blk sz hp fl s x
    assume ih: "\<And>E blk sz hp fl s x. f E blk sz hp fl s = Some x \<Longrightarrow>
        \<not> (\<forall>hp fl s. \<exists>hp' s'. lock_iteration E blk sz hp fl s = (Inr (blk, hp', fl), s'))"
      and e: "(case lock_iteration E blk sz hp fl s of (Inl out, s') \<Rightarrow> Some (out, s')
        | (Inr (blk', hp', fl'), s') \<Rightarrow> f E blk' sz hp' fl' s') = Some x"
    show "\<not> (\<forall>hp fl s. \<exists>hp' s'. lock_iteration E blk sz hp fl s = (Inr (blk, hp', fl), s'))"
    proof
      assume a: "\<forall>hp fl s. \<exists>hp' s'. lock_iteration E blk sz hp fl s = (Inr (blk, hp', fl), s')"
      then obtain hp' s' where "lock_iteration E blk sz hp fl s = (Inr (blk, hp', fl), s')" by blast
      with e have "f E blk sz hp' fl s' = Some x" by simp
      from ih [OF this] a show False by blast
    qed
  qed
  with spin show False by blast
qed

text \<open>
  A block that cannot be locked although every enlargement of the working set succeeds keeps
  \<open>os_lock_virtual_pages\<close> in its loop for ever: there is no bound on the retries.
\<close>

theorem lock_pages_spins:
  assumes "\<forall>t. e_sys E t (C_VirtualLock blk (unat sz)) = 0" "\<forall>t. e_sys E t C_GetLastError = ERROR_WORKING_SET_QUOTA"
    and "\<forall>t. e_sys E t C_OpenProcess \<noteq> INVALID_HANDLE_VALUE" "\<forall>t hp. e_sys E t (C_GetProcessWorkingSetSize hp) \<noteq> 0"
    and "\<forall>t hp a b. e_sys E t (C_SetProcessWorkingSetSize hp a b) \<noteq> 0"
    and "blk \<noteq> Null" "os_is_page_aligned sz"
  shows "os_lock_virtual_pages E blk sz s = None"
proof -
  note spins = lock_loop_spins [OF assms(1-5), of INVALID_HANDLE_VALUE True s]
  then show ?thesis using assms(6,7) by (simp add: os_lock_virtual_pages_def)
qed

lemma lock_pages_spins_witness:
  "os_lock_virtual_pages (w_env\<lparr>e_sys := \<lambda>t c. case c of C_VirtualLock _ _ \<Rightarrow> 0 | C_GetLastError \<Rightarrow> 1453 | _ \<Rightarrow> 1\<rparr>)
    (Ptr 0 0) 4096 w_tx = None"
  by (rule lock_pages_spins) (simp_all add: ERROR_WORKING_SET_QUOTA_def os_is_page_aligned_def)

end
