(* ===== verification/Net_Props.thy ===== *)
theory Net_Props
  imports Life_Props
begin

text \<open>
  Properties of the library's own life: start and stop, the ports and their workers, the loop
  of a worker, and the creation of a TCP link up to the state in which it sends and receives.
\<close>

subsection \<open>Start and stop\<close>

text \<open>A step that only calls the system.\<close>

definition only_calls :: "st \<Rightarrow> st \<Rightarrow> bool" where
  "only_calls s s' \<longleftrightarrow> (\<exists>tr. s' = s\<lparr>trace := trace s @ tr\<rparr>)"

lemma only_calls_refl [simp]: "only_calls s s"
  by (auto simp: only_calls_def intro: exI [of _ "[]"])

lemma only_calls_trans: "only_calls s t \<Longrightarrow> only_calls t u \<Longrightarrow> only_calls s u"
  by (auto simp: only_calls_def)

lemma only_calls_record [simp]: "only_calls s s' \<Longrightarrow> only_calls s (record_call c r s')"
  by (auto simp: only_calls_def record_call_def)

lemma only_calls_sysc: "sysc E c s = (r, s') \<Longrightarrow> only_calls s s'"
  by (auto simp: sysc_def Let_def)

lemma only_calls_fields:
  "only_calls s s' \<Longrightarrow> so_startup s' = so_startup s \<and> so_protocol_initialized s' = so_protocol_initialized s
    \<and> ncbs s' = ncbs s \<and> divisions s' = divisions s \<and> epos s' = epos s \<and> heap s' = heap s
    \<and> nextb s' = nextb s"
  by (auto simp: only_calls_def)

lemma ioinit_one_calls: "ioinit_one E i s = (e, s') \<Longrightarrow> only_calls s s'"
  by (auto simp: ioinit_one_def sysc_def Let_def)

lemma ioinit_loop_calls: "ioinit_loop E i n s = (es, s') \<Longrightarrow> length es = n \<and> only_calls s s'"
  by (induction n arbitrary: i s es) (auto split: prod.splits dest: ioinit_one_calls intro: only_calls_trans)

lemma ioinit_frame:
  assumes "ioinit E s = (r, s')"
  shows "so_startup s' = so_startup s \<and> so_protocol_initialized s' = so_protocol_initialized s \<and> ncbs s' = ncbs s"
  using assms
  by (auto simp: ioinit_def ioinit_body_def Let_def split: prod.splits if_splits
      dest!: only_calls_sysc ioinit_loop_calls only_calls_fields)

lemma iouninit_one_calls: "only_calls s (snd (iouninit_one E e s))"
  by (auto simp: iouninit_one_def sysc_def Let_def)

lemma iouninit_loop_calls: "only_calls s (iouninit_loop E es s)"
  by (induction es arbitrary: s) (auto intro: only_calls_trans iouninit_one_calls)

lemma iouninit_startup:
  "so_startup (iouninit E s) = so_startup s \<and> so_protocol_initialized (iouninit E s) = so_protocol_initialized s"
  using only_calls_fields [OF iouninit_loop_calls]
  by (auto simp: iouninit_def sysc_def Let_def split: option.splits)

text \<open>
  C36. Start and stop do not count their users: \<open>so_init\<close> never marks TCP as started, so that after
  \<open>tcp_init\<close> and \<open>udp_init\<close> (which starts nothing again) one \<open>udp_uninit\<close> shuts the library
  down under TCP; and because \<open>__so_startup\<close> is never reset, a later \<open>tcp_init\<close> reports
  success without starting anything.
\<close>

theorem stop_ignores_tcp:
  assumes "so_startup s = 0" "so_protocol_initialized s = [False, False, False, False]" "tcp_init E s = (0, s1)"
  shows "\<exists>s2. udp_init E s1 = (0, s2) \<and> trace s2 = trace s1
    \<and> (\<exists>r. last (trace (udp_uninit E s2)) = Call C_WSACleanup r)
    \<and> tcp_init E (udp_uninit E s2) = (0, udp_uninit E s2)"
proof -
  note d = tcp_init_def so_init_def startup_add_def initialized_def set_initialized_def sysc_def Let_def i32_def
  have 1: "so_startup s1 = 1" "so_protocol_initialized s1 = [False, False, False, False]"
    using assms by (auto simp: d split: prod.splits if_splits dest!: ioinit_frame)
  let ?s2 = "s1\<lparr>so_protocol_initialized := [False, True, False, False]\<rparr>"
  have 2: "udp_init E s1 = (0, ?s2)"
    using 1 by (simp add: d udp_init_def)
  have u: "so_startup (udp_uninit E ?s2) = 1 \<and> so_protocol_initialized (udp_uninit E ?s2) = [False, False, False, False]
    \<and> (\<exists>r. last (trace (udp_uninit E ?s2)) = Call C_WSACleanup r)"
    using 1(1) iouninit_startup by (simp add: udp_uninit_def so_uninit_def set_initialized_def sysc_def Let_def)
  then have "tcp_init E (udp_uninit E ?s2) = (0, udp_uninit E ?s2)" by (simp add: d)
  with 2 u show ?thesis by (intro exI [of _ ?s2]) simp
qed

lemma stop_ignores_tcp_witness:
  "\<exists>s1 s2. tcp_init w_env w_tx = (0, s1) \<and> udp_init w_env s1 = (0, s2)
    \<and> tcp_init w_env (udp_uninit w_env s2) = (0, udp_uninit w_env s2)"
proof -
  obtain s1 where "tcp_init w_env w_tx = (0, s1)"
    by (simp add: tcp_init_def so_init_def startup_add_def initialized_def sysc_def Let_def i32_def ioinit_def
        ioinit_body_def ioinit_one_def w_defs w_tx_def)
  moreover have "so_startup w_tx = 0" "so_protocol_initialized w_tx = [False, False, False, False]"
    by (simp_all add: w_tx_def w_st_def)
  ultimately show ?thesis using stop_ignores_tcp [of w_tx w_env s1] by blast
qed

subsection \<open>The loop of a worker\<close>

lemma iorun_append:
  "iorun E (cs @ ds) s = (case iorun E cs s of None \<Rightarrow> None
     | Some ((left, k), s1) \<Rightarrow> if left then Some ((True, k + length ds), s1) else iorun E ds s1)"
  by (induction cs arbitrary: s) (auto split: bind_splits)

definition is_stop :: "completion \<Rightarrow> bool" where
  "is_stop c \<longleftrightarrow> successful c \<and> uint (bytes_transfered c) = IOCP_INVALID_SIZE_TRANSFER"

fun dispatch_all :: "env \<Rightarrow> completion list \<Rightarrow> st \<Rightarrow> st option" where
  "dispatch_all E [] s = Some s"
| "dispatch_all E (c # cs) s = do {
     s1 \<leftarrow> so_dispatch_io_event E (ovlp c) (sint (bytes_transfered c)) (internal c) s;
     dispatch_all E cs s1 }"

text \<open>
  C25. A worker dispatches the completions in the order the port gives them, failed ones that
  carry a packet included, up to the one with the size \<open>IOCP_INVALID_SIZE_TRANSFER\<close> that
  \<open>iouninit\<close> posts, and looks at no completion after it.
\<close>

theorem worker_loop:
  "iorun E cs s = map_option (\<lambda>s'. ((list_ex is_stop cs, length (dropWhile (\<lambda>c. \<not> is_stop c) cs) - 1), s'))
     (dispatch_all E (takeWhile (\<lambda>c. \<not> is_stop c) cs) s)"
  by (induction cs arbitrary: s) (auto simp: is_stop_def so_dispatch_io_event_def split: bind_splits option.splits)


subsection \<open>Ports\<close>

text \<open>
  C26. Every link belongs to one completion port, number \<open>hld mod n\<close> of the \<open>n\<close> ports that
  \<open>ioinit\<close> opens: the one its pipe events are posted to is the one its socket is associated
  with, so a single worker sees all completions of a link, in order.
\<close>

theorem one_port_per_link:
  assumes "\<forall>t. e_sys E t C_atomic_try \<noteq> 0" "\<forall>t. e_sys E t (C_new ''epoll_object'') \<noteq> 0"
    and "\<forall>t. e_sys E t C_getnprocs = np" "0 < np" "\<forall>t. e_sys E t C_atomic_passed \<noteq> 0"
    and "ncbs s h = Some n" "0 \<le> hld n"
  shows "\<exists>r s1 es e x s2. ioinit E s = (r, s1) \<and> epos s1 = Some es \<and> int (length es) = np
    \<and> e = es ! nat (hld n mod np) \<and> io_get_pipefd h s1 = Some (epfd e)
    \<and> ioatth E (Some h) s1 = Some (if x \<noteq> 0 \<and> x = epfd e then 0 else - 1, s2)
    \<and> last (trace s2) = Call (C_AssociatePort (sockfd n) (epfd e)) x"
proof -
  obtain r s1 where i: "ioinit E s = (r, s1)" by fastforce
  obtain es where es: "epos s1 = Some es" "int (length es) = np" "divisions s1 = np"
    using assms(1-4) i that by (auto simp: ioinit_def ioinit_body_def sysc_def Let_def
        split: prod.splits dest!: ioinit_loop_calls only_calls_fields)
  have n: "ncbs s1 h = Some n" using ioinit_frame [OF i] assms(6) by simp
  let ?e = "es ! nat (hld n mod np)"
  have at: "epos_at (hld n mod np) x = Some ?e" if "epos x = Some es" for x
    using that es(2) assms(4) by (simp add: epos_at_def)
  have m: "c_mod (hld n) np = Some (hld n mod np)"
    using assms(4,7) by (cases "hld n = 0") (auto simp: c_mod_def)
  have "io_get_pipefd h s1 = Some (epfd ?e)" using n m at es by (simp add: io_get_pipefd_def)
  moreover
  let ?c = "C_AssociatePort (sockfd n) (epfd ?e)"
  let ?s0 = "record_call C_atomic_passed (e_sys E (trace s1) C_atomic_passed) s1"
  let ?x = "e_sys E (trace ?s0) ?c"
  have "ioatth E (Some h) s1 = Some (if ?x \<noteq> 0 \<and> ?x = epfd ?e then 0 else - 1, record_call ?c ?x ?s0)"
    using assms(5) n m at es by (simp add: ioatth_def sysc_def Let_def)
  moreover have "last (trace (record_call ?c ?x ?s0)) = Call ?c ?x" by (simp add: record_call_def)
  ultimately show ?thesis using i es(1,2) by blast
qed


lemma one_port_per_link_witness:
  "\<exists>r s1 es. ioinit w_env w_tx = (r, s1) \<and> epos s1 = Some es \<and> length es = 1 \<and> io_get_pipefd 7 s1 = Some (epfd (es ! 0))"
proof -
  have "ncbs w_tx 7 = Some w_ncb" "0 \<le> hld w_ncb" by (simp_all add: w_tx_def w_st_def w_ncb_def)
  then have "\<exists>r s1 es e x s2. ioinit w_env w_tx = (r, s1) \<and> epos s1 = Some es \<and> int (length es) = 1
    \<and> e = es ! nat (hld w_ncb mod 1) \<and> io_get_pipefd 7 s1 = Some (epfd e)
    \<and> ioatth w_env (Some 7) s1 = Some (if x \<noteq> 0 \<and> x = epfd e then 0 else - 1, s2)
    \<and> last (trace s2) = Call (C_AssociatePort (sockfd w_ncb) (epfd e)) x"
    by (intro one_port_per_link) (simp_all add: w_env_def w_sys_def)
  then show ?thesis by auto
qed

subsection \<open>Shutdown of the workers\<close>

definition calls :: "act list \<Rightarrow> call list" where
  "calls tr = concat (map (\<lambda>a. case a of Call c r \<Rightarrow> [c] | Ev e \<Rightarrow> []) tr)"

lemma calls_simps [simp]:
  "calls [] = []" "calls (tr @ tr') = calls tr @ calls tr'" "calls (Call c r # tr) = c # calls tr"
  by (simp_all add: calls_def)

text \<open>The calls that stop one port: a worker that runs is told to leave, awaited, closed.\<close>

definition stop_calls :: "epoll_object \<Rightarrow> call list" where
  "stop_calls e =
     (if actived e then [C_PostQueuedCompletionStatus (epfd e) IOCP_INVALID_SIZE_TRANSFER None,
        C_WaitForSingleObject (thread e), C_CloseHandle (thread e)] else [])
     @ (if epfd e \<noteq> 0 then [C_CloseHandle (epfd e)] else [])"

lemma iouninit_one_stops: "calls (trace (snd (iouninit_one E e s))) = calls (trace s) @ stop_calls e"
  by (simp add: iouninit_one_def stop_calls_def sysc_def Let_def record_call_def)

lemma iouninit_loop_stops: "calls (trace (iouninit_loop E es s)) = calls (trace s) @ concat (map stop_calls es)"
  by (induction es arbitrary: s) (simp_all add: iouninit_one_stops)

text \<open>
  \<open>iouninit\<close> stops the ports one after the other, each worker that runs is told to leave
  and awaited before its handle and its port are closed, each handle is closed once, and
  nothing is left to stop a second time.
\<close>

lemma iouninit_stops_all:
  "calls (trace (iouninit E s)) = calls (trace s) @ C_atomic_regress
     # (if e_sys E (trace s) C_atomic_regress = 0 then []
        else case epos s of None \<Rightarrow> [] | Some es \<Rightarrow> concat (map stop_calls es))
   \<and> epos (iouninit E s) = (if e_sys E (trace s) C_atomic_regress = 0 then epos s else None)"
  by (auto simp: iouninit_def sysc_def Let_def record_call_def iouninit_loop_stops split: option.splits)


subsection \<open>A link that was created\<close>

lemma setsockopt_calls: "ncbs s h = Some n \<Longrightarrow> \<exists>r s'. setsockopt E h l k v s = Some (r, s') \<and> only_calls s s'"
  by (simp add: setsockopt_def sysc_def Let_def)

lemma tcp_update_opts_calls:
  assumes "ncbs s h = Some n"
  shows "\<exists>s'. tcp_update_opts E (Some h) s = Some (0, s') \<and> only_calls s s'"
proof -
  have step: "\<exists>r s'. setsockopt E h l k v x = Some (r, s') \<and> only_calls s s'" if "only_calls s x" for l k v x
    using setsockopt_calls [of x h n E l k v] that assms only_calls_fields only_calls_trans by metis
  obtain r1 s1 where 1: "setsockopt E h SOL_SOCKET SO_RCVBUF (V_int TCP_BUFFER_SIZE) s = Some (r1, s1)" "only_calls s s1"
    using step [OF only_calls_refl] by blast
  obtain r2 s2 where 2: "setsockopt E h SOL_SOCKET SO_SNDBUF (V_int TCP_BUFFER_SIZE) s1 = Some (r2, s2)" "only_calls s s2"
    using step [OF 1(2)] by blast
  obtain r3 s3 where 3: "setsockopt E h SOL_SOCKET SO_LINGER (V_linger 1 0) s2 = Some (r3, s3)" "only_calls s s3"
    using step [OF 2(2)] by blast
  obtain r4 s4 where 4: "setsockopt E h SOL_SOCKET SO_KEEPALIVE (V_int 1) s3 = Some (r4, s4)" "only_calls s s4"
    using step [OF 3(2)] by blast
  obtain r5 s5 where 5: "setsockopt E h IPPROTO_TCP TCP_NODELAY (V_int 1) s4 = Some (r5, s5)" "only_calls s s5"
    using step [OF 4(2)] by blast
  show ?thesis using 1 2 3 4 5
    by (simp add: tcp_update_opts_def ncb_set_window_size_def ncb_set_linger_def ncb_set_keepalive_def tcp_set_nodelay_def)
qed

text \<open>The ports are open and accept sockets.\<close>

definition ports_ready :: "env \<Rightarrow> st \<Rightarrow> bool" where
  "ports_ready E s \<longleftrightarrow> (\<exists>es. epos s = Some es \<and> es \<noteq> [] \<and> divisions s = int (length es) \<and> (\<forall>e \<in> set es. epfd e \<noteq> 0))
     \<and> (\<forall>t. e_sys E t C_atomic_passed \<noteq> 0) \<and> (\<forall>t sk p. e_sys E t (C_AssociatePort sk p) = p)"

lemma ioatth_ready:
  assumes "ports_ready E s" "ncbs s h = Some n" "0 \<le> hld n"
  shows "\<exists>s' port. ioatth E (Some h) s = Some (0, s') \<and> only_calls s s' \<and> events (trace s') = events (trace s)
    \<and> requests (trace s') = requests (trace s) @ [I_AssociatePort (sockfd n) port] \<and> refs s' = refs s
    \<and> (\<exists>r. trace s' = trace s @ [Call C_atomic_passed r, Call (C_AssociatePort (sockfd n) port) port])
    \<and> (\<exists>es. epos s = Some es \<and> port = epfd (es ! nat (hld n mod divisions s)))"
proof -
  obtain es where es: "epos s = Some es" "es \<noteq> []" "divisions s = int (length es)" "\<forall>e \<in> set es. epfd e \<noteq> 0"
    using assms(1) by (auto simp: ports_ready_def)
  let ?i = "hld n mod int (length es)"
  have i: "0 \<le> ?i" "?i < int (length es)" using es(2) by simp_all
  have m: "c_mod (hld n) (divisions s) = Some ?i"
    using es(2,3) assms(3) by (cases "hld n = 0") (auto simp: c_mod_def)
  have "epfd (es ! nat ?i) \<noteq> 0" using es(4) i by simp
  then show ?thesis using assms(1,2) m es(1,3) i
    by (simp add: ioatth_def epos_at_def ports_ready_def sysc_def Let_def)
qed

text \<open>The platform grants a handle, a socket and a binding.\<close>

definition grants :: "env \<Rightarrow> handle \<Rightarrow> sock \<Rightarrow> bool" where
  "grants E h fd \<longleftrightarrow> steady E h \<and> 0 \<le> h \<and> fd \<noteq> INVALID_SOCKET
     \<and> (\<forall>t. e_sys E t C_objallo = h \<and> word_of_int (e_sys E t (C_WSASocket SOCK_STREAM IPPROTO_TCP)) = fd)
     \<and> (\<forall>t a p. 0 \<le> e_sys E t (C_bind fd a p))"

text \<open>
  The calls \<open>tr\<close> bind the socket to the address, and then associate it with the completion port;
  both succeed.
\<close>

definition bound_on :: "sock \<Rightarrow> u32 \<Rightarrow> u16 \<Rightarrow> int \<Rightarrow> act list \<Rightarrow> bool" where
  "bound_on fd a po pt tr \<longleftrightarrow> (\<exists>tr1 r tr2 tr3. tr = tr1 @ Call (C_bind fd a po) r # tr2 @ Call (C_AssociatePort fd pt) pt # tr3 \<and> 0 \<le> r)"

lemma bound_on_within:
  assumes "bound_on fd a po pt tr"
  shows "bound_on fd a po pt (t1 @ tr @ t2)"
proof -
  obtain x r y z where "tr = x @ Call (C_bind fd a po) r # y @ Call (C_AssociatePort fd pt) pt # z" "0 \<le> r"
    using assms by (auto simp: bound_on_def)
  then show ?thesis unfolding bound_on_def
    by (intro exI [of _ "t1 @ x"] exI [of _ r] exI [of _ y] exI [of _ "z @ t2"]) simp
qed

lemma tcp_entry_ready:
  assumes "grants E h fd" "ports_ready E s" "ncbs s h = Some m" "\<not> is_remote c"
  shows "\<exists>n s'. tcp_entry E h (Some h) c s = Some (0, s') \<and> ncbs s' = (ncbs s)(h \<mapsto> n)
    \<and> n = ncb_zero\<lparr>sockfd := fd, proto_type := kProto_TCP, nis_callback := callback c, hld := h,
        tcp_sender_cache_head := Some [], tcp_sender_locker := Some 0,
        local_addr := \<lparr>sin_family = PF_INET, sin_port = tcp_cinit_t.port c, sin_addr = tcp_cinit_t.ip c\<rparr>\<rparr>
    \<and> (\<exists>tr port r. s' = s\<lparr>ncbs := (ncbs s)(h \<mapsto> n), trace := trace s @ tr\<rparr>
        \<and> bound_on fd (tcp_cinit_t.ip c) (tcp_cinit_t.port c) port tr
        \<and> (\<exists>es. epos s = Some es \<and> port = epfd (es ! nat (h mod divisions s))))"
proof -
  let ?n0 = "ncb_zero\<lparr>sockfd := INVALID_SOCKET, proto_type := kProto_TCP, nis_callback := callback c, hld := h\<rparr>"
  let ?n1 = "?n0\<lparr>sockfd := fd, tcp_sender_locker := Some 0, tcp_sender_cache_head := Some [],
      tcp_sender_list_size := 0, tcp_write_pending := 0\<rparr>"
  let ?n2 = "?n1\<lparr>local_addr := \<lparr>sin_family = PF_INET, sin_port = tcp_cinit_t.port c, sin_addr = tcp_cinit_t.ip c\<rparr>\<rparr>"
  have g: "0 \<le> h" "fd \<noteq> INVALID_SOCKET" "\<And>t. word_of_int (e_sys E t (C_WSASocket SOCK_STREAM IPPROTO_TCP)) = fd"
    "\<And>t a p. \<not> e_sys E t (C_bind fd a p) < 0"
    using assms(1) by (auto simp: grants_def not_less)
  let ?s0 = "s\<lparr>ncbs := (ncbs s)(h \<mapsto> ?n0)\<rparr>"
  let ?s1 = "record_call (C_WSASocket SOCK_STREAM IPPROTO_TCP) (e_sys E (trace s) (C_WSASocket SOCK_STREAM IPPROTO_TCP)) ?s0"
  let ?s2 = "?s1\<lparr>ncbs := (ncbs s)(h \<mapsto> ?n1)\<rparr>"
  have "ncbs ?s2 h = Some ?n1" by simp
  from tcp_update_opts_calls [OF this] obtain s3 where 3: "tcp_update_opts E (Some h) ?s2 = Some (0, s3)"
    "only_calls ?s2 s3" by blast
  let ?s4 = "s3\<lparr>ncbs := (ncbs s)(h \<mapsto> ?n2)\<rparr>"
  let ?c = "C_bind fd (tcp_cinit_t.ip c) (tcp_cinit_t.port c)"
  let ?s5 = "record_call ?c (e_sys E (trace ?s4) ?c) ?s4"
  obtain tr3 where tr3: "s3 = ?s2\<lparr>trace := trace ?s2 @ tr3\<rparr>" using 3(2) by (auto simp: only_calls_def)
  have "ports_ready E ?s5" "ncbs ?s5 h = Some ?n2" "0 \<le> hld ?n2"
    using assms(2) g(1) by (simp_all add: ports_ready_def tr3 record_call_def)
  from ioatth_ready [OF this] obtain s6 port ra es where
    6: "ioatth E (Some h) ?s5 = Some (0, s6)" "only_calls ?s5 s6"
      "trace s6 = trace ?s5 @ [Call C_atomic_passed ra, Call (C_AssociatePort fd port) port]"
    and port: "epos ?s5 = Some es" "port = epfd (es ! nat (h mod divisions ?s5))" by auto
  have n3: "ncbs s3 = (ncbs s)(h \<mapsto> ?n1)" by (simp add: tr3)
  have "tcp_entry_body E h h c s = Some (0, s6)"
    using assms(3,4) g 3(1) 6(1) n3
    by (simp add: tcp_entry_body_def ncb_init_def so_create_def so_bind_def sysc_def Let_def InitializeCriticalSection_def)
  moreover have "ncbs s6 = (ncbs s)(h \<mapsto> ?n2)" using only_calls_fields [OF 6(2)] by simp
  ultimately have e: "tcp_entry E h (Some h) c s = Some (0, s6)" "ncbs s6 = (ncbs s)(h \<mapsto> ?n2)"
    using g(1) by (simp_all add: tcp_entry_def)
  let ?rb = "e_sys E (trace ?s4) ?c"
  let ?tr1 = "Call (C_WSASocket SOCK_STREAM IPPROTO_TCP) (e_sys E (trace s) (C_WSASocket SOCK_STREAM IPPROTO_TCP)) # tr3"
  let ?tr = "?tr1 @ Call ?c ?rb # [Call C_atomic_passed ra] @ Call (C_AssociatePort fd port) port # []"
  obtain tr6 where "s6 = ?s5\<lparr>trace := trace ?s5 @ tr6\<rparr>" using 6(2) by (auto simp: only_calls_def)
  then have s6: "s6 = s\<lparr>ncbs := (ncbs s)(h \<mapsto> ?n2), trace := trace s @ ?tr\<rparr>"
    using 6(3) by (simp add: tr3 record_call_def)
  have "bound_on fd (tcp_cinit_t.ip c) (tcp_cinit_t.port c) port ?tr"
    unfolding bound_on_def using g(4) [of "trace ?s4" "tcp_cinit_t.ip c" "tcp_cinit_t.port c"]
    by (intro exI [of _ ?tr1] exI [of _ ?rb] exI [of _ "[Call C_atomic_passed ra]"] exI [of _ "[]"]) simp
  moreover have "epos s = Some es" "port = epfd (es ! nat (h mod divisions s))"
    using port by (simp_all add: tr3 record_call_def)
  ultimately show ?thesis using e s6
    by (intro exI [of _ ?n2] exI [of _ s6]) (auto simp: ncb_zero_def)
qed

text \<open>
  C21. On a platform that grants what it is asked for, \<open>tcp_create\<close> makes a link that is ready to
  send: the socket was bound to the given address and then associated with the completion port of
  the handle, both with success; the control block holds its handle, its socket, the callback and
  the address, its queue is empty and unlocked with no send in flight (\<open>tx_inv\<close>, the invariant from
  which all properties of sending start), and the creation keeps no reference and no memory.
\<close>

theorem tcp_create_ready:
  assumes "grants E h fd" "ports_ready E s" "cb \<noteq> 0" "wf_heap s" "hld_ok (ncbs s)"
    and "(case l_ipstr of None \<Rightarrow> Some 0 | Some str \<Rightarrow> e_pton E str) = Some a"
  shows "\<exists>n s' tr es. tcp_create E cb l_ipstr po s = Some (h, s') \<and> ncbs s' h = Some n \<and> tx_inv h n None [] s'
    \<and> trace s' = trace s @ tr \<and> epos s = Some es
    \<and> bound_on fd a (htons po) (epfd (es ! nat (h mod divisions s))) tr
    \<and> sockfd n = fd \<and> nis_callback n = cb
    \<and> local_addr n = \<lparr>sin_family = PF_INET, sin_port = htons po, sin_addr = a\<rparr>
    \<and> unloads s' h = Some Tcp_unload \<and> refs s' = refs s \<and> heap s' = heap s"
proof -
  let ?c = "\<lparr>ip = a, port = htons po, callback = cb, is_remote = False\<rparr>"
  have g: "steady E h" "0 \<le> h" "\<And>t. e_sys E t C_objallo = h" using assms(1) by (auto simp: grants_def)
  obtain s1 where 1: "objallo E Tcp_unload s = (h, s1)" "ncbs s1 h \<noteq> None" "ports_ready E s1"
    "heap s1 = heap s" "nextb s1 = nextb s" "unloads s1 h = Some Tcp_unload"
    using g(2,3) assms(2) by (auto simp: objallo_def sysc_def Let_def ports_ready_def record_call_def)
  obtain r where 2: "objrefr E h s1 = (Some h, record_call (C_objrefr h) r s1)"
    using steady_objrefr [OF g(1)] 1(2) by blast
  let ?s2 = "record_call (C_objrefr h) r s1"
  obtain m where m: "ports_ready E ?s2" "ncbs ?s2 h = Some m" "\<not> is_remote ?c"
    using 1 by (auto simp: ports_ready_def record_call_def)
  from tcp_entry_ready [OF assms(1) m] obtain n tr port es where 3: "tcp_entry E h (Some h) ?c ?s2
      = Some (0, ?s2\<lparr>ncbs := (ncbs ?s2)(h \<mapsto> n), trace := trace ?s2 @ tr\<rparr>)"
    "n = ncb_zero\<lparr>sockfd := fd, proto_type := kProto_TCP, nis_callback := cb, hld := h,
        tcp_sender_cache_head := Some [], tcp_sender_locker := Some 0,
        local_addr := \<lparr>sin_family = PF_INET, sin_port = htons po, sin_addr = a\<rparr>\<rparr>"
    and b: "bound_on fd a (htons po) port tr" "epos ?s2 = Some es" "port = epfd (es ! nat (h mod divisions ?s2))"
    by auto
  let ?s3 = "?s2\<lparr>ncbs := (ncbs ?s2)(h \<mapsto> n), trace := trace ?s2 @ tr\<rparr>"
  let ?s4 = "record_call (C_objdefr h) 0 ?s3"
  let ?t0 = "[Call C_objallo (e_sys E (trace s) C_objallo)]"
  have c: "tcp_create E cb l_ipstr po s = Some (h, ?s4)"
    using assms(3,6) g 1(1) 2 3(1) by (simp add: tcp_create_def tcp_allocate_object_def steady_objdefr)
  moreover have "tx_inv h n None [] ?s4" using g(2) assms(4) 1
    by (simp add: tx_inv_def 3(2) sender_def same_link_def wf_heap_def record_call_def blocks_def ncb_zero_def)
  moreover have "fresh_ref E" using g(1,3) by (simp add: fresh_ref_def steady_def)
  then have "refs ?s4 = refs s" using bal_tcp_create [OF c] assms(5) by blast
  moreover have s1: "epos s1 = epos s" "divisions s1 = divisions s" "trace s1 = trace s @ ?t0"
    using 1(1) by (auto simp: objallo_def sysc_def Let_def record_call_def split: if_splits)
  moreover have "epos s = Some es" "port = epfd (es ! nat (h mod divisions s))"
    using b(2,3) s1 by (simp_all add: record_call_def)
  moreover have "trace ?s4 = trace s @ ((?t0 @ [Call (C_objrefr h) r]) @ tr @ [Call (C_objdefr h) 0])"
    using s1(3) by (simp add: record_call_def)
  moreover have "bound_on fd a (htons po) port ((?t0 @ [Call (C_objrefr h) r]) @ tr @ [Call (C_objdefr h) 0])"
    by (rule bound_on_within [OF b(1)])
  ultimately show ?thesis using 1
    by (intro exI [of _ n] exI [of _ ?s4] exI [of _ "(?t0 @ [Call (C_objrefr h) r]) @ tr @ [Call (C_objdefr h) 0]"]
        exI [of _ es]) (simp add: 3(2))
qed


text \<open>A platform that grants handle 5 and a socket, with one port open.\<close>

definition w_grant :: env where
  "w_grant = w_env\<lparr>e_sys := (\<lambda>t c. case c of Obj O_objallo \<Rightarrow> 5 | Obj (O_objclos h) \<Rightarrow> 1
     | Io (I_AssociatePort sk p) \<Rightarrow> p | _ \<Rightarrow> w_sys t c)\<rparr>"

definition w_ports :: st where
  "w_ports = w_tx\<lparr>epos := Some [\<lparr>epfd = 100, actived = True, thread = 1, load_cnt = 0\<rparr>], divisions := 1\<rparr>"

lemma tcp_create_ready_witness:
  "\<exists>n s' tr. tcp_create w_grant 1 None 80 w_ports = Some (5, s') \<and> ncbs s' 5 = Some n \<and> tx_inv 5 n None [] s'
    \<and> trace s' = trace w_ports @ tr \<and> bound_on 0 0 (htons 80) 100 tr"
proof -
  have "grants w_grant 5 0"
    by (simp add: grants_def steady_def w_grant_def w_env_def w_sys_def INVALID_SOCKET_def)
  moreover have "ports_ready w_grant w_ports"
    by (simp add: ports_ready_def w_grant_def w_ports_def w_env_def w_sys_def)
  moreover have "wf_heap w_ports" "hld_ok (ncbs w_ports)"
    by (simp_all add: wf_heap_def hld_ok_def w_ports_def w_tx_def w_st_def w_ncb_def)
  moreover have "epos w_ports = Some es \<Longrightarrow> epfd (es ! nat (5 mod divisions w_ports)) = 100" for es
    by (auto simp: w_ports_def)
  ultimately show ?thesis using tcp_create_ready [of w_grant 5 0 w_ports 1 None 0 80] by fastforce
qed

text \<open>
  C37. When no socket can be had, \<open>tcp_create\<close> does not return the error it means to return: the
  object is closed before the lock of its queue was initialised, and \<open>tcp_unload\<close> enters that
  lock, which is undefined.
\<close>

theorem tcp_create_without_socket:
  assumes "0 \<le> h" "\<forall>t. e_sys E t C_objallo = h" "steady E h" "\<forall>t. e_sys E t (C_objclos h) \<noteq> 0"
    and "\<forall>t. word_of_int (e_sys E t (C_WSASocket SOCK_STREAM IPPROTO_TCP)) = INVALID_SOCKET"
    and "cb \<noteq> 0" "(case l_ipstr of None \<Rightarrow> Some 0 | Some str \<Rightarrow> e_pton E str) = Some a"
  shows "tcp_create E cb l_ipstr po s = None"
  using assms
  by (simp add: tcp_create_def tcp_allocate_object_def objallo_def objref_def steady_def tcp_entry_def tcp_entry_body_def
      ncb_init_def so_create_def sysc_def Let_def objdefr_def objclos_def finalize_def tcp_unload_def
      ncb_post_preclose_def ioclose_def ncb_unmark_lb_def EnterCriticalSection_def ncb_zero_def emit_def INVALID_SOCKET_def)

lemma tcp_create_without_socket_witness:
  "tcp_create (w_grant\<lparr>e_sys := \<lambda>t c. case c of Sock (S_WSASocket a b) \<Rightarrow> - 1 | _ \<Rightarrow> e_sys w_grant t c\<rparr>) 1 None 80 w_ports = None"
  by (rule tcp_create_without_socket [of 5])
    (simp_all add: steady_def w_grant_def w_env_def w_sys_def INVALID_SOCKET_def)

end
