(* ===== verification/Tcp_End_To_End.thy ===== *)
theory Tcp_End_To_End
  imports Witness
begin

text \<open>
  The two ends of a connection put together: what one program writes on its link is what the
  other program's user receives, however TCP cuts the bytes on the way.
\<close>

fun accepted_data :: "tx_op list \<Rightarrow> int list \<Rightarrow> byte list list" where
  "accepted_data (Write d # xs) (r # rs) = (if r = 0 then [d] else []) @ accepted_data xs rs"
| "accepted_data (Done # xs) (r # rs) = accepted_data xs rs"
| "accepted_data xs rs = []"

lemma accepted_map: "accepted f xs rs = map f (accepted_data xs rs)"
  by (induction xs rs rule: accepted_data.induct) auto

lemma accepted_data_sub: "d \<in> set (accepted_data xs rs) \<Longrightarrow> Write d \<in> set xs"
  by (induction xs rs rule: accepted_data.induct) (auto split: if_splits)

text \<open>
  The protocol templates of the two ends fit together: the header the builder of the one
  writes for a size is one from which the parser of the other reads that size.
\<close>

definition templates :: "env \<Rightarrow> ncb_t \<Rightarrow> env \<Rightarrow> ncb_t \<Rightarrow> nat \<Rightarrow> bool" where
  "templates E n F m cb \<longleftrightarrow> builder (tcp_tst n) \<noteq> 0 \<and> attr n AND LINKATTR_TCP_NO_BUILD (e_nis E) = 0
     \<and> tst_cb (tcp_tst n) = int cb \<and> (\<forall>u. 0 < u \<and> u \<le> TCP_MAXIMUM_PACKET_SIZE \<longrightarrow>
        (case e_builder E (builder (tcp_tst n)) u of (r, hdr) \<Rightarrow>
           0 \<le> r \<and> length hdr = cb \<and> (case e_parser F (parser (tcp_tst m)) hdr of (r', u') \<Rightarrow> 0 \<le> r' \<and> u' = u)))"

fun data_ok :: "tx_op \<Rightarrow> bool" where
  "data_ok (Write d) \<longleftrightarrow> d \<noteq> [] \<and> int (length d) \<le> TCP_MAXIMUM_PACKET_SIZE"
| "data_ok Done \<longleftrightarrow> True"

lemma templatesD:
  assumes "templates E n F m cb" "d \<noteq> []" "int (length d) \<le> TCP_MAXIMUM_PACKET_SIZE"
  obtains r hdr r' where "e_builder E (builder (tcp_tst n)) (int (length d)) = (r, hdr)" "0 \<le> r"
    "length hdr = cb" "e_parser F (parser (tcp_tst m)) hdr = (r', int (length d))" "0 \<le> r'"
    "frame_of E n d = hdr @ d" "tst_cb (tcp_tst n) = int cb"
proof -
  let ?u = "int (length d)"
  obtain r hdr where b: "e_builder E (builder (tcp_tst n)) ?u = (r, hdr)" by fastforce
  obtain r' u' where p: "e_parser F (parser (tcp_tst m)) hdr = (r', u')" by fastforce
  have "0 < ?u" using assms(2) by simp
  with assms(1,3) b p have "0 \<le> r \<and> length hdr = cb \<and> 0 \<le> r' \<and> u' = ?u"
    unfolding templates_def by fastforce
  with b p assms(1) that show ?thesis by (auto simp: templates_def frame_of_def)
qed

lemma templates_op_ok:
  assumes "templates E n F m cb" "int cb \<le> TCP_RECV_BUFFER_SIZE" "data_ok x"
  shows "op_ok E n x"
proof (cases x)
  case (Write d)
  with assms obtain r hdr where "e_builder E (builder (tcp_tst n)) (int (length d)) = (r, hdr)"
    "0 \<le> r" "length hdr = cb" "tst_cb (tcp_tst n) = int cb" by (auto elim: templatesD)
  with Write assms show ?thesis by (auto simp: builds_def)
qed simp

lemma templates_frame:
  assumes "templates E n F m cb" "d \<noteq> []" "int (length d) \<le> TCP_MAXIMUM_PACKET_SIZE"
  shows "is_frame cb TCP_MAXIMUM_PACKET_SIZE (rx_parser F m) (frame_of E n d)"
    and "drop cb (frame_of E n d) = d" "length (frame_of E n d) = cb + length d"
  by (rule templatesD [OF assms], use assms in \<open>simp add: is_frame_def\<close>)+

lemma rx_events_frames:
  assumes "templates E n F m cb" "\<forall>d \<in> set ds. d \<noteq> [] \<and> int (length d) \<le> TCP_MAXIMUM_PACKET_SIZE"
    and "nis_callback m \<noteq> 0" "attr m AND LINKATTR_TCP_FULLY_RECEIVE (e_nis F) = 0"
    and "tst_cb (tcp_tst m) = int cb"
  shows "rx_events F m (map (frame_of E n) ds) = map (\<lambda>d. EvRecv (hld m) (int (length d)) d) ds"
  using assms templates_frame [OF assms(1)]
  by (auto simp: rx_events_def rx_event_def)

lemma end_to_end:
  assumes T: "tx_inv h n None [] s" "serving E h" "sending E" "allocating E" "h \<noteq> INVALID_HTCPLINK (e_nis E)"
      "\<forall>x \<in> set xs. data_ok x"
    and R: "rx_inv F cb g m p [] t" "mallocs F" "serving F g" "receiving F" "nis_callback m \<noteq> 0"
      "attr m AND LINKATTR_TCP_FULLY_RECEIVE (e_nis F) = 0"
    and P: "templates E n F m cb"
  shows "\<exists>rs s' net k. tx_run E h xs s = Some (rs, s')
    \<and> sends (requests (trace s')) = sends (requests (trace s)) @ net
    \<and> k + length (waiting (snd (chan_run (frame_of E n) xs \<lparr>sent = [], waiting = [], busy = False\<rparr>)))
        = length (accepted_data xs rs)
    \<and> (\<forall>ws. length (concat net) \<le> length ws \<longrightarrow> (\<exists>t'. rx_run F p ws (concat net) t = Some ([], t')
         \<and> events (trace t') = events (trace t)
             @ map (\<lambda>d. EvRecv g (int (length d)) d) (take k (accepted_data xs rs))))"
proof -
  let ?c = "\<lparr>sent = [], waiting = [], busy = False\<rparr>"
  obtain rs c where c: "chan_run (frame_of E n) xs ?c = (rs, c)" by fastforce
  from R(1) have cb: "0 < cb" "int cb \<le> TCP_RECV_BUFFER_SIZE" "tst_cb (tcp_tst m) = int cb" "hld m = g"
    by (auto simp: rx_inv_def rx_link_def same_link_def)
  have "tx_sim h n s ?c s" unfolding tx_sim_def
    by (rule exI [of _ None], rule exI [of _ "[]"]) (use T(1) in simp)
  then obtain s' where run: "tx_run E h xs s = Some (rs, s')" and sim: "tx_sim h n s c s'"
    using tx_run_refines [OF _ T(2-5) _ c] templates_op_ok [OF P cb(2)] T(6) by blast
  let ?ds = "accepted_data xs rs"
  let ?k = "length (sent c)"
  from chan_run_fifo [OF c] have fifo: "sent c @ waiting c = map (frame_of E n) ?ds"
    by (simp add: accepted_map)
  have ok: "\<forall>d \<in> set (take ?k ?ds). d \<noteq> [] \<and> int (length d) \<le> TCP_MAXIMUM_PACKET_SIZE"
    using T(6) by (auto dest!: in_set_takeD accepted_data_sub)
  have sent: "sent c = map (frame_of E n) (take ?k ?ds)"
    using arg_cong [OF fifo, of "take ?k"] by (simp add: take_map)
  have "\<forall>f \<in> set (map (frame_of E n) (take ?k ?ds)). is_frame cb TCP_MAXIMUM_PACKET_SIZE (rx_parser F m) f"
    using templates_frame(1) [OF P] ok by (auto simp del: take_map)
  then have d: "rx_deframe F cb m ([] @ concat (sent c)) = (sent c, [], True)"
    using deframe_frames [OF cb(1)] by (simp only: sent [symmetric] append_Nil)
  have ev: "rx_events F m (sent c) = map (\<lambda>d. EvRecv g (int (length d)) d) (take ?k ?ds)"
    using rx_events_frames [OF P ok R(5,6) cb(3)] sent cb(4) by (simp del: take_map)
  have "?k + length (waiting c) = length ?ds"
    using arg_cong [OF fifo, of length] by simp
  moreover have "sends (requests (trace s')) = sends (requests (trace s)) @ sent c"
    using sim by (auto simp: tx_sim_def)
  ultimately show ?thesis
    using run recv_stream [OF R(1-4) d] ev c by fastforce
qed

end
