(* ===== verification/Tcp_Stream_Props.thy ===== *)
theory Tcp_Stream_Props
  imports Tcp_End_To_End
begin

text \<open>
  The properties of the receiving and the sending side of a TCP link, each with an instance
  on the concrete environment of \<open>Witness\<close>.
\<close>

subsection \<open>Receiving\<close>

text \<open>The first receive packet of a link puts it into the state the receiving code keeps.\<close>

lemma recv_packet_alloc:
  assumes "allocating E" "0 \<le> h"
  shows "allocate_packet E h kProto_TCP kRecv TCP_RECV_BUFFER_SIZE kVirtualHeap s = Some ((0, Some (nextb s)),
    (let s1 = record_call (C_new ''packet_t'') (e_sys E (trace s) (C_new ''packet_t'')) s;
         r = e_sys E (trace s1) (C_malloc 69632);
         b = Suc (nextb s) in
     (record_call (C_malloc 69632) r s1)
       \<lparr>heap := (heap s)(b \<mapsto> Bytes Crt (map (e_junk E (trace s1)) [0..<69632]),
          nextb s \<mapsto> Pkt (packet_init h kProto_TCP kRecv TCP_RECV_BUFFER_SIZE kVirtualHeap (Ptr b 0))),
        nextb := Suc b\<rparr>))"
  using assms
  by (simp add: allocate_packet_def malloc_new_def sysc_def allocating_def alloc_obj_def Let_def
      packet_buffer_def malloc_ok BUF_value get_pkt_heap_upd fun_upd_twist)

lemma rx_established:
  assumes "ncbs s h = Some n" "hld n = h" "0 \<le> h" "proto_type n = kProto_TCP" "wf_heap s"
    and "lb_data n = Null" "tst_cb (tcp_tst n) = int cb" "0 < cb" "int cb \<le> TCP_RECV_BUFFER_SIZE"
    and "parser (tcp_tst n) \<noteq> 0" and A: "allocating E"
  shows "\<exists>p s'. allocate_packet E h kProto_TCP kRecv TCP_RECV_BUFFER_SIZE kVirtualHeap s
    = Some ((0, Some p), s') \<and> rx_inv E cb h n p [] s'"
proof -
  let ?b = "Suc (nextb s)" and ?p = "nextb s"
  let ?k = "packet_init h kProto_TCP kRecv TCP_RECV_BUFFER_SIZE kVirtualHeap (Ptr ?b 0)"
  obtain s' buf where r: "allocate_packet E h kProto_TCP kRecv TCP_RECV_BUFFER_SIZE kVirtualHeap s
      = Some ((0, Some ?p), s')" and s': "heap s' = (heap s)(?b \<mapsto> Bytes Crt buf, ?p \<mapsto> Pkt ?k)"
      "ncbs s' = ncbs s" "nextb s' = Suc ?b" "length buf = 69632"
    using recv_packet_alloc [OF A assms(3), of s] by (simp add: Let_def)
  have "rx_link cb h ?p ?k n ?b buf s'"
    using assms s' by (auto simp: rx_link_def get_pkt_def packet_init_def BUF_value wf_heap_def)
  moreover have "rx_small E cb ?k n ?b buf []"
    using assms by (simp add: rx_small_def packet_init_def scan.simps)
  ultimately show ?thesis using r unfolding rx_inv_def by (metis same_link_refl)
qed

text \<open>
  After a link is connected, the receive packet that the program allocates for it leaves
  the link ready to receive: no undelivered bytes, a whole empty buffer to fill.
\<close>

theorem receive_established:
  assumes "ncbs s h = Some n" "hld n = h" "0 \<le> h" "proto_type n = kProto_TCP" "wf_heap s"
    and "lb_data n = Null" "tst_cb (tcp_tst n) = int cb" "0 < cb" "int cb \<le> TCP_RECV_BUFFER_SIZE"
    and "parser (tcp_tst n) \<noteq> 0" and "allocating E"
  shows "\<exists>p s'. allocate_packet E h kProto_TCP kRecv TCP_RECV_BUFFER_SIZE kVirtualHeap s
    = Some ((0, Some p), s') \<and> rx_inv E cb h n p [] s'"
  using assms by (rule rx_established)

lemma receive_established_witness:
  "\<exists>p s'. allocate_packet w_env 7 kProto_TCP kRecv TCP_RECV_BUFFER_SIZE kVirtualHeap w_tx
    = Some ((0, Some p), s') \<and> rx_inv w_env 4 7 w_ncb p [] s'"
  by (rule receive_established)
    (simp_all add: w_env_ok w_tx_def w_st_def w_ncb_def ncb_zero_def wf_heap_def BUF_value)

text \<open>
  C3. A receive completion on an open link delivers exactly the complete frames found in the
  undelivered bytes followed by the new ones, in order, keeps the rest for the next
  completion, requests more data once (at least one byte, on the link's socket), and leaves
  every reference count as it was.
\<close>

theorem receive_completion:
  assumes "rx_inv E cb h n p carry s" "rx_arrive p bs s = Some s1"
    and "mallocs E" "serving E h" "receiving E"
    and "deframe cb TCP_MAXIMUM_PACKET_SIZE (e_parser E (parser (tcp_tst n))) (carry @ bs) = (fs, ys, True)"
  shows "\<exists>s' q m. tcp_dispatch_io_recv E (Some p) s1 = Some s' \<and> rx_inv E cb h n p ys s'
    \<and> events (trace s') = events (trace s) @ rx_events E n fs
    \<and> requests (trace s') = requests (trace s) @ [I_WSARecv (sockfd n) p q m] \<and> 0 < m
    \<and> refs s' = refs s"
  using recv_completion [OF rx_arrive_ready [OF assms(1,2), THEN conjunct1] assms(3-6)]
    rx_arrive_ready [OF assms(1,2), THEN conjunct2] by (auto simp: refs_def)

lemma receive_completion_witness:
  "\<exists>s1 s' q m. rx_arrive 0 (w_header 2 @ [5, 6] @ w_header 3 @ [7]) w_rx = Some s1
    \<and> tcp_dispatch_io_recv w_env (Some 0) s1 = Some s'
    \<and> events (trace s') = [EvRecv 7 2 [5, 6]] \<and> requests (trace s') = [I_WSARecv 9 0 q m] \<and> 0 < m
    \<and> rx_inv w_env 4 7 w_ncb 0 (w_header 3 @ [7]) s'"
proof -
  let ?bs = "w_header 2 @ [5, 6] @ w_header 3 @ [7]"
  obtain s1 where a: "rx_arrive 0 ?bs w_rx = Some s1"
    using rx_arrive_total [OF w_rx_inv, of _ ?bs]
    by (auto simp: w_rx_def w_st_def get_pkt_def packet_init_def BUF_value w_header_def)
  have d: "deframe 4 TCP_MAXIMUM_PACKET_SIZE (e_parser w_env (parser (tcp_tst w_ncb))) ([] @ ?bs)
      = ([w_header 2 @ [5, 6]], w_header 3 @ [7], True)"
    by (simp add: deframe.simps w_env_def w_header_def w_size_def MAX_value)
  show ?thesis
    using receive_completion [OF w_rx_inv a w_env_ok(1-3) d] a
    by (auto simp: w_rx_def w_st_def rx_events_def rx_event_def w_ncb_def ncb_zero_def w_env_def w_nis_def
        w_header_def)
qed

text \<open>
  C4. A header the parser rejects, or that announces a negative size or more than 50 MB, ends
  the link: the frames before it are delivered, then the link is closed and the receive
  packet freed, nothing is requested any more, and no reference is lost.
\<close>

theorem receive_malformed:
  assumes "rx_inv E cb h n p carry s" "rx_arrive p bs s = Some s1" "mallocs E" "serving E h"
    and "deframe cb TCP_MAXIMUM_PACKET_SIZE (e_parser E (parser (tcp_tst n))) (carry @ bs) = (fs, ys, False)"
  shows "\<exists>s'. tcp_dispatch_io_recv E (Some p) s1 = Some s' \<and> heap s' p = None
    \<and> events (trace s') = events (trace s) @ rx_events E n fs
    \<and> Call (C_objclos h) 0 \<in> set (trace s') \<and> requests (trace s') = requests (trace s)
    \<and> refs s' = refs s"
  using recv_malformed [OF rx_arrive_ready [OF assms(1,2), THEN conjunct1] assms(3-5)]
    rx_arrive_ready [OF assms(1,2), THEN conjunct2] by (simp add: refs_def)

lemma receive_malformed_witness:
  "\<exists>s1 s'. rx_arrive 0 (w_header 1 @ [5] @ [0, 0, 0, 255]) w_rx = Some s1
    \<and> tcp_dispatch_io_recv w_env (Some 0) s1 = Some s' \<and> heap s' 0 = None
    \<and> events (trace s') = [EvRecv 7 1 [5]] \<and> Call (C_objclos 7) 0 \<in> set (trace s')"
proof -
  let ?bs = "w_header 1 @ [5] @ [0, 0, 0, 255]"
  obtain s1 where a: "rx_arrive 0 ?bs w_rx = Some s1"
    using rx_arrive_total [OF w_rx_inv, of _ ?bs]
    by (auto simp: w_rx_def w_st_def get_pkt_def packet_init_def BUF_value w_header_def)
  have d: "deframe 4 TCP_MAXIMUM_PACKET_SIZE (e_parser w_env (parser (tcp_tst w_ncb))) ([] @ ?bs)
      = ([w_header 1 @ [5]], [0, 0, 0, 255], False)"
    by (simp add: deframe.simps w_env_def w_header_def w_size_def MAX_value)
  show ?thesis
    using receive_malformed [OF w_rx_inv a w_env_ok(1,2) d] a
    by (auto simp: w_rx_def w_st_def rx_events_def rx_event_def w_ncb_def ncb_zero_def w_env_def w_nis_def
        w_header_def)
qed

text \<open>
  C2. However the system cuts the stream into completions (any number of bytes at a time, but
  never more than requested), the user gets the same events: the frames of the stream, also
  those that are larger than the receive buffer and are collected over many completions.
\<close>

theorem receive_stream:
  assumes "rx_inv E cb h n p carry s" "mallocs E" "serving E h" "receiving E"
    and "deframe cb TCP_MAXIMUM_PACKET_SIZE (e_parser E (parser (tcp_tst n))) (carry @ net) = (fs, ys, True)"
    and "length net \<le> length ws"
  shows "\<exists>s'. rx_run E p ws net s = Some ([], s') \<and> rx_inv E cb h n p ys s'
    \<and> events (trace s') = events (trace s) @ rx_events E n fs \<and> refs s' = refs s"
  using assms by (rule recv_stream)

lemma receive_stream_witness:
  "\<exists>s'. rx_run w_env 0 [1, 2, 3, 9, 1, 4, 7] (w_header 2 @ [5, 6, 1]) w_rx = Some ([], s')
    \<and> events (trace s') = [EvRecv 7 2 [5, 6]]"
proof -
  have d: "deframe 4 TCP_MAXIMUM_PACKET_SIZE (e_parser w_env (parser (tcp_tst w_ncb)))
      ([] @ w_header 2 @ [5, 6, 1]) = ([w_header 2 @ [5, 6]], [1], True)"
    by (simp add: deframe.simps w_env_def w_header_def w_size_def MAX_value)
  show ?thesis
    using receive_stream [OF w_rx_inv w_env_ok(1-3) d, of "[1, 2, 3, 9, 1, 4, 7]"]
    by (auto simp: w_rx_def w_st_def rx_events_def rx_event_def w_ncb_def ncb_zero_def w_env_def w_nis_def
        w_header_def)
qed

text \<open>
  C10. Whatever a completion brings, the receive request that its handling posts stays inside the
  receive buffer: the one request of \<open>tcp_dispatch_io_recv\<close> names the address just behind the
  bytes that are not delivered yet (which stay at the front of the buffer) or the start of the buffer
  when a large packet is being collected, asks for at least one byte, and ends exactly where the
  buffer ends.
\<close>

theorem receive_request_in_bounds:
  assumes "rx_inv E cb h n p carry s" "rx_arrive p bs s = Some s1"
    and "mallocs E" "serving E h" "receiving E"
    and "deframe cb TCP_MAXIMUM_PACKET_SIZE (e_parser E (parser (tcp_tst n))) (carry @ bs) = (fs, ys, True)"
  shows "\<exists>s' b off m buf n'. tcp_dispatch_io_recv E (Some p) s1 = Some s'
    \<and> requests (trace s') = requests (trace s) @ [I_WSARecv (sockfd n) p (Ptr b off) m]
    \<and> heap s' b = Some (Bytes Crt buf) \<and> int (length buf) = TCP_RECV_BUFFER_SIZE
    \<and> 0 \<le> off \<and> 0 < m \<and> off + m = int (length buf) \<and> ncbs s' h = Some n'
    \<and> (if lb_data n' = Null then off = int (length ys) \<and> take (length ys) buf = ys else off = 0)"
proof -
  from recv_completion [OF rx_arrive_ready [OF assms(1,2), THEN conjunct1] assms(3-6)] obtain s' k where
    s': "tcp_dispatch_io_recv E (Some p) s1 = Some s'" "rx_inv E cb h n p ys s'" "get_pkt p s' = Some k"
    and q: "requests (trace s') = requests (trace s1) @ [I_WSARecv (sockfd n) p (irp k) (size_for_req k)]"
    by blast
  have "requests (trace s1) = requests (trace s)" using rx_arrive_ready [OF assms(1,2)] by simp
  with s' q rx_inv_writes [OF s'(2,3)] show ?thesis by (auto simp: writes_into_def)
qed

lemma receive_request_in_bounds_witness:
  "\<exists>s1 s' b off m. rx_arrive 0 (w_header 2 @ [5, 6] @ w_header 3 @ [7]) w_rx = Some s1
    \<and> tcp_dispatch_io_recv w_env (Some 0) s1 = Some s'
    \<and> requests (trace s') = [I_WSARecv 9 0 (Ptr b off) m] \<and> 0 \<le> off \<and> 0 < m \<and> off + m = 69632"
proof -
  let ?bs = "w_header 2 @ [5, 6] @ w_header 3 @ [7]"
  obtain s1 where a: "rx_arrive 0 ?bs w_rx = Some s1"
    using rx_arrive_total [OF w_rx_inv, of _ ?bs]
    by (auto simp: w_rx_def w_st_def get_pkt_def packet_init_def BUF_value w_header_def)
  have d: "deframe 4 TCP_MAXIMUM_PACKET_SIZE (e_parser w_env (parser (tcp_tst w_ncb))) ([] @ ?bs)
      = ([w_header 2 @ [5, 6]], w_header 3 @ [7], True)"
    by (simp add: deframe.simps w_env_def w_header_def w_size_def MAX_value)
  have "requests (trace w_rx) = []" "sockfd w_ncb = 9"
    by (simp_all add: w_rx_def w_st_def w_ncb_def ncb_zero_def)
  with receive_request_in_bounds [OF w_rx_inv a w_env_ok(1-3) d] a show ?thesis
    by (auto simp: BUF_value)
qed

subsection \<open>Sending\<close>

text \<open>
  A write on a link with room in its queue is accepted: the frame (header of the protocol
  template, then the data) is sent at once when no send is in progress, and otherwise added
  at the end of the queue.
\<close>

theorem write_sends_or_queues:
  assumes "tx_inv h n fl q s" "serving E h" "sending E" "allocating E"
    and "builds E n (int (length data))" "h \<noteq> INVALID_HTCPLINK (e_nis E)"
    and "data \<noteq> []" "int (length data) \<le> TCP_MAXIMUM_PACKET_SIZE" "length q < 499"
  shows "\<exists>s' p b. tcp_write E h (Some data) (int (length data)) 0 s = Some (0, s')
    \<and> (if fl = None then tx_inv h n (Some (p, b, frame_of E n data)) [] s'
         \<and> requested [I_WSASend (sockfd n) p (frame_of E n data)] s s'
       else tx_inv h n fl (q @ [(p, b, frame_of E n data)]) s' \<and> requested [] s s')"
  using assms by (rule write_accepted)

lemma write_sends_or_queues_witness:
  "\<exists>s' p. tcp_write w_env 7 (Some [5, 6]) 2 0 w_tx = Some (0, s')
    \<and> requested [I_WSASend 9 p [2, 0, 0, 0, 5, 6]] w_tx s'"
proof -
  have "7 \<noteq> INVALID_HTCPLINK (e_nis w_env)" by (simp add: w_env_def w_nis_def)
  from write_sends_or_queues [OF w_tx_inv w_env_ok(2,4,5) w_builds this, of "[5, 6]"]
  show ?thesis
    by (auto simp: MAX_value frame_of_def w_ncb_def w_env_def w_nis_def w_header_def ncb_zero_def)
qed

text \<open>
  C8. A write on a link whose queue is full is refused with -1: nothing is sent, the queue is
  as before, and the buffer and the packet made for the write are freed again, so that the
  memory of the program is exactly as before.
\<close>

theorem write_refused_when_full:
  assumes "tx_inv h n fl q s" "serving E h" "allocating E" "builds E n (int (length data))"
    and "h \<noteq> INVALID_HTCPLINK (e_nis E)" "data \<noteq> []" "int (length data) \<le> TCP_MAXIMUM_PACKET_SIZE"
    and "length q = 499"
  shows "\<exists>s'. tcp_write E h (Some data) (int (length data)) 0 s = Some (- 1, s')
    \<and> tx_inv h n fl q s' \<and> requested [] s s' \<and> heap s' = heap s"
  using assms by (rule write_refused)

lemma write_refused_when_full_witness:
  "\<exists>s'. tcp_write w_env 7 (Some [5]) 1 0 (w_busy 499) = Some (- 1, s')
    \<and> tx_inv 7 w_ncb (Some (w_item 0)) (w_queue 499) s' \<and> heap s' = heap (w_busy 499)"
proof -
  have "7 \<noteq> INVALID_HTCPLINK (e_nis w_env)" by (simp add: w_env_def w_nis_def)
  from write_refused_when_full [OF w_busy_inv w_env_ok(2,5) w_builds this, of 499 "[5]"]
  show ?thesis by (auto simp: MAX_value w_queue_def)
qed

text \<open>
  C7. When the system completes the send in flight, the packet and its buffer are freed and
  the head of the queue, if there is one, is sent next; nothing else of the memory changes
  and no reference is lost.
\<close>

theorem send_completion_sends_next:
  assumes "tx_inv h n (Some (p, b, bs)) q s" "serving E h" "sending E"
    and "get_pkt p s = Some k" "0 < size_for_translation k"
  shows "\<exists>s'. tcp_dispatch_io_send E (Some p) s = Some s' \<and> heap s' = (heap s)(b := None, p := None)
    \<and> (case q of
         [] \<Rightarrow> tx_inv h n None [] s' \<and> requested [] s s'
       | i # q' \<Rightarrow> tx_inv h n (Some i) q' s'
           \<and> requested [I_WSASend (sockfd n) (item_pkt i) (item_bytes i)] s s')"
  using assms by (rule send_completion)

lemma send_completion_sends_next_witness:
  "\<exists>s s'. tx_done 0 1 (w_busy 1) = Some s \<and> tcp_dispatch_io_send w_env (Some 0) s = Some s'
    \<and> heap s' 0 = None \<and> heap s' 1 = None
    \<and> requested [I_WSASend 9 2 [42]] s s' \<and> tx_inv 7 w_ncb (Some (w_item 1)) [] s'"
proof -
  have I: "tx_inv 7 w_ncb (Some (0, 1, [42])) [w_item 1] (w_busy 1)"
    using w_busy_inv [of 1] by (simp add: w_item_def w_queue_def)
  from tx_done_inv [OF I, of 1] obtain s k where
    s: "tx_done 0 1 (w_busy 1) = Some s" "tx_inv 7 w_ncb (Some (0, 1, [42])) [w_item 1] s"
    "get_pkt 0 s = Some k" "size_for_translation k = 1" by blast
  from send_completion_sends_next [OF s(2) w_env_ok(2,4) s(3)] s show ?thesis
    by (auto simp: w_item_def w_ncb_def)
qed

text \<open>
  C9. One call of \<open>tcp_try_write\<close> with a packet, on a link where a send is in progress: the
  packet is added to the queue while fewer than 499 packets wait (the counter counts it), and
  refused otherwise with nothing changed; the lock is free again in both cases.
\<close>

theorem try_write_bounded:
  assumes "ncbs s h = Some n" "sender h n q 1"
  shows "tcp_try_write E (Some h) (Some p) s =
    (if length q < 499
     then Some (0, s\<lparr>ncbs := (ncbs s)(h \<mapsto> n\<lparr>tcp_sender_cache_head := Some (q @ [p]),
            tcp_sender_list_size := int (length q) + 1\<rparr>)\<rparr>)
     else Some (- 1, s))"
  using try_write_wait [OF assms] try_write_refuse [OF assms] by simp

lemma try_write_bounded_witness:
  "tcp_try_write w_env (Some 7) (Some 77) (w_busy 499) = Some (- 1, w_busy 499)"
proof -
  have "sender 7 (w_ncb\<lparr>tcp_sender_cache_head := Some (map fst (w_queue 499)),
      tcp_sender_list_size := int 499, tcp_write_pending := 1\<rparr>) (map fst (w_queue 499)) 1"
    by (simp add: sender_def w_ncb_def ncb_zero_def w_queue_def del: upt_Suc)
  from try_write_bounded [OF _ this, of "w_busy 499" w_env 77] show ?thesis
    by (simp add: w_busy_def w_queue_def del: upt_Suc)
qed

text \<open>
  C6. Any sequence of writes and send completions behaves like the FIFO channel: the program
  returns the same results (0 for accepted, -1 for refused), and the bytes it has asked the
  system to send are those of the channel.
\<close>

theorem sender_refines_channel:
  assumes "tx_inv h n None [] s" "serving E h" "sending E" "allocating E"
    and "h \<noteq> INVALID_HTCPLINK (e_nis E)" "\<forall>x \<in> set xs. op_ok E n x"
    and "chan_run (frame_of E n) xs \<lparr>sent = [], waiting = [], busy = False\<rparr> = (rs, c)"
  shows "\<exists>s'. tx_run E h xs s = Some (rs, s')
    \<and> sends (requests (trace s')) = sends (requests (trace s)) @ sent c
    \<and> refs s' = refs s \<and> events (trace s') = events (trace s)"
proof -
  have "tx_sim h n s \<lparr>sent = [], waiting = [], busy = False\<rparr> s" unfolding tx_sim_def
    by (rule exI [of _ None], rule exI [of _ "[]"]) (use assms(1) in simp)
  from tx_run_refines [OF this assms(2-7)] show ?thesis by (auto simp: tx_sim_def)
qed

lemma sender_refines_channel_witness:
  "\<exists>s'. tx_run w_env 7 [Write [1], Write [2], Done, Done, Done, Write [3]] w_tx = Some ([0, 0, 0, 0, 0, 0], s')
    \<and> sends (requests (trace s')) = [[1, 0, 0, 0, 1], [1, 0, 0, 0, 2], [1, 0, 0, 0, 3]]"
proof -
  let ?xs = "[Write [1], Write [2], Done, Done, Done, Write [3 :: byte]]"
  have "\<forall>x \<in> set ?xs. op_ok w_env w_ncb x" using w_builds by (simp add: MAX_value)
  moreover have "7 \<noteq> INVALID_HTCPLINK (e_nis w_env)" by (simp add: w_env_def w_nis_def)
  ultimately show ?thesis
    using sender_refines_channel [OF w_tx_inv w_env_ok(2,4,5), of ?xs]
    by (auto simp: w_tx_def w_st_def frame_of_def w_ncb_def w_env_def w_nis_def w_header_def ncb_zero_def)
qed

end
