(* ===== verification/Conn_Props.thy ===== *)
theory Conn_Props
  imports Net_Props Tcp_Stream_Props
begin

text \<open>
  How a link comes to receive: the blocking connect, the completion of an overlapped connect and
  the accepting side each leave the link with its first receive request posted and in the state
  (\<open>rx_inv\<close>) from which the properties of the byte stream start.
\<close>

text \<open>A link with a protocol template that can receive.\<close>

definition can_receive :: "nat \<Rightarrow> handle \<Rightarrow> ncb_t \<Rightarrow> bool" where
  "can_receive cb h n \<longleftrightarrow> hld n = h \<and> 0 \<le> h \<and> proto_type n = kProto_TCP \<and> lb_data n = Null
     \<and> tst_cb (tcp_tst n) = int cb \<and> 0 < cb \<and> int cb \<le> TCP_RECV_BUFFER_SIZE \<and> parser (tcp_tst n) \<noteq> 0"

text \<open>A platform that keeps the object, allocates and accepts receive requests.\<close>

definition accommodating :: "env \<Rightarrow> handle \<Rightarrow> bool" where
  "accommodating E h \<longleftrightarrow> serving E h \<and> receiving E \<and> allocating E"

text \<open>
  The link \<open>h\<close> has just started to receive with the packet \<open>p\<close>: it is in the state of the
  receiving code with nothing undelivered, one receive request is new, memory and references
  that were there before are as they were.
\<close>

definition receives :: "env \<Rightarrow> nat \<Rightarrow> handle \<Rightarrow> ncb_t \<Rightarrow> nat \<Rightarrow> st \<Rightarrow> st \<Rightarrow> bool" where
  "receives E cb h n p s s' \<longleftrightarrow> rx_inv E cb h n p [] s' \<and> nextb s \<le> p
     \<and> (\<exists>q. requests (trace s') = requests (trace s) @ [I_WSARecv (sockfd n) p q TCP_RECV_BUFFER_SIZE])
     \<and> refs s' = refs s"

lemma recv_started:
  assumes "accommodating E h" "ncbs s h = Some n" "can_receive cb h n" "wf_heap s"
  shows "\<exists>p s1 s2. allocate_packet E h kProto_TCP kRecv TCP_RECV_BUFFER_SIZE kVirtualHeap s = Some ((0, Some p), s1)
    \<and> asio_tcp_recv E (Some p) s1 = Some (0, s2) \<and> receives E cb h n p s s2
    \<and> ncbs s2 = ncbs s \<and> events (trace s2) = events (trace s) \<and> (\<forall>b < nextb s. heap s2 b = heap s b)
    \<and> nextb s \<le> nextb s2 \<and> set (trace s) \<subseteq> set (trace s2)"
proof -
  have A: "serving E h" "receiving E" "allocating E" using assms(1) by (auto simp: accommodating_def)
  have c: "hld n = h" "0 \<le> h" using assms(3) by (auto simp: can_receive_def)
  let ?p = "nextb s" and ?b = "Suc (nextb s)"
  let ?k = "packet_init h kProto_TCP kRecv TCP_RECV_BUFFER_SIZE kVirtualHeap (Ptr ?b 0)"
  obtain s1 buf where 1: "allocate_packet E h kProto_TCP kRecv TCP_RECV_BUFFER_SIZE kVirtualHeap s = Some ((0, Some ?p), s1)"
    "heap s1 = (heap s)(?b \<mapsto> Bytes Crt buf, ?p \<mapsto> Pkt ?k)" "ncbs s1 = ncbs s" "nextb s1 = Suc ?b"
    "length buf = 69632" "events (trace s1) = events (trace s)" "requests (trace s1) = requests (trace s)" "refs s1 = refs s"
    "set (trace s) \<subseteq> set (trace s1)"
    using recv_packet_alloc [OF A(3) c(2), of s] by (simp add: Let_def subset_iff)
  have k: "get_pkt ?p s1 = Some ?k" "link ?k = h" "irp ?k = Ptr ?b 0" "size_for_req ?k = TCP_RECV_BUFFER_SIZE"
    using 1(2) by (simp_all add: get_pkt_def packet_init_def)
  have "rx_inv E cb h n ?p [] s1"
    using rx_established [OF assms(2) c(1,2) _ assms(4) _ _ _ _ _ A(3)] assms(3) 1(1)
    by (force simp: can_receive_def)
  moreover obtain s2 where 2: "asio_tcp_recv E (Some ?p) s1 = Some (0, s2)" "same_store s1 s2"
    "events (trace s2) = events (trace s1)" "refs s2 = refs s1"
    "requests (trace s2) = requests (trace s1) @ [I_WSARecv (sockfd n) ?p (irp ?k) (size_for_req ?k)]"
    "set (trace s1) \<subseteq> set (trace s2)"
    using asio_tcp_recv_serving [OF A(1,2) k(1,2) _ c(1)] assms(2) 1(3) by metis
  ultimately have "receives E cb h n ?p s s2"
    using 1(7,8) k(3,4) same_store_rx_inv [OF 2(2)] by (simp add: receives_def)
  moreover have "\<forall>b < nextb s. heap s2 b = heap s b" "ncbs s2 = ncbs s" "nextb s \<le> nextb s2"
    using 1(2-4) 2(2) by (simp_all add: same_store_def)
  moreover have "set (trace s) \<subseteq> set (trace s2)" using 1(9) 2(6) by blast
  ultimately show ?thesis using 1(1,6) 2(1,3) by metis
qed

lemma rx_inv_same: "rx_inv E cb h n p xs s \<Longrightarrow> same_link n m \<Longrightarrow> rx_inv E cb h m p xs s"
  unfolding rx_inv_def by (meson same_link_trans)

lemma receives_same:
  assumes "receives E cb h n p s s'" "same_link n m" "nextb s0 \<le> nextb s"
    and "requests (trace s0) = requests (trace s)" "refs s0 = refs s"
  shows "receives E cb h m p s0 s'"
proof -
  have "sockfd n = sockfd m" using assms(2) by (simp add: same_link_def)
  then show ?thesis using assms rx_inv_same by (auto simp: receives_def)
qed

text \<open>Fields that the receiving code does not use can change.\<close>

lemma rx_inv_set_ncb:
  assumes "rx_inv E cb h n0 p xs s" "ncbs s h = Some n" "same_link m n"
    and "lb_data m = lb_data n" "lb_length m = lb_length n" "lb_cpy_offset m = lb_cpy_offset n"
  shows "rx_inv E cb h n0 p xs (s\<lparr>ncbs := (ncbs s)(h \<mapsto> m)\<rparr>)"
proof -
  obtain k b buf where i: "rx_link cb h p k n b buf s" "same_link n n0"
    "rx_small E cb k n b buf xs \<or> rx_large E cb k n b xs s"
    using assms(1,2) by (auto simp: rx_inv_def rx_link_def)
  let ?s = "s\<lparr>ncbs := (ncbs s)(h \<mapsto> m)\<rparr>"
  have f: "hld m = hld n" "proto_type m = proto_type n" "tcp_tst m = tcp_tst n"
    using assms(3) by (simp_all add: same_link_def)
  have "rx_link cb h p k m b buf ?s" using i(1) f by (simp add: rx_link_def get_pkt_def wf_heap_def)
  moreover have "rx_small E cb k m b buf xs = rx_small E cb k n b buf xs"
    "rx_large E cb k m b xs ?s = rx_large E cb k n b xs s"
    using assms(4-6) f by (simp_all add: rx_small_def rx_large_def)
  moreover have "same_link m n0" using same_link_trans [OF assms(3) i(2)] .
  ultimately show ?thesis using i(3) unfolding rx_inv_def by blast
qed

subsection \<open>Connecting\<close>

text \<open>The block that asks for the local address changes nothing else.\<close>

lemma update_local_addr_ok:
  assumes n: "ncbs s h = Some n"
  shows "\<exists>s' a. update_local_addr E h s = Some s' \<and> ncbs s' = (ncbs s)(h \<mapsto> n\<lparr>local_addr := a\<rparr>)
    \<and> heap s' = heap s \<and> nextb s' = nextb s \<and> events (trace s') = events (trace s)
    \<and> requests (trace s') = requests (trace s) \<and> refs s' = refs s"
proof -
  let ?c = "C_getsockname (sockfd n)"
  let ?s1 = "record_call ?c (e_sys E (trace s) ?c) s"
  let ?ask = "sin_port (local_addr n) = 0 \<or> sin_addr (local_addr n) = 0"
  have e: "n\<lparr>local_addr := local_addr n\<rparr> = n" by (cases n) simp
  have u: "(ncbs s)(h \<mapsto> n\<lparr>local_addr := local_addr n\<rparr>) = ncbs s" unfolding e using n by auto
  consider "\<not> ?ask" | "?ask" "e_sys E (trace s) ?c < 0" | "?ask" "\<not> e_sys E (trace s) ?c < 0" by blast
  then show ?thesis
  proof cases
    case 1
    then have "update_local_addr E h s = Some s" using n by (simp add: update_local_addr_def)
    with u show ?thesis by (intro exI [of _ s] exI [of _ "local_addr n"]) simp
  next
    case 2
    then have "update_local_addr E h s = Some ?s1" using n by (simp add: update_local_addr_def sysc_def Let_def)
    with u show ?thesis by (intro exI [of _ ?s1] exI [of _ "local_addr n"]) simp
  next
    case 3
    then show ?thesis using n by (auto simp: update_local_addr_def sysc_def Let_def)
  qed
qed

text \<open>The end of a start: the reference taken on the link for the call is released.\<close>

lemma receives_end:
  assumes "receives E cb h m p s1 s2" "same_link m n" "nextb s1 = nextb s" "requests (trace s1) = requests (trace s)"
    and "refs s1 = (refs s)(h := refs s h + 1)" "rx_inv E cb h m p [] s'" "requests (trace s') = requests (trace s2)" "refs s' = refs s2"
  shows "receives E cb h n p s (record_call (C_objdefr h) 0 s')"
proof -
  have "rx_inv E cb h n p [] (record_call (C_objdefr h) 0 s')"
    using rx_inv_same [OF assms(6,2)] same_store_rx_inv [of s' "record_call (C_objdefr h) 0 s'"] by simp
  moreover have "sockfd m = sockfd n" using assms(2) by (simp add: same_link_def)
  ultimately show ?thesis using assms(1,3-5,7,8) by (auto simp: receives_def)
qed

text \<open>
  C16. A successful \<open>tcp_connect\<close> connects the socket to the address it was given, posts the first
  receive request of the link and tells the user: from then on the link is in the state from
  which every property of its byte stream starts.
\<close>

theorem connect_ready:
  assumes "accommodating E h" "ncbs s h = Some n" "can_receive cb h n" "wf_heap s" "nis_callback n \<noteq> 0"
    and "e_pton E str = Some a" "po \<noteq> 0" "adr = \<lparr>sin_family = AF_INET, sin_port = htons po, sin_addr = a\<rparr>"
    and "\<forall>t. e_sys E t (C_connect (sockfd n) adr) \<noteq> SOCKET_ERROR"
  shows "\<exists>p s' m. tcp_connect E h (Some str) po s = Some (0, s') \<and> receives E cb h n p s s'
    \<and> events (trace s') = events (trace s) @ [EvConnected h]
    \<and> ncbs s' h = Some m \<and> sin_addr (remote_addr m) = a \<and> sin_port (remote_addr m) = htons po"
proof -
  have S: "serving E h" using assms(1) by (simp add: accommodating_def)
  then have st: "steady E h" by (simp add: accommodating_def serving_def steady_def)
  have c: "hld n = h" "0 \<le> h" "proto_type n = kProto_TCP" using assms(3) by (auto simp: can_receive_def)
  let ?r = "e_sys E (trace s) (C_objrefr h)"
  let ?s1 = "record_call (C_objrefr h) ?r s"
  have r: "tcprefr E h s = Some ((0, Some h), ?s1)" "?r \<noteq> 0"
    using tcprefr_serving [OF S assms(2) c(3,2)] S by (auto simp: serving_def)
  let ?c = "C_connect (sockfd n) adr"
  let ?s2 = "record_call ?c (e_sys E (trace ?s1) ?c) ?s1"
  have "ncbs ?s2 h = Some n" using assms(2) by simp
  from update_local_addr_ok [OF this, of E] obtain s3 l where 3: "update_local_addr E h ?s2 = Some s3"
    "ncbs s3 = (ncbs s)(h \<mapsto> n\<lparr>local_addr := l\<rparr>)" "heap s3 = heap s" "nextb s3 = nextb s"
    "events (trace s3) = events (trace s)" "requests (trace s3) = requests (trace s)" "refs s3 = refs ?s1"
    by auto
  let ?n3 = "n\<lparr>local_addr := l\<rparr>"
  have "ncbs s3 h = Some ?n3" "can_receive cb h ?n3" "wf_heap s3" using 3 assms(3,4) by (auto simp: can_receive_def wf_heap_def)
  from recv_started [OF assms(1) this] obtain p s4 s5 where 5:
    "allocate_packet E h kProto_TCP kRecv TCP_RECV_BUFFER_SIZE kVirtualHeap s3 = Some ((0, Some p), s4)"
    "asio_tcp_recv E (Some p) s4 = Some (0, s5)" "receives E cb h ?n3 p s3 s5" "ncbs s5 = ncbs s3"
    "events (trace s5) = events (trace s3)" by blast
  let ?m1 = "?n3\<lparr>remote_addr := (remote_addr n)\<lparr>sin_addr := a\<rparr>\<rparr>"
  let ?m = "?n3\<lparr>remote_addr := (remote_addr n)\<lparr>sin_addr := a, sin_port := htons po\<rparr>\<rparr>"
  let ?s6 = "(emit (EvConnected h) s5)\<lparr>ncbs := (ncbs s5)(h \<mapsto> ?m)\<rparr>"
  have "tcp_connect_body E h a po ?s1 = Some ((0, None), ?s6)"
    using assms(2,5,7,8,9) c 3(1,2) 5(1,2,4)
    by (simp add: tcp_connect_body_def sysc_def Let_def ncb_post_connected_def emit_def)
  then have run: "tcp_connect E h (Some str) po s = Some (0, record_call (C_objdefr h) 0 ?s6)"
    using assms(6,7) r(1) c(1) st by (simp add: tcp_connect_def freepkt_def steady_objdefr_ncb)
  have "rx_inv E cb h ?n3 p [] (s5\<lparr>ncbs := (ncbs s5)(h \<mapsto> ?m)\<rparr>)"
    by (rule rx_inv_set_ncb [where n = ?n3]) (use 3(2) 5(3,4) in \<open>simp_all add: same_link_def receives_def\<close>)
  then have "rx_inv E cb h ?n3 p [] ?s6"
    by (rule iffD1 [OF same_store_rx_inv, rotated]) (simp add: same_store_def emit_def)
  moreover have "requests (trace ?s6) = requests (trace s5)" "refs ?s6 = refs s5" by (simp_all add: emit_def refs_def)
  ultimately have "receives E cb h n p s (record_call (C_objdefr h) 0 ?s6)"
    by (intro receives_end [OF 5(3)]) (use 3(4,6,7) r(2) in \<open>simp_all add: same_link_def\<close>)
  with run show ?thesis using 3(5) 5(5) by (intro exI [of _ p] exI [of _ "record_call (C_objdefr h) 0 ?s6"] exI [of _ ?m])
     (simp add: emit_def)
qed

text \<open>The connect request of \<open>tcp_connect2\<close>: it carries no data.\<close>

definition connect_packet :: "handle \<Rightarrow> nat \<Rightarrow> st \<Rightarrow> bool" where
  "connect_packet h p s \<longleftrightarrow> (\<exists>k. get_pkt p s = Some k \<and> link k = h \<and> pkt_kind k = kConnect \<and> pkt_proto k = kProto_TCP
     \<and> pkt_page_style k = kNoAccess \<and> grp_packets_cnt k = 0 \<and> ori_buffer k = Null)"

lemma update_remote_addr_ok:
  assumes n: "ncbs s h = Some n"
  shows "\<exists>s' a. update_remote_addr E h r s = Some s' \<and> ncbs s' = (ncbs s)(h \<mapsto> n\<lparr>remote_addr := a\<rparr>)
    \<and> heap s' = heap s \<and> nextb s' = nextb s \<and> events (trace s') = events (trace s)
    \<and> requests (trace s') = requests (trace s) \<and> refs s' = refs s"
proof -
  let ?c = "C_getpeername (sockfd n)"
  let ?s1 = "record_call ?c (e_sys E (trace s) ?c) s"
  have e: "n\<lparr>remote_addr := remote_addr n\<rparr> = n" by (cases n) simp
  have u: "(ncbs s)(h \<mapsto> n\<lparr>remote_addr := remote_addr n\<rparr>) = ncbs s" unfolding e using n by auto
  consider "r < 0" | "0 \<le> r" "e_sys E (trace s) ?c \<noteq> 0" | "0 \<le> r" "e_sys E (trace s) ?c = 0" by linarith
  then show ?thesis
  proof cases
    case 1
    then have "update_remote_addr E h r s = Some s" using n by (simp add: update_remote_addr_def)
    with u show ?thesis by (intro exI [of _ s] exI [of _ "remote_addr n"]) simp
  next
    case 2
    then have "update_remote_addr E h r s = Some ?s1" using n by (simp add: update_remote_addr_def sysc_def Let_def)
    with u show ?thesis by (intro exI [of _ ?s1] exI [of _ "remote_addr n"]) simp
  next
    case 3
    then show ?thesis using n by (auto simp: update_remote_addr_def sysc_def Let_def)
  qed
qed

lemma connected_addresses:
  assumes "ncbs s h = Some n"
  shows "\<exists>s3 r s4 s5 l ra. update_local_addr E h s = Some s3
    \<and> setsockopt E h SOL_SOCKET SO_UPDATE_CONNECT_CONTEXT V_none s3 = Some (r, s4)
    \<and> update_remote_addr E h r s4 = Some s5 \<and> ncbs s5 = (ncbs s)(h \<mapsto> n\<lparr>local_addr := l, remote_addr := ra\<rparr>)
    \<and> heap s5 = heap s \<and> nextb s5 = nextb s \<and> events (trace s5) = events (trace s)
    \<and> requests (trace s5) = requests (trace s) \<and> refs s5 = refs s"
proof -
  from update_local_addr_ok [OF assms, of E] obtain s3 l where 3: "update_local_addr E h s = Some s3"
    "ncbs s3 = (ncbs s)(h \<mapsto> n\<lparr>local_addr := l\<rparr>)" "heap s3 = heap s" "nextb s3 = nextb s"
    "events (trace s3) = events (trace s)" "requests (trace s3) = requests (trace s)" "refs s3 = refs s"
    by blast
  let ?o = "C_setsockopt (sockfd n) SOL_SOCKET SO_UPDATE_CONNECT_CONTEXT V_none"
  let ?r = "e_sys E (trace s3) ?o"
  let ?s4 = "record_call ?o ?r s3"
  have 4: "setsockopt E h SOL_SOCKET SO_UPDATE_CONNECT_CONTEXT V_none s3 = Some (?r, ?s4)"
    using 3(2) by (simp add: setsockopt_def sysc_def Let_def)
  have "ncbs ?s4 h = Some (n\<lparr>local_addr := l\<rparr>)" using 3(2) by simp
  from update_remote_addr_ok [OF this, of E ?r] obtain s5 ra where "update_remote_addr E h ?r ?s4 = Some s5"
    "ncbs s5 = (ncbs s)(h \<mapsto> n\<lparr>local_addr := l, remote_addr := ra\<rparr>)" "heap s5 = heap s" "nextb s5 = nextb s"
    "events (trace s5) = events (trace s)" "requests (trace s5) = requests (trace s)" "refs s5 = refs s"
    using 3 by auto
  with 3(1) 4 show ?thesis by blast
qed

text \<open>
  C17. The completion of an overlapped connect (\<open>tcp_connect2\<close>) frees the connect packet, posts the
  first receive request and tells the user that the link is connected: the link is in the same
  state as after \<open>tcp_connect\<close>, whatever the system answers about the addresses.
\<close>

theorem connected_ready:
  assumes "accommodating E h" "ncbs s h = Some n" "can_receive cb h n" "wf_heap s" "nis_callback n \<noteq> 0"
    and "connect_packet h q s" "0 \<le> status"
  shows "\<exists>p s'. so_dispatch_io_event E (Some q) m status s = Some s' \<and> receives E cb h n p s s'
    \<and> events (trace s') = events (trace s) @ [EvConnected h] \<and> heap s' q = None"
proof -
  have S: "serving E h" using assms(1) by (simp add: accommodating_def)
  then have st: "steady E h" by (simp add: serving_def steady_def)
  have c: "hld n = h" "0 \<le> h" "proto_type n = kProto_TCP" using assms(3) by (auto simp: can_receive_def)
  obtain k where k: "get_pkt q s = Some k" "link k = h" "pkt_kind k = kConnect" "pkt_proto k = kProto_TCP"
    "pkt_page_style k = kNoAccess" "grp_packets_cnt k = 0" "ori_buffer k = Null"
    using assms(6) by (auto simp: connect_packet_def)
  let ?s0 = "s\<lparr>heap := (heap s)(q \<mapsto> Pkt (k\<lparr>size_for_translation := m\<rparr>))\<rparr>"
  let ?r = "e_sys E (trace ?s0) (C_objrefr h)"
  let ?s1 = "record_call (C_objrefr h) ?r ?s0"
  have r: "tcprefr E h ?s0 = Some ((0, Some h), ?s1)" "?r \<noteq> 0"
    using tcprefr_serving [OF S, of ?s0 n] assms(2) c S by (auto simp: serving_def)
  let ?s2 = "?s1\<lparr>heap := (heap s)(q := None)\<rparr>"
  have f: "freepkt E (Some q) ?s1 = Some ?s2"
    using k by (simp add: freepkt_def free_def get_pkt_def mod_pkt_def)
  have "ncbs ?s2 h = Some n" using assms(2) by simp
  from connected_addresses [OF this, of E] obtain s3 ro s4 s5 l ra where 5: "update_local_addr E h ?s2 = Some s3"
    "setsockopt E h SOL_SOCKET SO_UPDATE_CONNECT_CONTEXT V_none s3 = Some (ro, s4)"
    "update_remote_addr E h ro s4 = Some s5" "ncbs s5 = (ncbs s)(h \<mapsto> n\<lparr>local_addr := l, remote_addr := ra\<rparr>)"
    "heap s5 = (heap s)(q := None)" "nextb s5 = nextb s" "events (trace s5) = events (trace s)"
    "requests (trace s5) = requests (trace s)" "refs s5 = refs ?s1" by auto
  let ?n5 = "n\<lparr>local_addr := l, remote_addr := ra\<rparr>"
  have "ncbs s5 h = Some ?n5" "can_receive cb h ?n5" "wf_heap s5"
    using 5 assms(3,4) by (auto simp: can_receive_def wf_heap_def)
  from recv_started [OF assms(1) this] obtain p s6 s7 where 7:
    "allocate_packet E h kProto_TCP kRecv TCP_RECV_BUFFER_SIZE kVirtualHeap s5 = Some ((0, Some p), s6)"
    "asio_tcp_recv E (Some p) s6 = Some (0, s7)" "receives E cb h ?n5 p s5 s7" "ncbs s7 = ncbs s5"
    "events (trace s7) = events (trace s5)" "\<forall>b < nextb s5. heap s7 b = heap s5 b" by blast
  let ?s8 = "record_call (C_objdefr h) 0 (emit (EvConnected h) s7)"
  have "tcp_dispatch_io_connected E (Some q) ?s0 = Some ?s8"
    using r(1) f 5(1-4) 7(1,2,4) c(1) assms(5) st k(1,2)
    by (simp add: tcp_dispatch_io_connected_def ncb_post_connected_def emit_def steady_objdefr_ncb)
  then have run: "so_dispatch_io_event E (Some q) m status s = Some ?s8"
    using k assms(7) by (simp add: so_dispatch_io_event_def tcp_dispatch_io_event_def mod_pkt_def get_pkt_def)
  have "rx_inv E cb h ?n5 p [] (emit (EvConnected h) s7)"
    using 7(3) same_store_rx_inv [of s7 "emit (EvConnected h) s7"] by (simp add: receives_def same_store_def emit_def)
  moreover have "requests (trace (emit (EvConnected h) s7)) = requests (trace s7)" by (simp add: emit_def)
  ultimately have "receives E cb h n p s ?s8"
    by (intro receives_end [OF 7(3)]) (use 5(6,8,9) r(2) in \<open>simp_all add: same_link_def\<close>)
  moreover have "heap s q \<noteq> None" using k(1) by (auto simp: get_pkt_def split: option.splits)
  then have "q < nextb s" using assms(4) by (meson not_le wf_heap_def)
  then have "heap ?s8 q = None" using 7(6) 5(5,6) by (simp add: emit_def)
  ultimately show ?thesis using run 5(7) 7(5) by (auto simp: emit_def)
qed


lemma w_accommodating: "accommodating w_env 7"
  by (simp add: accommodating_def w_env_ok)

lemma connect_ready_witness:
  "\<exists>p s'. tcp_connect w_env 7 (Some ''10.0.0.1'') 80 w_tx = Some (0, s') \<and> receives w_env 4 7 w_ncb p w_tx s'
    \<and> events (trace s') = [EvConnected 7]"
proof -
  have "ncbs w_tx 7 = Some w_ncb" "can_receive 4 7 w_ncb" "wf_heap w_tx" "nis_callback w_ncb \<noteq> 0"
    "e_pton w_env ''10.0.0.1'' = Some 0" "(80 :: u16) \<noteq> 0" "trace w_tx = []"
    by (simp_all add: can_receive_def wf_heap_def w_tx_def w_st_def w_env_def w_ncb_def ncb_zero_def BUF_value)
  moreover have "\<forall>t a. e_sys w_env t (C_connect (sockfd w_ncb) a) \<noteq> SOCKET_ERROR"
    by (simp add: w_env_def w_sys_def)
  ultimately show ?thesis using connect_ready [OF w_accommodating, of w_tx w_ncb 4 "''10.0.0.1''" 0 80] by fastforce
qed

definition w_connecting :: st where
  "w_connecting = w_st [0 \<mapsto> Pkt (packet_init 7 kProto_TCP kConnect 0 kNoAccess Null)] 1"

lemma connected_ready_witness:
  "\<exists>p s'. so_dispatch_io_event w_env (Some 0) 0 0 w_connecting = Some s' \<and> receives w_env 4 7 w_ncb p w_connecting s'
    \<and> events (trace s') = [EvConnected 7] \<and> heap s' 0 = None"
proof -
  have "ncbs w_connecting 7 = Some w_ncb" "can_receive 4 7 w_ncb" "wf_heap w_connecting" "nis_callback w_ncb \<noteq> 0"
    "connect_packet 7 0 w_connecting" "trace w_connecting = []"
    by (simp_all add: can_receive_def wf_heap_def connect_packet_def get_pkt_def packet_init_def w_connecting_def
        w_st_def w_ncb_def ncb_zero_def BUF_value)
  then show ?thesis using connected_ready [OF w_accommodating, of w_connecting w_ncb 4 0 0 0] by fastforce
qed

subsection \<open>Accepting\<close>

text \<open>The control block of an accepted link: it inherits from the listener when it is asked to.\<close>

definition inherits :: "env \<Rightarrow> ncb_t \<Rightarrow> ncb_t \<Rightarrow> ncb_t" where
  "inherits E nl na = (if attr nl AND LINKATTR_TCP_UPDATE_ACCEPT_CONTEXT (e_nis E) \<noteq> 0
     then na\<lparr>attr := attr nl, tcp_tst := tcp_tst nl\<rparr> else na)"

text \<open>The system lets the accepted socket take over the listener's context.\<close>

definition takes_over :: "env \<Rightarrow> ncb_t \<Rightarrow> ncb_t \<Rightarrow> bool" where
  "takes_over E nl na \<longleftrightarrow> (\<forall>t. 0 \<le> e_sys E t (C_WSAIoctl (sockfd na) IO_GetAcceptExSockaddrs)
     \<and> 0 \<le> e_sys E t (C_setsockopt (sockfd na) SOL_SOCKET SO_UPDATE_ACCEPT_CONTEXT (V_sock (sockfd nl))))"

lemma syn_copy_ok:
  assumes "takes_over E nl na" "ports_ready E s" "ncbs s hl = Some nl" "ncbs s ha = Some na" "hl \<noteq> ha"
    and "hld na = ha" "0 \<le> ha" "hld nl = hl" "nis_callback nl \<noteq> 0" "get_pkt p s = Some k"
  shows "\<exists>s1 ra l port. tcp_syn_copy E (Some hl) (Some ha) (Some p) s = Some (0, s1)
    \<and> ncbs s1 = (ncbs s)(ha \<mapsto> (inherits E nl na)\<lparr>remote_addr := ra, local_addr := l\<rparr>)
    \<and> heap s1 = heap s \<and> nextb s1 = nextb s \<and> events (trace s1) = events (trace s) @ [EvAccepted hl ha]
    \<and> requests (trace s1) = requests (trace s) @ [I_GetAcceptExSockaddrs p, I_AssociatePort (sockfd na) port]
    \<and> refs s1 = refs s \<and> set (trace s) \<subseteq> set (trace s1)"
proof -
  let ?i = "C_WSAIoctl (sockfd na) IO_GetAcceptExSockaddrs"
  let ?o = "C_setsockopt (sockfd na) SOL_SOCKET SO_UPDATE_ACCEPT_CONTEXT (V_sock (sockfd nl))"
  let ?g = "C_GetAcceptExSockaddrs p"
  define s1 where "s1 = (if fn_GetAcceptExSockaddrs s then s
      else (record_call ?i (e_sys E (trace s) ?i) s)\<lparr>fn_GetAcceptExSockaddrs := True\<rparr>)"
  have 1: "ncbs s1 = ncbs s" "heap s1 = heap s" "nextb s1 = nextb s" "events (trace s1) = events (trace s)"
    "requests (trace s1) = requests (trace s)" "epos s1 = epos s" "divisions s1 = divisions s"
    "s1\<lparr>fn_GetAcceptExSockaddrs := True\<rparr> = s1"
    by (simp_all add: s1_def record_call_def)
  have r1: "refs s1 = refs s" by (simp add: s1_def)
  let ?s2 = "record_call ?o (e_sys E (trace s1) ?o) s1"
  let ?s3 = "record_call ?g (e_sys E (trace ?s2) ?g) ?s2"
  define l where "l = e_addr E (trace ?s2) ?g"
  define ra where "ra = e_addr2 E (trace ?s2) ?g"
  let ?n = "(inherits E nl na)\<lparr>remote_addr := ra, local_addr := l\<rparr>"
  let ?s6 = "?s3\<lparr>ncbs := (ncbs s)(ha \<mapsto> ?n)\<rparr>"
  have "ports_ready E ?s6" "ncbs ?s6 ha = Some ?n" "0 \<le> hld ?n"
    using assms(2,6,7) 1 by (simp_all add: ports_ready_def inherits_def record_call_def)
  from ioatth_ready [OF this] obtain s7 port where 7: "ioatth E (Some ha) ?s6 = Some (0, s7)" "only_calls ?s6 s7"
    "events (trace s7) = events (trace ?s6)" "refs s7 = refs ?s6"
    "requests (trace s7) = requests (trace ?s6) @ [I_AssociatePort (sockfd ?n) port]" by blast
  note f = only_calls_fields [OF 7(2)]
  let ?s8 = "emit (EvAccepted hl ha) s7"
  have p: "get_pkt p ?s2 = Some k" using assms(10) 1(2) by (simp add: get_pkt_def)
  have c: "(if fn_GetAcceptExSockaddrs s then (0, s) else sysc E ?i s) = (st, x) \<Longrightarrow>
      0 \<le> st \<and> x\<lparr>fn_GetAcceptExSockaddrs := True\<rparr> = s1" for st x
    using assms(1) by (auto simp: s1_def takes_over_def sysc_def Let_def record_call_def split: if_splits)
  have so: "setsockopt E ha SOL_SOCKET SO_UPDATE_ACCEPT_CONTEXT (V_sock (sockfd nl)) s1 = Some (e_sys E (trace s1) ?o, ?s2)"
    "0 \<le> e_sys E (trace s1) ?o"
    using assms(1,4) 1(1) by (simp_all add: setsockopt_def sysc_def Let_def takes_over_def)
  have n7: "ncbs s7 ha = Some ?n" "ncbs s7 hl = Some nl" using f assms(3,5) by simp_all
  obtain st x where x: "(if fn_GetAcceptExSockaddrs s then (0, s) else sysc E ?i s) = (st, x)" by fastforce
  note cx = c [OF x]
  have nx: "ncbs x = ncbs s" using x by (auto simp: sysc_def Let_def split: if_splits)
  let ?upd = "attr nl AND LINKATTR_TCP_UPDATE_ACCEPT_CONTEXT (e_nis E) = 0"
  have g: "sysc E ?g ?s2 = (e_sys E (trace ?s2) ?g, ?s3)" by (simp only: sysc_def Let_def)
  have n3: "ncbs ?s3 = ncbs s" using 1(1) by simp
  have "tcp_syn_copy E (Some hl) (Some ha) (Some p) s = Some (0, ?s8)"
  proof (cases ?upd)
    case True
    show ?thesis using True assms(3,4,5,6,8,9) cx nx so p n7(1) n7(2) 7(1) n3
      by (simp add: tcp_syn_copy_def x g l_def ra_def inherits_def ncb_post_accepted_def)
  next
    case False
    show ?thesis using False assms(3,4,5,6,8,9) cx nx so p n7(1) n7(2) 7(1) n3
      by (simp add: tcp_syn_copy_def x g l_def ra_def inherits_def ncb_post_accepted_def)
  qed
  moreover have "sockfd ?n = sockfd na" by (simp add: inherits_def)
  then have "requests (trace ?s8) = requests (trace s) @ [I_GetAcceptExSockaddrs p, I_AssociatePort (sockfd na) port]"
    "events (trace ?s8) = events (trace s) @ [EvAccepted hl ha]"
    using 7(3,5) 1(4,5) by (simp_all add: emit_def)
  moreover have "ncbs ?s8 = (ncbs s)(ha \<mapsto> ?n)" "heap ?s8 = heap s" "nextb ?s8 = nextb s"
    using f 1 by (simp_all add: emit_def)
  moreover have "refs ?s8 = refs s" using r1 7(4) by simp
  moreover have "set (trace s) \<subseteq> set (trace s1)" by (auto simp: s1_def)
  then have "set (trace s) \<subseteq> set (trace ?s8)" using 7(2) by (auto simp: only_calls_def emit_def)
  ultimately show ?thesis by blast
qed

lemma accept_one_ok:
  assumes "accommodating E ha" "takes_over E nl na" "ports_ready E s" "ncbs s hl = Some nl" "ncbs s ha = Some na"
    and "hl \<noteq> ha" "hld nl = hl" "nis_callback nl \<noteq> 0" "get_pkt p s = Some k" "wf_heap s"
    and "can_receive cb ha (inherits E nl na)"
  shows "\<exists>q s' port irq m. tcp_accept_one E hl ha p s = Some (0, s')
    \<and> rx_inv E cb ha (inherits E nl na) q [] s' \<and> nextb s \<le> q
    \<and> events (trace s') = events (trace s) @ [EvAccepted hl ha]
    \<and> requests (trace s') = requests (trace s) @ [I_GetAcceptExSockaddrs p, I_AssociatePort (sockfd na) port,
         I_WSARecv (sockfd na) q irq TCP_RECV_BUFFER_SIZE]
    \<and> ncbs s' = (ncbs s)(ha \<mapsto> m) \<and> hld m = ha \<and> refs s' = refs s
    \<and> (\<forall>b < nextb s. heap s' b = heap s b) \<and> nextb s \<le> nextb s' \<and> set (trace s) \<subseteq> set (trace s')"
proof -
  let ?na = "inherits E nl na"
  have c: "hld na = ha" "0 \<le> ha" using assms(11) by (auto simp: can_receive_def inherits_def split: if_splits)
  obtain s1 ra l port where 1: "tcp_syn_copy E (Some hl) (Some ha) (Some p) s = Some (0, s1)"
    "ncbs s1 = (ncbs s)(ha \<mapsto> ?na\<lparr>remote_addr := ra, local_addr := l\<rparr>)" "heap s1 = heap s" "nextb s1 = nextb s"
    "events (trace s1) = events (trace s) @ [EvAccepted hl ha]"
    "requests (trace s1) = requests (trace s) @ [I_GetAcceptExSockaddrs p, I_AssociatePort (sockfd na) port]"
    "refs s1 = refs s" "set (trace s) \<subseteq> set (trace s1)"
    using syn_copy_ok [OF assms(2-6) c assms(7-9)] by blast
  let ?n1 = "?na\<lparr>remote_addr := ra, local_addr := l\<rparr>"
  have n1: "ncbs s1 ha = Some ?n1" "can_receive cb ha ?n1" "wf_heap s1" "sockfd ?n1 = sockfd na" "hld ?n1 = ha"
    using 1 assms(10,11) c by (auto simp: can_receive_def wf_heap_def inherits_def)
  from recv_started [OF assms(1) n1(1-3)] obtain q s2 s3 where 3:
    "allocate_packet E ha kProto_TCP kRecv TCP_RECV_BUFFER_SIZE kVirtualHeap s1 = Some ((0, Some q), s2)"
    "asio_tcp_recv E (Some q) s2 = Some (0, s3)" "receives E cb ha ?n1 q s1 s3" "ncbs s3 = ncbs s1"
    "events (trace s3) = events (trace s1)" "\<forall>b < nextb s1. heap s3 b = heap s1 b" "nextb s1 \<le> nextb s3"
    "set (trace s1) \<subseteq> set (trace s3)" by blast
  have "tcp_accept_one E hl ha p s = Some (0, s3)" using 1(1) n1(1,5) 3(1,2) by (simp add: tcp_accept_one_def)
  moreover have "rx_inv E cb ha ?na q [] s3"
    using 3(3) rx_inv_same [of E cb ha ?n1 q "[]" s3 ?na] by (simp add: receives_def same_link_def)
  moreover obtain irq where "requests (trace s3) = requests (trace s1) @ [I_WSARecv (sockfd na) q irq TCP_RECV_BUFFER_SIZE]"
    using 3(3) n1(4) by (auto simp: receives_def)
  moreover have "nextb s \<le> q" "refs s3 = refs s" using 3(3) 1(4,7) by (auto simp: receives_def)
  moreover have "\<forall>b < nextb s. heap s3 b = heap s b" "nextb s \<le> nextb s3" "set (trace s) \<subseteq> set (trace s3)"
    using 1(3,4,8) 3(6-8) by auto
  ultimately show ?thesis using 1(2,5,6) 3(4,5) n1(5) by auto
qed

text \<open>
  C18. An accepted connection becomes a link of its own: it takes over the attributes and the
  template of the listener when the listener asks for it, gets its addresses and its port, the
  user of the listener hears of it, and then its first receive request is posted: the new link
  is in the state from which every property of its byte stream starts.
\<close>

theorem accept_ready:
  assumes "accommodating E ha" "takes_over E nl na" "ports_ready E s" "ncbs s hl = Some nl" "ncbs s ha = Some na"
    and "hl \<noteq> ha" "hld nl = hl" "nis_callback nl \<noteq> 0" "get_pkt p s = Some k" "wf_heap s"
    and "can_receive cb ha (inherits E nl na)"
  shows "\<exists>q s' port irq m. tcp_accept_one E hl ha p s = Some (0, s')
    \<and> rx_inv E cb ha (inherits E nl na) q [] s' \<and> nextb s \<le> q
    \<and> events (trace s') = events (trace s) @ [EvAccepted hl ha]
    \<and> requests (trace s') = requests (trace s) @ [I_GetAcceptExSockaddrs p, I_AssociatePort (sockfd na) port,
         I_WSARecv (sockfd na) q irq TCP_RECV_BUFFER_SIZE]
    \<and> ncbs s' = (ncbs s)(ha \<mapsto> m) \<and> refs s' = refs s"
  using accept_one_ok [OF assms] by blast

text \<open>Link 8 was accepted for the listener 7, whose template it inherits.\<close>

definition w_listener :: ncb_t where
  "w_listener = w_ncb\<lparr>attr := 4\<rparr>"

definition w_accepted :: ncb_t where
  "w_accepted = ncb_zero\<lparr>hld := 8, sockfd := 10, proto_type := kProto_TCP, nis_callback := 1\<rparr>"

definition w_accepting :: st where
  "w_accepting = w_connecting\<lparr>ncbs := [7 \<mapsto> w_listener, 8 \<mapsto> w_accepted],
     epos := Some [\<lparr>epfd = 100, actived = True, thread = 1, load_cnt = 0\<rparr>], divisions := 1\<rparr>"

definition w_attach :: env where
  "w_attach = w_env\<lparr>e_sys := (\<lambda>t c. case c of Io (I_AssociatePort sk p) \<Rightarrow> p | _ \<Rightarrow> w_sys t c)\<rparr>"

lemma accept_ready_witness:
  "\<exists>q s'. tcp_accept_one w_attach 7 8 0 w_accepting = Some (0, s')
    \<and> rx_inv w_attach 4 8 (w_accepted\<lparr>attr := 4, tcp_tst := tcp_tst w_ncb\<rparr>) q [] s' \<and> events (trace s') = [EvAccepted 7 8]"
proof -
  have i: "inherits w_attach w_listener w_accepted = w_accepted\<lparr>attr := 4, tcp_tst := tcp_tst w_ncb\<rparr>"
    by (simp add: inherits_def w_listener_def w_attach_def w_env_def w_nis_def)
  have "accommodating w_attach 8"
    by (simp add: accommodating_def serving_def receiving_def allocating_def mallocs_def w_attach_def w_env_def w_sys_def)
  moreover have "takes_over w_attach w_listener w_accepted" "ports_ready w_attach w_accepting"
    by (simp_all add: takes_over_def ports_ready_def w_accepting_def w_attach_def w_env_def w_sys_def)
  moreover have "ncbs w_accepting 7 = Some w_listener" "ncbs w_accepting 8 = Some w_accepted"
    "hld w_listener = 7" "nis_callback w_listener \<noteq> 0" "wf_heap w_accepting" "trace w_accepting = []"
    by (simp_all add: w_accepting_def w_connecting_def w_listener_def w_st_def w_ncb_def ncb_zero_def wf_heap_def)
  moreover have "get_pkt 0 w_accepting = Some (packet_init 7 kProto_TCP kConnect 0 kNoAccess Null)"
    by (simp add: get_pkt_def w_accepting_def w_connecting_def w_st_def)
  moreover have "can_receive 4 8 (inherits w_attach w_listener w_accepted)"
    unfolding i by (simp add: can_receive_def w_accepted_def w_ncb_def ncb_zero_def BUF_value)
  ultimately show ?thesis using accept_ready [of w_attach 8 w_listener w_accepted w_accepting 7 0 _ 4] i by fastforce
qed

end
