(* ===== verification/Listen_Props.thy ===== *)
theory Listen_Props
  imports Conn_Props
begin

text \<open>
  The listening side as a whole: \<open>tcp_syn\<close> makes a link for the next connection and posts an
  accept request for it, \<open>tcp_listen\<close> posts as many as it was asked for, and the completion of
  one hands the connection over and posts the next.
\<close>

subsection \<open>What the listening side needs of the platform\<close>

text \<open>
  The object manager keeps the objects alive and gives out each handle once, memory and sockets
  can be had, and the system takes accept requests on \<open>sk\<close> (at once or as pending).
\<close>

definition offering :: "env \<Rightarrow> bool" where
  "offering E \<longleftrightarrow> (\<forall>h. steady E h) \<and> allocating E
     \<and> (\<forall>t. 0 \<le> e_sys E t C_objallo \<and> Call C_objallo (e_sys E t C_objallo) \<notin> set t
        \<and> word_of_int (e_sys E t (C_WSASocket SOCK_STREAM IPPROTO_TCP)) \<noteq> INVALID_SOCKET)"

definition accepts :: "env \<Rightarrow> sock \<Rightarrow> bool" where
  "accepts E sk \<longleftrightarrow> (\<forall>t. 0 \<le> e_sys E t (C_WSAIoctl sk IO_AcceptEx))
     \<and> ((\<forall>t fd p. e_sys E t (C_AcceptEx sk fd p) \<noteq> 0) \<or> (\<forall>t. e_sys E t C_WSAGetLastError = ERROR_IO_PENDING))"

text \<open>The object manager gave out the handle \<open>h\<close>.\<close>

definition given :: "handle \<Rightarrow> st \<Rightarrow> bool" where
  "given h s \<longleftrightarrow> Call C_objallo h \<in> set (trace s)"

text \<open>Between two states only the history grew, by calls without a view outside.\<close>

definition quiet :: "st \<Rightarrow> st \<Rightarrow> bool" where
  "quiet s s' \<longleftrightarrow> set (trace s) \<subseteq> set (trace s') \<and> events (trace s') = events (trace s) \<and> refs s' = refs s"

lemma quiet_refl [simp]: "quiet s s"
  by (simp add: quiet_def)

lemma quiet_trans: "quiet s t \<Longrightarrow> quiet t u \<Longrightarrow> quiet s u"
  by (auto simp: quiet_def)

lemma quiet_given: "quiet s s' \<Longrightarrow> given h s \<Longrightarrow> given h s'"
  by (auto simp: quiet_def given_def)

lemma heap_packet_alloc:
  assumes "allocating E" "0 \<le> h" "0 < n" "n < 2 ^ 31"
  shows "\<exists>s' buf. allocate_packet E h proto ty n kVirtualHeap s = Some ((0, Some (nextb s)), s')
    \<and> heap s' = (heap s)(Suc (nextb s) \<mapsto> Bytes Crt buf,
        nextb s \<mapsto> Pkt (packet_init h proto ty n kVirtualHeap (Ptr (Suc (nextb s)) 0)))
    \<and> int (length buf) = n \<and> ncbs s' = ncbs s \<and> nextb s' = Suc (Suc (nextb s))
    \<and> requests (trace s') = requests (trace s) \<and> quiet s s'"
  using assms
  by (simp add: allocate_packet_def malloc_new_def sysc_def allocating_def alloc_obj_def Let_def
      packet_buffer_def malloc_ok get_pkt_heap_upd fun_upd_twist quiet_def refs_def fun_eq_iff subset_iff)

subsection \<open>One accept request\<close>

text \<open>A link for a connection that is still to come: a socket and an empty queue, no address.\<close>

definition incoming :: "handle \<Rightarrow> fptr \<Rightarrow> sock \<Rightarrow> ncb_t" where
  "incoming h cb fd = ncb_zero\<lparr>sockfd := fd, proto_type := kProto_TCP, nis_callback := cb, hld := h,
     tcp_sender_cache_head := Some [], tcp_sender_locker := Some 0\<rparr>"

lemma incoming_object:
  assumes "offering E"
  shows "\<exists>h fd s'. tcp_allocate_object E \<lparr>ip = 0, port = 0, callback = cb, is_remote = True\<rparr> s = Some (h, s')
    \<and> 0 \<le> h \<and> \<not> given h s \<and> given h s' \<and> fd \<noteq> INVALID_SOCKET \<and> ncbs s' = (ncbs s)(h \<mapsto> incoming h cb fd)
    \<and> heap s' = heap s \<and> nextb s' = nextb s \<and> requests (trace s') = requests (trace s) \<and> quiet s s'"
proof -
  let ?h = "e_sys E (trace s) C_objallo"
  have o: "steady E ?h" "0 \<le> ?h" "Call C_objallo ?h \<notin> set (trace s)"
    "\<And>t. word_of_int (e_sys E t (C_WSASocket SOCK_STREAM IPPROTO_TCP)) \<noteq> INVALID_SOCKET"
    using assms by (auto simp: offering_def)
  then show ?thesis
    by (simp add: tcp_allocate_object_def objallo_def objref_def steady_def tcp_entry_def tcp_entry_body_def ncb_init_def
        so_create_def sysc_def Let_def InitializeCriticalSection_def objdefr_def incoming_def given_def quiet_def
        refs_def fun_eq_iff ncb_zero_def subset_iff)
qed

lemma accept_posted:
  assumes "offering E" "accepts E (sockfd nl)" "ncbs s hl = Some nl" "hld nl = hl"
    and "get_pkt p s = Some k" "link k = hl" "accepted_link k = h" "ncbs s h = Some nh" "hld nh = h"
  shows "\<exists>s'. asio_tcp_accept E (Some p) s = Some (0, s') \<and> same_store s s' \<and> quiet s s'
    \<and> requests (trace s') = requests (trace s) @ [I_AcceptEx (sockfd nl) (sockfd nh) p]"
proof -
  have S: "steady E x" for x using assms(1) by (simp add: offering_def)
  have a: "(\<forall>t fd p. e_sys E t (C_AcceptEx (sockfd nl) fd p) \<noteq> 0) \<or> (\<forall>t. e_sys E t C_WSAGetLastError = ERROR_IO_PENDING)"
    "\<And>t. \<not> e_sys E t (C_WSAIoctl (sockfd nl) IO_AcceptEx) < 0"
    using assms(2) by (auto simp: accepts_def not_less)
  obtain r where 1: "objrefr E hl s = (Some hl, record_call (C_objrefr hl) r s)" "r \<noteq> 0"
    using S [of hl] assms(3) by (auto simp: steady_def objref_def)
  let ?s1 = "record_call (C_objrefr hl) r s"
  let ?c = "C_WSAIoctl (sockfd nl) IO_AcceptEx"
  let ?s2 = "record_call ?c (e_sys E (trace ?s1) ?c) ?s1"
  obtain r' where 2: "objrefr E h ?s2 = (Some h, record_call (C_objrefr h) r' ?s2)" "r' \<noteq> 0"
    using S [of h] assms(8) by (auto simp: steady_def objref_def)
  from a(1) show ?thesis
    by (elim disjE) (use a(2) 1 2 assms(3-) in \<open>simp_all add: asio_tcp_accept_def sysc_def Let_def pending_retval_def
      objdefr_ncb_def steady_objdefr [OF S] quiet_def refs_def fun_eq_iff subset_iff\<close>)
qed

text \<open>Nothing that existed in \<open>s\<close> was changed: memory, and the links whose handles were out.\<close>

definition keeps :: "st \<Rightarrow> st \<Rightarrow> bool" where
  "keeps s s' \<longleftrightarrow> nextb s \<le> nextb s' \<and> (\<forall>b < nextb s. heap s' b = heap s b) \<and> (\<forall>h. given h s \<longrightarrow> ncbs s' h = ncbs s h)
     \<and> set (trace s) \<subseteq> set (trace s')"

lemma keeps_trans: "keeps s t \<Longrightarrow> keeps t u \<Longrightarrow> keeps s u"
  by (auto simp: keeps_def given_def)

lemma keeps_record [simp]: "keeps s s' \<Longrightarrow> keeps s (record_call c r s')"
  by (auto simp: keeps_def)

lemma keeps_given: "keeps s s' \<Longrightarrow> given h s \<Longrightarrow> given h s'"
  by (auto simp: keeps_def given_def)

text \<open>The packet \<open>q\<close> waits for a connection to the listener \<open>hl\<close>, which the link \<open>h\<close> will be.\<close>

definition waits :: "handle \<Rightarrow> fptr \<Rightarrow> nat \<Rightarrow> handle \<Rightarrow> sock \<Rightarrow> st \<Rightarrow> bool" where
  "waits hl cb q h fd s \<longleftrightarrow> ncbs s h = Some (incoming h cb fd) \<and> given h s
     \<and> (\<exists>k. get_pkt q s = Some k \<and> pkt_kind k = kSyn \<and> pkt_proto k = kProto_TCP \<and> link k = hl \<and> accepted_link k = h)"

lemma syn_posts:
  assumes "offering E" "accepts E (sockfd nl)" "ncbs s hl = Some nl" "hld nl = hl" "0 \<le> hl" "given hl s"
  shows "\<exists>q h fd s'. tcp_syn E (Some hl) s = Some (0, s') \<and> waits hl (nis_callback nl) q h fd s' \<and> \<not> given h s
    \<and> requests (trace s') = requests (trace s) @ [I_AcceptEx (sockfd nl) fd q] \<and> quiet s s' \<and> keeps s s'
    \<and> q = nextb s \<and> nextb s' = Suc (Suc q) \<and> (wf_heap s \<longrightarrow> wf_heap s')"
proof -
  let ?q = "nextb s"
  have A: "allocating E" using assms(1) by (simp add: offering_def)
  obtain s1 buf where 1: "allocate_packet E hl kProto_TCP kSyn TCP_ACCEPT_EXTENSION_SIZE kVirtualHeap s = Some ((0, Some ?q), s1)"
    "heap s1 = (heap s)(Suc ?q \<mapsto> Bytes Crt buf,
       ?q \<mapsto> Pkt (packet_init hl kProto_TCP kSyn TCP_ACCEPT_EXTENSION_SIZE kVirtualHeap (Ptr (Suc ?q) 0)))"
    "ncbs s1 = ncbs s" "nextb s1 = Suc (Suc ?q)" "requests (trace s1) = requests (trace s)" "quiet s s1"
    using heap_packet_alloc [OF A assms(5), of TCP_ACCEPT_EXTENSION_SIZE kProto_TCP kSyn s]
    by (auto simp: TCP_ACCEPT_EXTENSION_SIZE_def)
  from incoming_object [OF assms(1), of "nis_callback nl" s1] obtain h fd s2 where
    2: "tcp_allocate_object E \<lparr>ip = 0, port = 0, callback = nis_callback nl, is_remote = True\<rparr> s1 = Some (h, s2)"
    "0 \<le> h" "\<not> given h s1" "given h s2" "ncbs s2 = (ncbs s1)(h \<mapsto> incoming h (nis_callback nl) fd)"
    "heap s2 = heap s1" "nextb s2 = nextb s1" "requests (trace s2) = requests (trace s1)" "quiet s1 s2" by blast
  have ne: "h \<noteq> hl" "\<not> given h s" using 1(6) 2(3) assms(6) quiet_given by blast+
  let ?k = "(packet_init hl kProto_TCP kSyn TCP_ACCEPT_EXTENSION_SIZE kVirtualHeap (Ptr (Suc ?q) 0))\<lparr>accepted_link := h\<rparr>"
  let ?s3 = "s2\<lparr>heap := (heap s2)(?q \<mapsto> Pkt ?k)\<rparr>"
  have k: "get_pkt ?q s2 = Some (packet_init hl kProto_TCP kSyn TCP_ACCEPT_EXTENSION_SIZE kVirtualHeap (Ptr (Suc ?q) 0))"
    using 1(2) 2(6) by (simp add: get_pkt_def)
  have "link ?k = hl" by (simp add: packet_init_def)
  from accept_posted [OF assms(1,2) _ assms(4) _ this, of ?s3 ?q h "incoming h (nis_callback nl) fd"] obtain s4 where
    4: "asio_tcp_accept E (Some ?q) ?s3 = Some (0, s4)" "same_store ?s3 s4" "quiet ?s3 s4"
    "requests (trace s4) = requests (trace ?s3) @ [I_AcceptEx (sockfd nl) fd ?q]"
    using assms(3) ne(1) 1(3) 2(5) by (auto simp: incoming_def)
  have "tcp_syn_loop E hl ?q TCP_SYN_REQ_TIMES s1 = Some (True, s4)"
    using 1(3) 2(1,2) assms(3) k 4(1) by (subst tcp_syn_loop.simps) simp
  then have t: "tcp_syn E (Some hl) s = Some (0, s4)" using assms(3,4) 1(1) by (simp add: tcp_syn_def del: tcp_syn_loop.simps)
  have q: "quiet s s4" using 1(6) 2(9) 4(3) by (auto simp: quiet_def refs_def fun_eq_iff)
  have "given h s4" using 2(4) 4(3) by (auto simp: given_def quiet_def)
  then have w: "waits hl (nis_callback nl) ?q h fd s4"
    using 4(2) 2(5) by (simp add: waits_def same_store_def get_pkt_def packet_init_def)
  have "ncbs s4 = (ncbs s)(h \<mapsto> incoming h (nis_callback nl) fd)" "nextb s4 = Suc (Suc ?q)"
    "\<forall>b < nextb s. heap s4 b = heap s b" "wf_heap s \<longrightarrow> wf_heap s4"
    using 1(2-4) 2(5-7) 4(2) by (simp_all add: same_store_def wf_heap_def)
  then have "keeps s s4" using q ne(2) by (auto simp: keeps_def quiet_def)
  moreover have "requests (trace s4) = requests (trace s) @ [I_AcceptEx (sockfd nl) fd ?q]" using 1(5) 2(8) 4(4) by simp
  ultimately show ?thesis using t w ne(2) q \<open>nextb s4 = Suc (Suc ?q)\<close> \<open>wf_heap s \<longrightarrow> wf_heap s4\<close> by blast
qed

subsection \<open>Listening\<close>

lemma waits_keeps: "waits hl cb q h fd s \<Longrightarrow> keeps s s' \<Longrightarrow> q < nextb s \<Longrightarrow> waits hl cb q h fd s'"
  by (auto simp: waits_def keeps_def given_def get_pkt_def)

lemma rx_inv_keeps:
  assumes "rx_inv E cb h n p xs s" "keeps s s'" "given h s" "wf_heap s'"
  shows "rx_inv E cb h n p xs s'"
proof -
  have "wf_heap s" using assms(1) by (auto simp: rx_inv_def rx_link_def)
  then have f: "heap s' b = Some x" if "heap s b = Some x" for b x
    using that assms(2) wf_heap_fresh by (force simp: keeps_def)
  have g: "get_pkt p s' = Some k" if "get_pkt p s = Some k" for k
    using f [OF get_pkt_heapD [OF that]] by (simp add: get_pkt_def)
  have "ncbs s' h = ncbs s h" using assms(2,3) by (simp add: keeps_def)
  then have "rx_link cb h p k m b buf s \<Longrightarrow> rx_link cb h p k m b buf s'" for k m b buf
    using assms(4) by (auto simp: rx_link_def intro: f g)
  moreover have "rx_large E cb k m b xs s \<Longrightarrow> rx_large E cb k m b xs s'" for k m b
    unfolding rx_large_def using f by blast
  ultimately show ?thesis using assms(1) unfolding rx_inv_def by blast
qed

text \<open>The accept requests \<open>xs\<close>: packets and links of their own, all of them waiting.\<close>

definition all_wait :: "handle \<Rightarrow> fptr \<Rightarrow> (nat \<times> handle \<times> sock) list \<Rightarrow> st \<Rightarrow> st \<Rightarrow> bool" where
  "all_wait hl cb xs s s' \<longleftrightarrow> distinct (map fst xs) \<and> distinct (map (fst \<circ> snd) xs)
     \<and> (\<forall>(q, h, fd) \<in> set xs. nextb s \<le> q \<and> q < nextb s' \<and> \<not> given h s \<and> waits hl cb q h fd s')"

lemma all_wait_Cons:
  assumes "waits hl cb q h fd t" "keeps s t" "q = nextb s" "nextb t = Suc (Suc q)" "\<not> given h s"
    and "all_wait hl cb xs t u" "keeps t u"
  shows "all_wait hl cb ((q, h, fd) # xs) s u"
proof -
  have t: "given h t" "q < nextb t" "q < nextb u" using assms(1,3,4,7) by (auto simp: waits_def keeps_def)
  with waits_keeps [OF assms(1,7)] have "waits hl cb q h fd u" by simp
  moreover have "\<not> given x s" if "\<not> given x t" for x using that keeps_given [OF assms(2)] by blast
  moreover have "nextb s \<le> x \<and> x \<noteq> q" if "nextb t \<le> x" for x using that assms(3,4) by simp
  moreover have "distinct (map fst xs)" "distinct (map (fst \<circ> snd) xs)"
    "\<forall>(q, h, fd) \<in> set xs. nextb t \<le> q \<and> q < nextb u \<and> \<not> given h t \<and> waits hl cb q h fd u"
    using assms(6) by (simp_all add: all_wait_def)
  ultimately show ?thesis using t assms(3,5) unfolding all_wait_def by fastforce
qed

lemma listen_loop_posts:
  assumes "offering E" "accepts E (sockfd nl)" "hld nl = hl" "0 \<le> hl"
    and "ncbs s hl = Some nl" "given hl s"
  shows "\<exists>xs s'. tcp_listen_loop E hl m s = Some (0, s') \<and> length xs = Suc m \<and> all_wait hl (nis_callback nl) xs s s'
    \<and> requests (trace s') = requests (trace s) @ map (\<lambda>(q, h, fd). I_AcceptEx (sockfd nl) fd q) xs
    \<and> keeps s s' \<and> quiet s s'"
  using assms(5,6)
proof (induction m arbitrary: s)
  case (0 s)
  from syn_posts [OF assms(1,2) 0(1) assms(3,4) 0(2)] obtain q h fd s1 where
    1: "tcp_syn E (Some hl) s = Some (0, s1)" "waits hl (nis_callback nl) q h fd s1" "\<not> given h s" "quiet s s1"
    "requests (trace s1) = requests (trace s) @ [I_AcceptEx (sockfd nl) fd q]" "q = nextb s" "nextb s1 = Suc (Suc q)"
    and k: "keeps s s1" by blast
  show ?case using 1 k by (intro exI [of _ "[(q, h, fd)]"] exI [of _ s1]) (simp add: all_wait_def)
next
  case (Suc m s)
  from syn_posts [OF assms(1,2) Suc.prems(1) assms(3,4) Suc.prems(2)] obtain q h fd s1 where
    1: "tcp_syn E (Some hl) s = Some (0, s1)" "waits hl (nis_callback nl) q h fd s1" "\<not> given h s" "quiet s s1"
    "requests (trace s1) = requests (trace s) @ [I_AcceptEx (sockfd nl) fd q]" "q = nextb s" "nextb s1 = Suc (Suc q)"
    and k: "keeps s s1" by blast
  have "ncbs s1 hl = Some nl" "given hl s1" using k Suc.prems keeps_given [OF k] by (simp_all add: keeps_def)
  from Suc.IH [OF this] obtain xs s2 where
    2: "tcp_listen_loop E hl m s1 = Some (0, s2)" "length xs = Suc m" "all_wait hl (nis_callback nl) xs s1 s2"
    "requests (trace s2) = requests (trace s1) @ map (\<lambda>(q, h, fd). I_AcceptEx (sockfd nl) fd q) xs"
    "keeps s1 s2" "quiet s1 s2" by blast
  have "all_wait hl (nis_callback nl) ((q, h, fd) # xs) s s2" by (rule all_wait_Cons [OF 1(2) k 1(6,7,3) 2(3,5)])
  with 1 2 keeps_trans [OF k 2(5)] quiet_trans [OF 1(4) 2(6)] show ?case
    by (intro exI [of _ "(q, h, fd) # xs"] exI [of _ s2]) simp
qed

text \<open>
  C19. \<open>tcp_listen\<close> puts the socket into the listening state and posts as many accept requests as
  it was asked for (5 when asked for 0, and one at least), each with a packet and a link of its
  own that wait for a connection; it keeps no reference.
\<close>

theorem tcp_listen_posts:
  assumes "offering E" "accepts E (sockfd nl)" "ncbs s hl = Some nl" "hld nl = hl" "proto_type nl = kProto_TCP"
    and "0 \<le> hl" "given hl s" "n = (if blk = 0 then 5 else blk)" "\<forall>t. e_sys E t (C_listen (sockfd nl) n) = 0"
  shows "\<exists>xs s'. tcp_listen E hl blk s = Some (0, s') \<and> length xs = nat (max 1 n)
    \<and> all_wait hl (nis_callback nl) xs s s' \<and> Call (C_listen (sockfd nl) n) 0 \<in> set (trace s')
    \<and> requests (trace s') = requests (trace s) @ map (\<lambda>(q, h, fd). I_AcceptEx (sockfd nl) fd q) xs
    \<and> events (trace s') = events (trace s) \<and> refs s' = refs s"
proof -
  have S: "steady E hl" using assms(1) by (simp add: offering_def)
  obtain r where r: "tcprefr E hl s = Some ((0, Some hl), record_call (C_objrefr hl) r s)" "r \<noteq> 0"
    using S assms(3,5,6) by (auto simp: tcprefr_def steady_def objref_def)
  let ?s2 = "record_call (C_listen (sockfd nl) n) 0 (record_call (C_objrefr hl) r s)"
  have "ncbs ?s2 hl = Some nl" "given hl ?s2" using assms(3,7) by (simp_all add: given_def)
  from listen_loop_posts [OF assms(1,2,4,6) this, of "nat (n - 1)"] obtain xs s3 where
    3: "tcp_listen_loop E hl (nat (n - 1)) ?s2 = Some (0, s3)" "length xs = Suc (nat (n - 1))"
    "all_wait hl (nis_callback nl) xs ?s2 s3" "keeps ?s2 s3" "quiet ?s2 s3"
    "requests (trace s3) = requests (trace ?s2) @ map (\<lambda>(q, h, fd). I_AcceptEx (sockfd nl) fd q) xs" by blast
  let ?s4 = "record_call (C_objdefr hl) 0 s3"
  have n3: "ncbs s3 hl = Some nl" using 3(4) assms(3,7) by (simp add: keeps_def given_def)
  have n: "(if blk = 0 then TCP_LISTEN_BLOCK_COUNT else blk) = n" using assms(8) by (simp add: TCP_LISTEN_BLOCK_COUNT_def)
  have "tcp_listen E hl blk s = Some (0, ?s4)"
    using r(1) assms(3,4,9) 3(1) n3 n
    by (simp add: tcp_listen_def sysc_def Let_def objdefr_ncb_def steady_objdefr [OF S] del: tcp_listen_loop.simps)
  moreover have "length xs = nat (max 1 n)" using 3(2) by (simp add: max_def) arith
  moreover have "all_wait hl (nis_callback nl) xs s ?s4"
    using 3(3) by (auto simp: all_wait_def waits_def given_def)
  moreover have "Call (C_listen (sockfd nl) n) 0 \<in> set (trace ?s4)" using 3(4) by (auto simp: keeps_def)
  moreover have "refs ?s4 = refs s" using 3(5) r(2) by (simp add: quiet_def refs_def fun_eq_iff)
  ultimately show ?thesis using 3(5,6) by (intro exI [of _ xs] exI [of _ ?s4]) (simp add: quiet_def)
qed

text \<open>A platform that gives out a new handle each time, and a listener with the handle 7.\<close>

definition w_next :: "act list \<Rightarrow> int" where
  "w_next t = 1 + sum_list (map (\<lambda>a. case a of Call c r \<Rightarrow> \<bar>r\<bar> | Ev e \<Rightarrow> 0) t)"

definition w_offer :: env where
  "w_offer = w_env\<lparr>e_sys := (\<lambda>t c. case c of Obj O_objallo \<Rightarrow> w_next t | Io (I_AssociatePort sk p) \<Rightarrow> p | _ \<Rightarrow> w_sys t c)\<rparr>"

definition w_listening :: st where
  "w_listening = w_tx\<lparr>ncbs := [7 \<mapsto> w_ncb\<lparr>attr := 4\<rparr>], trace := [Call C_objallo 7]\<rparr>"

lemma w_next_fresh: "0 \<le> w_next t \<and> Call c (w_next t) \<notin> set t"
proof -
  let ?f = "\<lambda>a. case a of Call c r \<Rightarrow> \<bar>r\<bar> | Ev e \<Rightarrow> (0 :: int)"
  have nn: "0 \<le> sum_list (map ?f t)" by (rule sum_list_nonneg) (auto split: act.splits)
  have "r < w_next t" if "Call c r \<in> set t" for r
  proof -
    have "?f (Call c r) \<in> set (map ?f t)" using that by (simp only: set_map) (rule imageI)
    then have "?f (Call c r) \<le> sum_list (map ?f t)" by (intro member_le_sum_list) (auto split: act.splits)
    then show ?thesis by (simp add: w_next_def)
  qed
  then show ?thesis using nn by (force simp: w_next_def)
qed

lemma w_offering: "offering w_offer" "accepts w_offer 9" "steady w_offer 8"
  using w_next_fresh
  by (simp_all add: offering_def accepts_def steady_def allocating_def mallocs_def w_offer_def w_env_def w_sys_def INVALID_SOCKET_def)

lemma tcp_listen_posts_witness:
  "\<exists>xs s'. tcp_listen w_offer 7 0 w_listening = Some (0, s') \<and> length xs = 5
    \<and> all_wait 7 1 xs w_listening s' \<and> requests (trace s') = map (\<lambda>(q, h, fd). I_AcceptEx 9 fd q) xs"
proof -
  let ?n = "w_ncb\<lparr>attr := 4\<rparr>"
  have n: "ncbs w_listening 7 = Some ?n" "hld ?n = 7" "proto_type ?n = kProto_TCP" "given 7 w_listening"
    "sockfd ?n = 9" "nis_callback ?n = 1" "requests (trace w_listening) = []"
    by (simp_all add: w_listening_def w_tx_def w_st_def w_ncb_def ncb_zero_def given_def)
  have "\<forall>t. e_sys w_offer t (C_listen (sockfd ?n) 5) = 0" by (simp add: w_offer_def w_sys_def)
  with tcp_listen_posts [OF w_offering(1) _ n(1-3) _ n(4), of 5 0] w_offering(2) n(5-7) show ?thesis by force
qed

text \<open>The next accept request leaves a link that has started to receive as it is.\<close>

lemma syn_posts_beside:
  assumes "offering E" "accepts E (sockfd nl)" "ncbs s hl = Some nl" "hld nl = hl" "0 \<le> hl" "given hl s"
    and "rx_inv E cb ha n p [] s" "given ha s"
  shows "\<exists>q h fd s'. tcp_syn E (Some hl) s = Some (0, s') \<and> waits hl (nis_callback nl) q h fd s' \<and> \<not> given h s
    \<and> requests (trace s') = requests (trace s) @ [I_AcceptEx (sockfd nl) fd q] \<and> quiet s s' \<and> keeps s s'
    \<and> rx_inv E cb ha n p [] s' \<and> ncbs s' hl = Some nl"
proof -
  from syn_posts [OF assms(1-6)] obtain q h fd s' where
    1: "tcp_syn E (Some hl) s = Some (0, s')" "waits hl (nis_callback nl) q h fd s'" "\<not> given h s" "quiet s s'"
    "requests (trace s') = requests (trace s) @ [I_AcceptEx (sockfd nl) fd q]" "keeps s s'" "wf_heap s \<longrightarrow> wf_heap s'" by blast
  have "wf_heap s" using assms(7) by (auto simp: rx_inv_def rx_link_def)
  with 1 rx_inv_keeps [OF assms(7) 1(6) assms(8)] have "rx_inv E cb ha n p [] s'" by blast
  moreover have "ncbs s' hl = Some nl" using 1(6) assms(3,6) by (simp add: keeps_def)
  ultimately show ?thesis using 1 by blast
qed

text \<open>
  C20. The completion of an accept request makes the connection a link of the user and keeps the
  listener listening: the link is announced, gets its first receive request and is in the state
  from which the properties of its byte stream start, and a new accept request with a new link
  waits for the next connection. The packet of the completed request stays allocated.
\<close>

theorem listener_rearms:
  assumes "offering E" "accepts E (sockfd nl)" "accommodating E ha" "ports_ready E s" "wf_heap s"
    and "ncbs s hl = Some nl" "hld nl = hl" "proto_type nl = kProto_TCP" "0 \<le> hl" "given hl s" "nis_callback nl \<noteq> 0"
    and "waits hl (nis_callback nl) p ha fd s" "ha \<noteq> hl" "takes_over E nl (incoming ha (nis_callback nl) fd)"
    and "can_receive cb ha (inherits E nl (incoming ha (nis_callback nl) fd))" "0 \<le> status"
  shows "\<exists>q q' h' fd' port irq s'. so_dispatch_io_event E (Some p) m status s = Some s'
    \<and> rx_inv E cb ha (inherits E nl (incoming ha (nis_callback nl) fd)) q [] s'
    \<and> waits hl (nis_callback nl) q' h' fd' s' \<and> \<not> given h' s \<and> ncbs s' hl = Some nl
    \<and> events (trace s') = events (trace s) @ [EvAccepted hl ha]
    \<and> requests (trace s') = requests (trace s) @ [I_GetAcceptExSockaddrs p, I_AssociatePort fd port,
         I_WSARecv fd q irq TCP_RECV_BUFFER_SIZE, I_AcceptEx (sockfd nl) fd' q']
    \<and> heap s' p \<noteq> None \<and> (\<forall>b < nextb s. b \<noteq> p \<longrightarrow> heap s' b = heap s b) \<and> refs s' = refs s"
proof -
  let ?na = "incoming ha (nis_callback nl) fd"
  have S: "steady E x" for x using assms(1) by (simp add: offering_def)
  obtain k where k: "get_pkt p s = Some k" "pkt_kind k = kSyn" "pkt_proto k = kProto_TCP" "link k = hl" "accepted_link k = ha"
    and na: "ncbs s ha = Some ?na" "given ha s" using assms(12) by (auto simp: waits_def)
  let ?k1 = "k\<lparr>size_for_translation := m\<rparr>"
  let ?s1 = "s\<lparr>heap := (heap s)(p \<mapsto> Pkt ?k1)\<rparr>"
  have p: "p < nextb s" using wf_heap_fresh [OF assms(5) get_pkt_heapD [OF k(1)]] .
  obtain r where r: "tcprefr E hl ?s1 = Some ((0, Some hl), record_call (C_objrefr hl) r ?s1)" "r \<noteq> 0"
    using S [of hl] assms(6,8,9) by (auto simp: tcprefr_def steady_def objref_def)
  let ?s2 = "record_call (C_objrefr hl) r ?s1"
  have c: "proto_type ?na = kProto_TCP" "hld ?na = ha" "0 \<le> ha" "sockfd ?na = fd"
    using assms(15) by (auto simp: can_receive_def incoming_def)
  obtain r' where r': "tcprefr E ha ?s2 = Some ((0, Some ha), record_call (C_objrefr ha) r' ?s2)" "r' \<noteq> 0"
    using S [of ha] na(1) c by (auto simp: tcprefr_def steady_def objref_def)
  let ?s3 = "record_call (C_objrefr ha) r' ?s2"
  have "ports_ready E ?s3" "wf_heap ?s3" "get_pkt p ?s3 = Some ?k1" "ncbs ?s3 hl = Some nl" "ncbs ?s3 ha = Some ?na"
    using assms(4,5,6) na p by (simp_all add: ports_ready_def record_call_def get_pkt_def wf_heap_def)
  from accept_one_ok [OF assms(3,14) this(1,4,5) _ assms(7,11) this(3,2) assms(15)] assms(13) obtain q s4 port irq n4 where
    4: "tcp_accept_one E hl ha p ?s3 = Some (0, s4)" "rx_inv E cb ha (inherits E nl ?na) q [] s4"
    "events (trace s4) = events (trace ?s3) @ [EvAccepted hl ha]"
    "requests (trace s4) = requests (trace ?s3) @ [I_GetAcceptExSockaddrs p, I_AssociatePort (sockfd ?na) port,
         I_WSARecv (sockfd ?na) q irq TCP_RECV_BUFFER_SIZE]"
    "ncbs s4 = (ncbs ?s3)(ha \<mapsto> n4)" "hld n4 = ha" "refs s4 = refs ?s3"
    "\<forall>b < nextb ?s3. heap s4 b = heap ?s3 b" "nextb ?s3 \<le> nextb s4" "set (trace ?s3) \<subseteq> set (trace s4)" by blast
  let ?s5 = "record_call (C_objdefr ha) 0 s4"
  have g5: "ncbs ?s5 hl = Some nl" "given hl ?s5" "given ha ?s5"
    using 4(5,10) assms(6,10,13) na(2) by (auto simp: given_def)
  have i5: "rx_inv E cb ha (inherits E nl ?na) q [] ?s5" using same_store_rx_inv [of s4 ?s5] 4(2) by simp
  from syn_posts_beside [OF assms(1,2) g5(1) assms(7,9) g5(2) i5 g5(3)] obtain q' h' fd' s6 where
    6: "tcp_syn E (Some hl) ?s5 = Some (0, s6)" "waits hl (nis_callback nl) q' h' fd' s6" "\<not> given h' ?s5" "quiet ?s5 s6"
    "requests (trace s6) = requests (trace ?s5) @ [I_AcceptEx (sockfd nl) fd' q']" "keeps ?s5 s6"
    "rx_inv E cb ha (inherits E nl ?na) q [] s6" "ncbs s6 hl = Some nl" by blast
  let ?s7 = "record_call (C_objdefr hl) 0 s6"
  have "tcp_dispatch_io_syn E (Some p) ?s1 = Some ?s7"
    using r(1) r'(1) k 4(1,5,6) 6(1,8) assms(7)
    by (simp add: tcp_dispatch_io_syn_def get_pkt_def objdefr_ncb_def steady_objdefr [OF S])
  then have run: "so_dispatch_io_event E (Some p) m status s = Some ?s7"
    using k assms(16) by (simp add: so_dispatch_io_event_def tcp_dispatch_io_event_def mod_pkt_def get_pkt_def)
  have inv: "rx_inv E cb ha (inherits E nl ?na) q [] ?s7" using same_store_rx_inv [of s6 ?s7] 6(7) by simp
  have w: "waits hl (nis_callback nl) q' h' fd' ?s7" using 6(2) by (simp add: waits_def given_def)
  have g: "\<not> given h' s" using 6(3) 4(10) by (auto simp: given_def)
  have "heap ?s7 b = (if b = p then Some (Pkt ?k1) else heap s b)" if "b < nextb s" for b
    using that 4(8,9) 6(6) by (simp add: keeps_def)
  with p have h: "heap ?s7 p \<noteq> None" "\<forall>b < nextb s. b \<noteq> p \<longrightarrow> heap ?s7 b = heap s b" by simp_all
  have "refs ?s7 = refs s"
    using 4(7) 6(4) r(2) r'(2) assms(13) by (simp add: quiet_def refs_def fun_eq_iff)
  moreover have "events (trace ?s7) = events (trace s) @ [EvAccepted hl ha]" using 4(3) 6(4) by (simp add: quiet_def)
  moreover have "requests (trace ?s7) = requests (trace s) @ [I_GetAcceptExSockaddrs p, I_AssociatePort fd port,
         I_WSARecv fd q irq TCP_RECV_BUFFER_SIZE, I_AcceptEx (sockfd nl) fd' q']" using 4(4) 6(5) c(4) by simp
  moreover have "ncbs ?s7 hl = Some nl" using 6(8) by simp
  ultimately show ?thesis using run inv w g h by blast
qed

text \<open>Link 8 with the socket 10 waits for a connection to the listener 7.\<close>

definition w_syn :: st where
  "w_syn = w_listening\<lparr>heap := [0 \<mapsto> Pkt ((packet_init 7 kProto_TCP kSyn 1024 kVirtualHeap (Ptr 1 0))\<lparr>accepted_link := 8\<rparr>),
       1 \<mapsto> Bytes Crt (replicate 1024 0)],
     nextb := 2, ncbs := [7 \<mapsto> w_ncb\<lparr>attr := 4\<rparr>, 8 \<mapsto> incoming 8 1 10], trace := [Call C_objallo 7, Call C_objallo 8],
     epos := Some [\<lparr>epfd = 100, actived = True, thread = 1, load_cnt = 0\<rparr>], divisions := 1\<rparr>"

lemma listener_rearms_witness:
  "\<exists>q q' h' fd' s'. so_dispatch_io_event w_offer (Some 0) 0 0 w_syn = Some s'
    \<and> rx_inv w_offer 4 8 ((incoming 8 1 10)\<lparr>attr := 4, tcp_tst := tcp_tst w_ncb\<rparr>) q [] s'
    \<and> waits 7 1 q' h' fd' s' \<and> events (trace s') = [EvAccepted 7 8]"
proof -
  let ?n = "w_ncb\<lparr>attr := 4\<rparr>" and ?i = "incoming 8 1 10"
  have i: "inherits w_offer ?n ?i = ?i\<lparr>attr := 4, tcp_tst := tcp_tst w_ncb\<rparr>"
    by (simp add: inherits_def w_offer_def w_env_def w_nis_def)
  have n: "ncbs w_syn 7 = Some ?n" "hld ?n = 7" "proto_type ?n = kProto_TCP" "given 7 w_syn" "sockfd ?n = 9"
    "nis_callback ?n = 1" "wf_heap w_syn" "events (trace w_syn) = []" "waits 7 1 0 8 10 w_syn"
    by (simp_all add: w_syn_def w_listening_def w_tx_def w_st_def w_ncb_def ncb_zero_def given_def wf_heap_def waits_def
        get_pkt_def packet_init_def)
  have e: "accommodating w_offer 8" "ports_ready w_offer w_syn" "takes_over w_offer ?n (incoming 8 (nis_callback ?n) 10)"
    by (simp_all add: accommodating_def serving_def receiving_def allocating_def mallocs_def ports_ready_def takes_over_def
        w_syn_def w_offer_def w_env_def w_sys_def incoming_def)
  have c: "can_receive 4 8 (inherits w_offer ?n (incoming 8 (nis_callback ?n) 10))"
    unfolding n(6) i by (simp add: can_receive_def incoming_def ncb_zero_def w_ncb_def BUF_value)
  have a: "accepts w_offer (sockfd ?n)" "nis_callback ?n \<noteq> 0" "waits 7 (nis_callback ?n) 0 8 10 w_syn"
    "(0 :: int) \<le> 7" "(0 :: int) \<le> 0" "(8 :: int) \<noteq> 7"
    using w_offering(2) n(5,6,9) by simp_all
  from listener_rearms [OF w_offering(1) a(1) e(1,2) n(7,1-3) a(4) n(4) a(2,3,6) e(3) c a(5), of 0]
  show ?thesis unfolding n(6,8) i append_Nil by blast
qed

end
