(* ===== verification/Tcp_Raw.thy ===== *)
theory Tcp_Raw
  imports Tcp_Stream_Props
begin

text \<open>
  Receiving on a link without a protocol template (\<open>tst_cb = 0\<close>): the bytes are not taken apart,
  every completion is handed to the user as it came.
\<close>

text \<open>The receive request of such a link is with the system, for the whole buffer.\<close>

definition raw_link :: "handle \<Rightarrow> ncb_t \<Rightarrow> nat \<Rightarrow> packet_t \<Rightarrow> nat \<Rightarrow> byte list \<Rightarrow> st \<Rightarrow> bool" where
  "raw_link h n p k b buf s \<longleftrightarrow> get_pkt p s = Some k \<and> ncbs s h = Some n \<and> heap s b = Some (Bytes Crt buf)
     \<and> link k = h \<and> 0 \<le> h \<and> hld n = h \<and> proto_type n = kProto_TCP \<and> nis_callback n \<noteq> 0
     \<and> tst_cb (tcp_tst n) = 0 \<and> lb_data n = Null \<and> ori_buffer k = Ptr b 0 \<and> irp k = Ptr b 0
     \<and> size_for_req k = TCP_RECV_BUFFER_SIZE \<and> analyzed_offset k = 0 \<and> int (length buf) = TCP_RECV_BUFFER_SIZE"

definition raw_inv :: "handle \<Rightarrow> ncb_t \<Rightarrow> nat \<Rightarrow> st \<Rightarrow> bool" where
  "raw_inv h n p s \<longleftrightarrow> (\<exists>k b buf. raw_link h n p k b buf s)"

lemma raw_arrive:
  assumes "raw_link h n p k b buf s" "c \<noteq> []" "int (length c) \<le> TCP_RECV_BUFFER_SIZE"
  shows "\<exists>s1. rx_arrive p c s = Some s1 \<and> trace s1 = trace s
    \<and> raw_link h n p (k\<lparr>size_for_translation := int (length c)\<rparr>) b (overwrite buf 0 c) s1"
proof -
  have "p \<noteq> b" using assms(1) get_pkt_heapD by (force simp: raw_link_def)
  then show ?thesis using assms
    by (auto simp: raw_link_def rx_arrive_def store_bytes get_pkt_heap_upd get_pkt_heapD)
qed

lemma raw_block:
  assumes "raw_link h n p k b buf s" "size_for_translation k = int (length c)" "c \<noteq> []" "take (length c) buf = c"
  shows "\<exists>s'. tcp_recv_block E h p s = Some (0, s') \<and> raw_link h n p k b buf s'
    \<and> events (trace s') = events (trace s) @ [EvRecv h (int (length c)) c]
    \<and> requests (trace s') = requests (trace s) \<and> refs s' = refs s"
proof -
  have pb: "p \<noteq> b" using assms(1) get_pkt_heapD by (force simp: raw_link_def)
  have len: "length c \<le> length buf" using assms(4) by (metis length_take min.cobounded2 min_def nat_le_linear)
  then have l: "int (length c) < 2 ^ 31" using assms(1) by (simp add: raw_link_def BUF_value)
  let ?s1 = "emit (EvRecv h (int (length c)) c) s"
  let ?k = "k\<lparr>analyzed_offset := 0, irp := Ptr b 0, size_for_req := TCP_RECV_BUFFER_SIZE\<rparr>"
  let ?s2 = "?s1\<lparr>heap := (heap s)(p \<mapsto> Pkt ?k)\<rparr>"
  have ld: "load (Ptr b 0) (int (length c)) s = Some c"
    using assms len by (simp add: raw_link_def load_bytes)
  have run: "tcp_recv_block E h p s = Some (0, ?s2)"
    using assms l ld
    by (simp add: tcp_recv_block_def ncb_lb_marked_def raw_link_def tcp_recv_parse_def tcp_prase_logic_packet_def
        ncb_post_recvdata_def emit_def get_pkt_def)
  have "?k = k" using assms(1) by (cases k) (simp add: raw_link_def)
  then have "heap ?s2 = heap s" using assms(1) get_pkt_heapD by (auto simp: raw_link_def)
  then have "raw_link h n p k b buf ?s2"
    using assms(1) by (simp add: raw_link_def emit_def get_pkt_def)
  with run show ?thesis by (intro exI [of _ ?s2]) (simp add: emit_def refs_def fun_eq_iff)
qed

lemma raw_completion:
  assumes "raw_link h n p k b buf s" "size_for_translation k = int (length c)" "c \<noteq> []" "take (length c) buf = c"
    and S: "serving E h" and R: "receiving E"
  shows "\<exists>s'. tcp_dispatch_io_recv E (Some p) s = Some s' \<and> raw_link h n p k b buf s'
    \<and> events (trace s') = events (trace s) @ [EvRecv h (int (length c)) c]
    \<and> requests (trace s') = requests (trace s) @ [I_WSARecv (sockfd n) p (Ptr b 0) TCP_RECV_BUFFER_SIZE]
    \<and> refs s' = refs s"
proof -
  have L: "get_pkt p s = Some k" "link k = h" "ncbs s h = Some n" "hld n = h" "0 \<le> h" "proto_type n = kProto_TCP"
    using assms(1) by (simp_all add: raw_link_def)
  let ?r = "e_sys E (trace s) (C_objrefr h)"
  let ?s1 = "record_call (C_objrefr h) ?r s"
  have rf: "tcprefr E (link k) s = Some ((0, Some h), ?s1)" "?r \<noteq> 0"
    using tcprefr_serving [OF S L(3,6,5)] S L(2) by (simp_all add: serving_def)
  have same: "same_store x y \<Longrightarrow> raw_link h n p k b buf x \<Longrightarrow> raw_link h n p k b buf y" for x y
    by (simp add: raw_link_def same_store_def get_pkt_def)
  from raw_block [OF same [OF _ assms(1)] assms(2-4), of ?s1 E] obtain s2 where
    2: "tcp_recv_block E h p ?s1 = Some (0, s2)" "raw_link h n p k b buf s2"
    "events (trace s2) = events (trace ?s1) @ [EvRecv h (int (length c)) c]"
    "requests (trace s2) = requests (trace ?s1)" "refs s2 = refs ?s1" by auto
  then have L2: "get_pkt p s2 = Some k" "ncbs s2 h = Some n" "irp k = Ptr b 0" "size_for_req k = TCP_RECV_BUFFER_SIZE"
    by (simp_all add: raw_link_def)
  from asio_tcp_recv_serving [OF S R L2(1) L(2) L2(2) L(4)] obtain s3 where
    3: "asio_tcp_recv E (Some p) s2 = Some (0, s3)" "same_store s2 s3" "events (trace s3) = events (trace s2)"
    "refs s3 = refs s2" "requests (trace s3) = requests (trace s2) @ [I_WSARecv (sockfd n) p (irp k) (size_for_req k)]"
    by blast
  have n3: "ncbs s3 h = Some n" using 3(2) L2(2) by (simp add: same_store_def)
  have "tcp_dispatch_io_recv E (Some p) s = Some (record_call (C_objdefr h) 0 s3)"
    using L(1,4) rf(1) 2(1) 3(1) n3 assms(2,3) objdefr_serving [OF S]
    by (simp add: tcp_dispatch_io_recv_def objdefr_ncb_def)
  moreover have "raw_link h n p k b buf (record_call (C_objdefr h) 0 s3)"
    using same [OF _ 2(2), of "record_call (C_objdefr h) 0 s3"] 3(2) by simp
  ultimately show ?thesis using 2(3-5) 3(3-5) rf(2) L2(3,4) by simp
qed

text \<open>
  C5. A link without a protocol template hands the stream to the user as it comes: however the
  system cuts it into completions, the pieces put together are the stream, none is empty or
  larger than the receive buffer, and no reference is kept.
\<close>

theorem receive_raw_stream:
  assumes "raw_inv h n p s" "serving E h" "receiving E" "length net \<le> length ws"
  shows "\<exists>s' cs. rx_run E p ws net s = Some ([], s') \<and> raw_inv h n p s' \<and> concat cs = net
    \<and> events (trace s') = events (trace s) @ map (\<lambda>c. EvRecv h (int (length c)) c) cs
    \<and> (\<forall>c \<in> set cs. c \<noteq> [] \<and> int (length c) \<le> TCP_RECV_BUFFER_SIZE) \<and> refs s' = refs s"
  using assms(1,4)
proof (induction ws arbitrary: net s)
  case Nil
  then show ?case by (intro exI [of _ s] exI [of _ "[]"]) simp
next
  case (Cons w ws)
  show ?case
  proof (cases "net = []")
    case True
    with Cons.prems show ?thesis by (intro exI [of _ s] exI [of _ "[]"]) simp
  next
    case False
    from Cons.prems(1) obtain k b buf where L: "raw_link h n p k b buf s" by (auto simp: raw_inv_def)
    define m where "m = min (max 1 w) (nat (size_for_req k))"
    let ?c = "take m net"
    have k: "get_pkt p s = Some k" "size_for_req k = TCP_RECV_BUFFER_SIZE" "length buf = nat TCP_RECV_BUFFER_SIZE"
      using L by (auto simp: raw_link_def BUF_value)
    have m: "1 \<le> m" "int m \<le> TCP_RECV_BUFFER_SIZE" using k(2) by (auto simp: m_def BUF_value)
    then have c: "?c \<noteq> []" "int (length ?c) \<le> TCP_RECV_BUFFER_SIZE" using False by auto
    from raw_arrive [OF L c] obtain s1 where
      1: "rx_arrive p ?c s = Some s1" "trace s1 = trace s"
      "raw_link h n p (k\<lparr>size_for_translation := int (length ?c)\<rparr>) b (overwrite buf 0 ?c) s1" by blast
    have "size_for_translation (k\<lparr>size_for_translation := int (length ?c)\<rparr>) = int (length ?c)" by simp
    from raw_completion [OF 1(3) this c(1) take_overwrite_0 assms(2,3)] obtain s2 where
      2: "tcp_dispatch_io_recv E (Some p) s1 = Some s2" "raw_inv h n p s2"
      "events (trace s2) = events (trace s1) @ [EvRecv h (int (length ?c)) ?c]" "refs s2 = refs s1"
      unfolding raw_inv_def by blast
    have "length (drop m net) \<le> length ws" using Cons.prems(2) m(1) by simp
    from Cons.IH [OF 2(2) this] obtain s3 cs where
      3: "rx_run E p ws (drop m net) s2 = Some ([], s3)" "raw_inv h n p s3" "concat cs = drop m net"
      "events (trace s3) = events (trace s2) @ map (\<lambda>c. EvRecv h (int (length c)) c) cs"
      "\<forall>c \<in> set cs. c \<noteq> [] \<and> int (length c) \<le> TCP_RECV_BUFFER_SIZE" "refs s3 = refs s2" by blast
    have "refs s1 = refs s" using 1(2) by (simp add: refs_def)
    then show ?thesis using k(1) False 1(1,2) 2 3 c
      by (intro exI [of _ s3] exI [of _ "?c # cs"]) (simp add: m_def [symmetric, simplified] Let_def)
  qed
qed

text \<open>A link without a template whose request for the whole buffer is with the system.\<close>

definition w_raw_ncb :: ncb_t where
  "w_raw_ncb = w_ncb\<lparr>tcp_tst := \<lparr>tst_cb = 0, builder = 0, parser = 0\<rparr>\<rparr>"

definition w_raw :: st where
  "w_raw = w_rx\<lparr>ncbs := [7 \<mapsto> w_raw_ncb]\<rparr>"

lemma receive_raw_stream_witness:
  "\<exists>s' cs. rx_run w_env 0 [2, 0, 5] [1, 2, 3] w_raw = Some ([], s') \<and> concat cs = [1, 2, 3]
    \<and> events (trace s') = map (\<lambda>c. EvRecv 7 (int (length c)) c) cs"
proof -
  have "raw_link 7 w_raw_ncb 0 (packet_init 7 kProto_TCP kRecv TCP_RECV_BUFFER_SIZE kVirtualHeap (Ptr 1 0)) 1
      (replicate 69632 0) w_raw"
    by (simp add: raw_link_def w_raw_def w_raw_ncb_def w_defs get_pkt_def BUF_value)
  then have i: "raw_inv 7 w_raw_ncb 0 w_raw" unfolding raw_inv_def by blast
  have "events (trace w_raw) = []" by (simp add: w_raw_def w_rx_def w_st_def)
  then show ?thesis using receive_raw_stream [OF i w_env_ok(2,3), of "[1, 2, 3]" "[2, 0, 5]"] by auto
qed

end
