(* ===== verification/Sender_Conc.thy ===== *)
theory Sender_Conc
  imports Tcp_Link
begin

text \<open>
  The sender queue of one link under concurrency. Any number of user threads run
  \<open>tcp_write\<close> and any number of worker threads handle completions of sends; the critical
  section orders their accesses to the queue, but the worker's decrease of
  \<open>tcp_write_pending_\<close> happens outside it, between the two interlocked operations of the
  loop in \<open>tcp_try_write\<close>. Every line that touches the shared state is one step; the steps
  of the threads interleave in any order. A send that fails at once, a completion that shuts the
  link down without touching the pending count, and the closing of the link by anybody else at
  any moment are steps too.
\<close>

subsection \<open>Threads, shared state, steps\<close>

text \<open>
  Where a thread is in \<open>tcp_try_write\<close>. Called with a packet it is before the critical section
  (\<open>WEnter\<close>), before the increment of \<open>tcp_sender_list_size_\<close> (\<open>WCount\<close>), before its decrement
  because the queue is full (\<open>WUndo\<close>), before \<open>list_add_tail\<close> (\<open>WAdd\<close>); called with NULL, before the
  section (\<open>CEnter\<close>) and before \<open>list_empty\<close> (\<open>CLook\<close>). Then: the increment and the decrement of the
  loop (\<open>Inc\<close>, \<open>Dec\<close>), the removal of the first entry (\<open>Pop\<close>), the decrement of the size
  (\<open>Uncount\<close>), leaving the section with or without a packet to send, \<open>asio_tcp_send\<close> (\<open>Send\<close>) and
  \<open>tcp_shutdown_by_packet\<close> (\<open>Shut\<close>). \<open>CDec\<close> is the worker before its decrement of the pending count.
\<close>

datatype pc = Idle | WEnter nat | WCount nat | WUndo | WAdd nat | CEnter | CLook | Inc | Dec | Pop
  | Uncount nat | LeaveSend nat | Leave | Send nat | Shut nat | CDec nat

text \<open>
  \<open>cached\<close> is \<open>tcp_sender_list_size_\<close>, \<open>pend\<close> is \<open>tcp_write_pending_\<close>, \<open>closing\<close> says that the link was
  given to \<open>objclos\<close>. \<open>taken\<close> records the packets that entered the queue, \<open>posted\<close> those given to
  \<open>asio_tcp_send\<close>.
\<close>

record conf =
  pcs :: "nat \<Rightarrow> pc"
  owner :: "nat option"
  queue :: "nat list"
  cached :: int
  pend :: int
  closing :: bool
  in_flight :: "nat list"
  posted :: "nat list"
  taken :: "nat list"

definition goto :: "nat \<Rightarrow> pc \<Rightarrow> conf \<Rightarrow> conf" where
  "goto t p c = c\<lparr>pcs := (pcs c)(t := p)\<rparr>"

text \<open>The steps of a thread inside \<open>tcp_try_write\<close> and its callers, when Winsock takes what it sends.\<close>

inductive tstep :: "nat \<Rightarrow> conf \<Rightarrow> conf \<Rightarrow> bool" for t c where
  t_wenter: "pcs c t = WEnter p \<Longrightarrow> owner c = None \<Longrightarrow> tstep t c (goto t (WCount p) (c\<lparr>owner := Some t\<rparr>))"
| t_wcount: "pcs c t = WCount p \<Longrightarrow>
     tstep t c (goto t (if cached c + 1 \<ge> TCP_MAXIMUM_SENDER_CACHED_CNT_PRE_LINK then WUndo else WAdd p)
       (c\<lparr>cached := cached c + 1\<rparr>))"
| t_wundo: "pcs c t = WUndo \<Longrightarrow> tstep t c (goto t Leave (c\<lparr>cached := cached c - 1\<rparr>))"
| t_wadd: "pcs c t = WAdd p \<Longrightarrow> tstep t c (goto t Inc (c\<lparr>queue := queue c @ [p], taken := taken c @ [p]\<rparr>))"
| t_centry: "pcs c t = CEnter \<Longrightarrow> owner c = None \<Longrightarrow> tstep t c (goto t CLook (c\<lparr>owner := Some t\<rparr>))"
| t_clook: "pcs c t = CLook \<Longrightarrow> tstep t c (goto t (if queue c = [] then Leave else Inc) c)"
| t_inc: "pcs c t = Inc \<Longrightarrow>
     tstep t c (goto t (if pend c + 1 > 1 then Dec else Pop) (c\<lparr>pend := pend c + 1\<rparr>))"
| t_dec: "pcs c t = Dec \<Longrightarrow>
     tstep t c (goto t (if pend c - 1 > 0 then Leave else Inc) (c\<lparr>pend := pend c - 1\<rparr>))"
| t_pop: "pcs c t = Pop \<Longrightarrow> queue c = x # q \<Longrightarrow> tstep t c (goto t (Uncount x) (c\<lparr>queue := q\<rparr>))"
| t_uncount: "pcs c t = Uncount x \<Longrightarrow> tstep t c (goto t (LeaveSend x) (c\<lparr>cached := cached c - 1\<rparr>))"
| t_leave: "pcs c t = Leave \<Longrightarrow> tstep t c (goto t Idle (c\<lparr>owner := None\<rparr>))"
| t_leave_send: "pcs c t = LeaveSend x \<Longrightarrow> tstep t c (goto t (Send x) (c\<lparr>owner := None\<rparr>))"
| t_send: "pcs c t = Send x \<Longrightarrow>
     tstep t c (goto t Idle (c\<lparr>in_flight := in_flight c @ [x], posted := posted c @ [x]\<rparr>))"
| t_shut: "pcs c t = Shut x \<Longrightarrow> tstep t c (goto t Idle (c\<lparr>closing := True\<rparr>))"
| t_cdec: "pcs c t = CDec x \<Longrightarrow> tstep t c (goto t CEnter (c\<lparr>pend := pend c - 1\<rparr>))"

text \<open>
  A worker takes a completion whose handler goes on to the next packet: a send that succeeded, or
  that failed for another reason than a disconnection.
\<close>

inductive completes :: "nat \<Rightarrow> conf \<Rightarrow> conf \<Rightarrow> bool" for t c where
  "pcs c t = Idle \<Longrightarrow> in_flight c = xs @ x # ys \<Longrightarrow> completes t c (goto t (CDec x) (c\<lparr>in_flight := xs @ ys\<rparr>))"

text \<open>
  All that can happen: a step of a thread; a new call of \<open>tcp_write\<close>; a completion; a send that
  fails at once (\<open>tcp_try_write\<close> then shuts the link down); a completion of size 0 or with a
  disconnection, which shuts the link down and leaves the pending count; a completion of a send on
  a link that is gone, which only frees the packet; the link is closed from elsewhere
  (\<open>tcp_destroy\<close>, another request).
\<close>

inductive cstep :: "conf \<Rightarrow> conf \<Rightarrow> bool" for c where
  c_thread: "tstep t c c' \<Longrightarrow> cstep c c'"
| c_write: "pcs c t = Idle \<Longrightarrow> cstep c (goto t (WEnter p) c)"
| c_complete: "completes t c c' \<Longrightarrow> cstep c c'"
| c_send_fails: "pcs c t = Send x \<Longrightarrow> cstep c (goto t (Shut x) (c\<lparr>posted := posted c @ [x]\<rparr>))"
| c_complete_shuts: "pcs c t = Idle \<Longrightarrow> in_flight c = xs @ x # ys \<Longrightarrow>
     cstep c (goto t (Shut x) (c\<lparr>in_flight := xs @ ys\<rparr>))"
| c_gone: "closing c \<Longrightarrow> in_flight c = xs @ x # ys \<Longrightarrow> cstep c (c\<lparr>in_flight := xs @ ys\<rparr>)"
| c_close: "cstep c (c\<lparr>closing := True\<rparr>)"

definition start :: conf where
  "start = \<lparr>pcs = (\<lambda>t. Idle), owner = None, queue = [], cached = 0, pend = 0, closing = False,
     in_flight = [], posted = [], taken = []\<rparr>"

inductive creach :: "conf \<Rightarrow> bool" where
  creach_start: "creach start"
| creach_step: "creach c \<Longrightarrow> cstep c c' \<Longrightarrow> creach c'"

subsection \<open>The invariant\<close>

fun in_section :: "pc \<Rightarrow> bool" where
  "in_section Idle \<longleftrightarrow> False" | "in_section (WEnter p) \<longleftrightarrow> False" | "in_section CEnter \<longleftrightarrow> False"
| "in_section (Send x) \<longleftrightarrow> False" | "in_section (Shut x) \<longleftrightarrow> False" | "in_section (CDec x) \<longleftrightarrow> False"
| "in_section _ \<longleftrightarrow> True"

text \<open>
  The write slot is held by a thread, or by the system while a send is in flight; on a link that
  is closing it may never be given back (\<open>Dead\<close>).
\<close>

fun holds :: "pc \<Rightarrow> bool" where
  "holds Pop \<longleftrightarrow> True" | "holds (Uncount x) \<longleftrightarrow> True" | "holds (LeaveSend x) \<longleftrightarrow> True"
| "holds (Send x) \<longleftrightarrow> True" | "holds (Shut x) \<longleftrightarrow> True" | "holds (CDec x) \<longleftrightarrow> True" | "holds _ \<longleftrightarrow> False"

datatype holder = Nobody | Thread nat | System nat | Dead

fun carried :: "pc \<Rightarrow> nat list" where
  "carried (Uncount x) = [x]" | "carried (LeaveSend x) = [x]" | "carried (Send x) = [x]" | "carried _ = []"

text \<open>The places where the size counts one packet more than the queue holds.\<close>

fun counting :: "pc \<Rightarrow> bool" where
  "counting WUndo \<longleftrightarrow> True" | "counting (WAdd p) \<longleftrightarrow> True" | "counting (Uncount x) \<longleftrightarrow> True" | "counting _ \<longleftrightarrow> False"

fun adding :: "pc \<Rightarrow> bool" where
  "adding (WAdd p) \<longleftrightarrow> True" | "adding _ \<longleftrightarrow> False"

definition own_pc :: "conf \<Rightarrow> pc" where
  "own_pc c = (case owner c of None \<Rightarrow> Idle | Some t \<Rightarrow> pcs c t)"

definition wakers :: "conf \<Rightarrow> nat set" where
  "wakers c = {t. pcs c t = CEnter \<or> pcs c t = CLook}"

definition busy :: "conf \<Rightarrow> nat set" where
  "busy c = {t. pcs c t \<noteq> Idle}"

definition cinv :: "holder \<Rightarrow> conf \<Rightarrow> bool" where
  "cinv s c \<longleftrightarrow> (\<forall>t. in_section (pcs c t) = (owner c = Some t))
     \<and> (\<forall>t. holds (pcs c t) = (s = Thread t))
     \<and> in_flight c = (case s of System x \<Rightarrow> [x] | _ \<Rightarrow> [])
     \<and> pend c = (if s = Nobody then 0 else 1) + (if own_pc c = Dec then 1 else 0)
     \<and> cached c = int (length (queue c)) + (if counting (own_pc c) then 1 else 0)
     \<and> (own_pc c \<in> {Inc, Dec, Pop} \<longrightarrow> queue c \<noteq> [])
     \<and> posted c @ (case s of Thread t \<Rightarrow> carried (pcs c t) | _ \<Rightarrow> []) @ queue c = taken c
     \<and> length (queue c) + (if adding (own_pc c) then 1 else 0) < 500
     \<and> (queue c \<noteq> [] \<longrightarrow> s \<noteq> Nobody \<or> own_pc c \<in> {Inc, Dec} \<or> wakers c \<noteq> {})
     \<and> (s = Dead \<longrightarrow> closing c)
     \<and> finite (busy c)"

lemma goto_fields [simp]:
  "pcs (goto t p c) u = (if u = t then p else pcs c u)" "owner (goto t p c) = owner c"
  "queue (goto t p c) = queue c" "cached (goto t p c) = cached c" "pend (goto t p c) = pend c"
  "closing (goto t p c) = closing c" "in_flight (goto t p c) = in_flight c"
  "posted (goto t p c) = posted c" "taken (goto t p c) = taken c"
  by (simp_all add: goto_def)

lemma wakers_goto:
  "wakers (goto t p c) = (if p = CEnter \<or> p = CLook then insert t (wakers c) else wakers c - {t})"
  by (auto simp: wakers_def)

lemma wakers_upd [simp]:
  "wakers (c\<lparr>owner := a\<rparr>) = wakers c" "wakers (c\<lparr>queue := b\<rparr>) = wakers c" "wakers (c\<lparr>cached := d\<rparr>) = wakers c"
  "wakers (c\<lparr>pend := d\<rparr>) = wakers c" "wakers (c\<lparr>in_flight := e\<rparr>) = wakers c" "wakers (c\<lparr>closing := i\<rparr>) = wakers c"
  "wakers (c\<lparr>posted := f\<rparr>) = wakers c" "wakers (c\<lparr>taken := g\<rparr>) = wakers c"
  by (simp_all add: wakers_def)

lemma wakers_id: "pcs c t \<noteq> CEnter \<Longrightarrow> pcs c t \<noteq> CLook \<Longrightarrow> wakers c - {t} = wakers c"
  by (auto simp: wakers_def)

lemma busy_goto: "busy (goto t p c) = (if p = Idle then busy c - {t} else insert t (busy c))"
  by (auto simp: busy_def)

lemma busy_upd [simp]:
  "busy (c\<lparr>owner := a\<rparr>) = busy c" "busy (c\<lparr>queue := b\<rparr>) = busy c" "busy (c\<lparr>cached := d\<rparr>) = busy c"
  "busy (c\<lparr>pend := d\<rparr>) = busy c" "busy (c\<lparr>in_flight := e\<rparr>) = busy c" "busy (c\<lparr>closing := i\<rparr>) = busy c"
  "busy (c\<lparr>posted := f\<rparr>) = busy c" "busy (c\<lparr>taken := g\<rparr>) = busy c"
  by (simp_all add: busy_def)

lemma own_pc_upd [simp]:
  "own_pc (c\<lparr>queue := b\<rparr>) = own_pc c" "own_pc (c\<lparr>cached := d\<rparr>) = own_pc c"
  "own_pc (c\<lparr>pend := d\<rparr>) = own_pc c" "own_pc (c\<lparr>in_flight := e\<rparr>) = own_pc c" "own_pc (c\<lparr>closing := i\<rparr>) = own_pc c"
  "own_pc (c\<lparr>posted := f\<rparr>) = own_pc c" "own_pc (c\<lparr>taken := g\<rparr>) = own_pc c"
  "own_pc (c\<lparr>owner := None\<rparr>) = Idle" "own_pc (c\<lparr>owner := Some t\<rparr>) = pcs c t"
  by (simp_all add: own_pc_def split: option.splits)

lemma own_pc_goto: "own_pc (goto t p c) = (if owner c = Some t then p else own_pc c)"
  by (simp add: own_pc_def split: option.splits)

lemma own_pc_owner: "owner c = Some t \<Longrightarrow> own_pc c = pcs c t" "owner c = None \<Longrightarrow> own_pc c = Idle"
  by (simp_all add: own_pc_def)

lemma cinv_start: "cinv Nobody start"
  by (simp add: cinv_def start_def own_pc_def busy_def)

text \<open>What the invariant says of a thread by its place.\<close>

lemma cinv_at:
  assumes "cinv s c"
  shows "in_section (pcs c t) \<Longrightarrow> owner c = Some t" "\<not> in_section (pcs c t) \<Longrightarrow> owner c \<noteq> Some t"
    and "holds (pcs c t) \<Longrightarrow> s = Thread t" "\<not> holds (pcs c t) \<Longrightarrow> s \<noteq> Thread t"
  using assms by (auto simp: cinv_def own_pc_def)

lemmas cinv_moves = wakers_goto wakers_id busy_goto own_pc_goto own_pc_owner TCP_MAXIMUM_SENDER_CACHED_CNT_PRE_LINK_def

lemma cinv_tstep:
  assumes I: "cinv s c" and S: "tstep t c c'"
  shows "\<exists>s'. cinv s' c'"
proof -
  note at = cinv_at(1-4) [OF I, of t]
  have same: ?thesis if "cinv s c'" using that ..
  from S show ?thesis
  proof cases
    case (t_inc)
    then have "cinv (if s = Nobody then Thread t else s) c'"
      using I at unfolding cinv_def by (auto simp: cinv_moves split: holder.splits)
    then show ?thesis ..
  next
    case (t_send x)
    then have "cinv (System x) c'"
      using I at unfolding cinv_def by (auto simp: cinv_moves split: holder.splits)
    then show ?thesis ..
  next
    case (t_shut x)
    then have "cinv Dead c'"
      using I at unfolding cinv_def by (auto simp: cinv_moves split: holder.splits)
    then show ?thesis ..
  next
    case (t_cdec x)
    then have "cinv Nobody c'"
      using I at unfolding cinv_def by (auto simp: cinv_moves split: holder.splits)
    then show ?thesis ..
  next
    case (t_clook)
    then show ?thesis using I at
      by (intro same) (unfold cinv_def, auto simp: cinv_moves split: holder.splits)
  next
    case (t_pop x q)
    then show ?thesis using I at
      by (intro same) (unfold cinv_def, auto simp: cinv_moves split: holder.splits)
  qed (use I at in \<open>(intro same, unfold cinv_def, auto simp: cinv_moves split: holder.splits)\<close>)+
qed

lemma cinv_completes:
  assumes I: "cinv s c" and S: "completes t c c'"
  shows "\<exists>s'. cinv s' c'"
  using S
proof cases
  case (1 xs x ys)
  then have "cinv (Thread t) c'"
    using I cinv_at [OF I, of t] unfolding cinv_def
    by (auto simp: cinv_moves Cons_eq_append_conv split: holder.splits)
  then show ?thesis ..
qed

lemma cinv_cstep:
  assumes I: "cinv s c" and S: "cstep c c'"
  shows "\<exists>s'. cinv s' c'"
  using S
proof cases
  case (c_thread t)
  then show ?thesis using cinv_tstep [OF I] by blast
next
  case (c_complete t)
  then show ?thesis using cinv_completes [OF I] by blast
next
  case (c_write t p)
  then have "cinv s c'"
    using I cinv_at [OF I, of t] unfolding cinv_def by (auto simp: cinv_moves split: holder.splits)
  then show ?thesis ..
next
  case (c_send_fails t x)
  then have "cinv s c'"
    using I cinv_at [OF I, of t] unfolding cinv_def by (auto simp: cinv_moves split: holder.splits)
  then show ?thesis ..
next
  case (c_complete_shuts t xs x ys)
  then have "cinv (Thread t) c'"
    using I cinv_at [OF I, of t] unfolding cinv_def
    by (auto simp: cinv_moves Cons_eq_append_conv split: holder.splits)
  then show ?thesis ..
next
  case (c_gone xs x ys)
  then have "cinv Dead c'"
    using I unfolding cinv_def by (auto simp: Cons_eq_append_conv split: holder.splits)
  then show ?thesis ..
next
  case c_close
  then have "cinv s c'" using I unfolding cinv_def by (auto split: holder.splits)
  then show ?thesis ..
qed

lemma creach_cinv: "creach c \<Longrightarrow> \<exists>s. cinv s c"
proof (induction rule: creach.induct)
  case creach_start
  show ?case using cinv_start ..
next
  case (creach_step c c')
  then show ?case using cinv_cstep by blast
qed

subsection \<open>Safety\<close>

lemma one_in_flight:
  assumes "creach c"
  shows "length (in_flight c) \<le> 1" "in_flight c \<noteq> [] \<Longrightarrow> pcs c t \<noteq> Send x"
    "pcs c t = Send x \<Longrightarrow> pcs c u = Send y \<Longrightarrow> u = t"
proof -
  from creach_cinv [OF assms] obtain s where I: "cinv s c" ..
  then have hs: "holds (pcs c v) = (s = Thread v)" for v by (simp add: cinv_def)
  show "length (in_flight c) \<le> 1" using I by (auto simp: cinv_def split: holder.splits)
  have "in_flight c = []" if "pcs c t = Send x"
  proof -
    have "s = Thread t" using hs [of t] that by simp
    then show ?thesis using I by (simp add: cinv_def)
  qed
  then show "in_flight c \<noteq> [] \<Longrightarrow> pcs c t \<noteq> Send x" by blast
  show "pcs c t = Send x \<Longrightarrow> pcs c u = Send y \<Longrightarrow> u = t"
    using hs [of t] hs [of u] by auto
qed

text \<open>A thread is at the decrement of the loop exactly when the owner of the section is.\<close>

lemma someone_at_dec:
  assumes "cinv s c"
  shows "(\<exists>t. pcs c t = Dec) = (own_pc c = Dec)"
proof
  assume "\<exists>t. pcs c t = Dec"
  then obtain t where t: "pcs c t = Dec" by blast
  then have "owner c = Some t" using cinv_at(1) [OF assms, of t] by simp
  with t show "own_pc c = Dec" by (simp add: own_pc_def)
qed (auto simp: own_pc_def split: option.splits)

lemma pending_count:
  assumes "creach c"
  shows "in_flight c \<noteq> [] \<or> (\<exists>t x. pcs c t = Send x) \<Longrightarrow> pend c = (if \<exists>t. pcs c t = Dec then 2 else 1)"
    "0 \<le> pend c \<and> pend c \<le> 2"
proof -
  from creach_cinv [OF assms] obtain s where I: "cinv s c" ..
  show "0 \<le> pend c \<and> pend c \<le> 2" using I by (auto simp: cinv_def)
  assume "in_flight c \<noteq> [] \<or> (\<exists>t x. pcs c t = Send x)"
  then have "s \<noteq> Nobody"
  proof
    assume "\<exists>t x. pcs c t = Send x"
    then obtain t x where "pcs c t = Send x" by blast
    then have "s = Thread t" using cinv_at(3) [OF I, of t] by simp
    then show ?thesis by simp
  qed (use I in \<open>auto simp: cinv_def\<close>)
  then show "pend c = (if \<exists>t. pcs c t = Dec then 2 else 1)"
    unfolding someone_at_dec [OF I] using I by (simp add: cinv_def)
qed

lemma fifo_order:
  assumes "creach c"
  shows "\<exists>mid. length mid \<le> 1 \<and> posted c @ mid @ queue c = taken c \<and> length (queue c) < 500"
proof -
  from creach_cinv [OF assms] obtain s where "cinv s c" ..
  moreover have "length (carried p) \<le> 1" for p by (cases p) auto
  ultimately show ?thesis
    by (intro exI [of _ "case s of Thread t \<Rightarrow> carried (pcs c t) | _ \<Rightarrow> []"])
      (auto simp: cinv_def split: holder.splits)
qed

subsection \<open>Progress\<close>

text \<open>
  How the link empties when no new call begins and the system accepts and completes what it is
  given: the threads go on, the sends in flight complete.
\<close>

inductive drain :: "conf \<Rightarrow> conf \<Rightarrow> bool" for c where
  "tstep t c c' \<Longrightarrow> drain c c'"
| "completes t c c' \<Longrightarrow> drain c c'"

text \<open>What is left to do: the steps each thread may still take, and those of each packet.\<close>

fun weight :: "pc \<Rightarrow> nat" where
  "weight Idle = 0" | "weight Leave = 1" | "weight (Shut x) = 1" | "weight Dec = 2" | "weight WUndo = 2"
| "weight Inc = 3" | "weight Pop = 4" | "weight CLook = 7" | "weight CEnter = 8" | "weight (CDec x) = 13"
| "weight (Send x) = 15" | "weight (LeaveSend x) = 16" | "weight (Uncount x) = 17" | "weight (WAdd p) = 20"
| "weight (WCount p) = 21" | "weight (WEnter p) = 22"

text \<open>A decrement from outside can send the loop round once more.\<close>

fun again :: "pc \<Rightarrow> int \<Rightarrow> nat" where
  "again Inc n = (if n \<le> 0 then 2 else 0)"
| "again Dec n = (if n \<le> 1 then 4 else 0)"
| "again _ n = 0"

definition work :: "conf \<Rightarrow> nat" where
  "work c = (\<Sum>t\<in>busy c. weight (pcs c t))"

definition drain_rank :: "conf \<Rightarrow> nat" where
  "drain_rank c = work c + 14 * length (queue c) + 14 * length (in_flight c) + again (own_pc c) (pend c)"

text \<open>One thread moves: its weight is exchanged.\<close>

lemma work_move:
  assumes "finite (busy c)" "\<forall>u. u \<noteq> t \<longrightarrow> pcs d u = pcs c u"
  shows "work d + weight (pcs c t) = work c + weight (pcs d t)"
proof -
  let ?rest = "\<lambda>e. \<Sum>u\<in>busy e - {t}. weight (pcs e u)"
  have w: "work e = weight (pcs e t) + ?rest e" if "finite (busy e)" for e
    using that by (cases "t \<in> busy e") (simp_all add: work_def sum.remove busy_def)
  have b: "busy d - {t} = busy c - {t}" using assms(2) by (auto simp: busy_def)
  then have "finite (busy d - {t})" using assms(1) by simp
  then have "finite (busy d)" by simp
  moreover have "?rest d = ?rest c" unfolding b using assms(2) by (intro sum.cong) auto
  ultimately show ?thesis using w [of c] w [of d] assms(1) by simp
qed

lemma again_le: "again p n \<le> 4"
  by (cases p) auto

lemma drain_rank_tstep:
  assumes I: "cinv s c" and S: "tstep t c c'"
  shows "drain_rank c' < drain_rank c"
proof -
  note at = cinv_at(1,2) [OF I, of t]
  have f: "finite (busy c)" using I by (simp add: cinv_def)
  have "\<forall>u. u \<noteq> t \<longrightarrow> pcs c' u = pcs c u" using S by cases auto
  from work_move [OF f this] have w: "work c' + weight (pcs c t) = work c + weight (pcs c' t)" .
  from S show ?thesis
  proof cases
    case (t_cdec x)
    then show ?thesis
      using at w again_le [of "own_pc c" "pend c - 1"] by (simp add: drain_rank_def own_pc_goto)
  qed (use at w in \<open>auto simp: drain_rank_def own_pc_goto own_pc_owner split: if_splits\<close>)
qed

lemma drain_rank_less:
  assumes I: "cinv s c" and S: "drain c c'"
  shows "drain_rank c' < drain_rank c"
  using S
proof cases
  case (1 t)
  then show ?thesis using drain_rank_tstep [OF I] by blast
next
  case (2 t)
  then show ?thesis
  proof cases
    case (1 xs x ys)
    have "finite (busy c)" "owner c \<noteq> Some t" using I 1 cinv_at(2) [OF I, of t] by (simp_all add: cinv_def)
    with 1 work_move [of c t c'] show ?thesis by (simp add: drain_rank_def own_pc_goto)
  qed
qed

lemma drain_creach: "drain c c' \<Longrightarrow> creach c \<Longrightarrow> creach c'"
  by (auto elim!: drain.cases intro: creach_step c_thread c_complete)

lemma drains_creach: "drain\<^sup>*\<^sup>* c c' \<Longrightarrow> creach c \<Longrightarrow> creach c'"
  by (induction rule: rtranclp_induct) (auto intro: drain_creach)

lemma drain_bounded: "(drain ^^ k) c c' \<Longrightarrow> creach c \<Longrightarrow> k + drain_rank c' \<le> drain_rank c"
proof (induction k arbitrary: c')
  case (Suc k)
  from Suc.prems(1) obtain d where d: "(drain ^^ k) c d" "drain d c'" by auto
  from d(1) Suc.prems(2) have "creach d" using drains_creach relpowp_imp_rtranclp by metis
  then obtain s where "cinv s d" using creach_cinv by blast
  from drain_rank_less [OF this d(2)] Suc.IH [OF d(1) Suc.prems(2)] show ?case by simp
qed simp

text \<open>A configuration in which nothing more can happen without the user or a failure.\<close>

definition settled :: "conf \<Rightarrow> bool" where
  "settled c \<longleftrightarrow> (\<forall>c'. \<not> drain c c')"

text \<open>Every run of steps comes to such a configuration.\<close>

lemma drain_ends:
  assumes "creach c"
  shows "\<exists>c'. drain\<^sup>*\<^sup>* c c' \<and> settled c'"
  using assms
proof (induction "drain_rank c" arbitrary: c rule: less_induct)
  case less
  show ?case
  proof (cases "settled c")
    case False
    then obtain d where d: "drain c d" by (auto simp: settled_def)
    from creach_cinv [OF less.prems] obtain s where "cinv s c" ..
    from less.hyps [OF drain_rank_less [OF this d] drain_creach [OF d less.prems]]
    obtain c' where "drain\<^sup>*\<^sup>* d c'" "settled c'" by blast
    with d show ?thesis by (meson converse_rtranclp_into_rtranclp)
  qed auto
qed

text \<open>No thread waits for ever: who is not idle can move, once the section is free.\<close>

lemma settled_no_owner:
  assumes I: "cinv s c" and "settled c"
  shows "owner c = None"
proof (rule ccontr)
  assume "owner c \<noteq> None"
  then obtain t where t: "owner c = Some t" by blast
  then have "in_section (pcs c t)" "own_pc c = pcs c t" using I by (auto simp: cinv_def own_pc_def)
  moreover have "queue c \<noteq> []" if "pcs c t = Pop" using I that \<open>own_pc c = pcs c t\<close> by (auto simp: cinv_def)
  ultimately have "\<exists>c'. tstep t c c'"
    by (cases "pcs c t") (auto simp: neq_Nil_conv intro: tstep.intros)
  then show False using assms(2) by (auto simp: settled_def intro: drain.intros)
qed

lemma settled_idle:
  assumes I: "cinv s c" and S: "settled c"
  shows "pcs c t = Idle"
proof (rule ccontr)
  assume "pcs c t \<noteq> Idle"
  moreover have o: "owner c = None" using settled_no_owner [OF I S] .
  moreover have "\<not> in_section (pcs c t)" using I o by (auto simp: cinv_def)
  ultimately have "\<exists>c'. tstep t c c'" by (cases "pcs c t") (auto intro: tstep.intros)
  then show False using S by (auto simp: settled_def intro: drain.intros)
qed

lemma settled_no_flight:
  assumes "cinv s c" "settled c"
  shows "in_flight c = []"
proof (rule ccontr)
  assume "in_flight c \<noteq> []"
  then obtain x ys where "in_flight c = [] @ x # ys" by (auto simp: neq_Nil_conv)
  from completes.intros [OF settled_idle [OF assms, of 0] this] assms(2)
  show False by (auto simp: settled_def intro: drain.intros)
qed

lemma settled_empty:
  assumes I: "cinv s c" and S: "settled c"
  shows "closing c \<or> queue c = [] \<and> posted c = taken c"
proof -
  have idle: "pcs c t = Idle" for t using settled_idle [OF I S] .
  then have w: "wakers c = {}" "own_pc c = Idle" by (auto simp: wakers_def own_pc_def split: option.splits)
  have "s = Nobody \<or> s = Dead"
    using I idle settled_no_flight [OF I S] by (cases s) (auto simp: cinv_def)
  then show ?thesis using I w by (auto simp: cinv_def)
qed

text \<open>What was taken stays taken; a link that nobody closes stays open.\<close>

definition healthy :: "conf \<Rightarrow> bool" where
  "healthy c \<longleftrightarrow> \<not> closing c \<and> (\<forall>t x. pcs c t \<noteq> Shut x)"

lemma drain_keeps: "drain c c' \<Longrightarrow> (\<exists>ys. taken c' = taken c @ ys) \<and> (healthy c \<longrightarrow> healthy c')"
  by (auto elim!: drain.cases tstep.cases completes.cases simp: healthy_def split: if_splits)

lemma drains_keep: "drain\<^sup>*\<^sup>* c c' \<Longrightarrow> (\<exists>ys. taken c' = taken c @ ys) \<and> (healthy c \<longrightarrow> healthy c')"
proof (induction rule: rtranclp_induct)
  case (step d c')
  then show ?case using drain_keeps [OF step.hyps(2)] by auto
qed simp

subsection \<open>Properties\<close>

text \<open>A run: two threads write, the first sends its packet, the second leaves its own waiting.\<close>

definition w_two :: conf where
  "w_two = start\<lparr>pcs := (\<lambda>t. if t = 1 then Inc else Idle), owner := Some 1, queue := [20], cached := 1, pend := 1,
     in_flight := [10], posted := [10], taken := [10, 20]\<rparr>"

text \<open>The steps of one call: the entry of a writer, then the steps of its thread.\<close>

inductive own_step :: "nat \<Rightarrow> nat option \<Rightarrow> conf \<Rightarrow> conf \<Rightarrow> bool" for t packet c where
  enter: "packet = Some p \<Longrightarrow> pcs c t = Idle \<Longrightarrow> own_step t packet c (goto t (WEnter p) c)"
| go: "tstep t c c' \<Longrightarrow> own_step t packet c c'"

lemma own_step_cstep: "own_step t packet c c' \<Longrightarrow> cstep c c'"
  by (auto elim!: own_step.cases intro: c_thread c_write)

lemma own_run: "(own_step t packet)\<^sup>+\<^sup>+ c c' \<Longrightarrow> cstep\<^sup>*\<^sup>* c c'"
  by (induction rule: tranclp_induct) (auto intro: own_step_cstep rtranclp.rtrancl_into_rtrancl)

text \<open>A writer comes in and queues its packet; it removes and sends the head.\<close>

lemma run_in:
  assumes "pcs c t = Idle" "owner c = None" "cached c < 499"
  shows "(own_step t (Some p))\<^sup>+\<^sup>+ c (goto t Inc (c\<lparr>owner := Some t, cached := cached c + 1, queue := queue c @ [p], taken := taken c @ [p]\<rparr>))"
proof -
  let ?c1 = "goto t (WEnter p) c"
  let ?c2 = "goto t (WCount p) (c\<lparr>owner := Some t\<rparr>)"
  let ?c3 = "goto t (WAdd p) (c\<lparr>owner := Some t, cached := cached c + 1\<rparr>)"
  let ?c4 = "goto t Inc (c\<lparr>owner := Some t, cached := cached c + 1, queue := queue c @ [p], taken := taken c @ [p]\<rparr>)"
  have "own_step t (Some p) c ?c1" using enter [of "Some p" p c t] assms by simp
  moreover have "tstep t ?c1 ?c2" using t_wenter [of ?c1 t p] assms by (simp add: goto_def)
  moreover have "tstep t ?c2 ?c3" using t_wcount [of ?c2 t p] assms
    by (simp add: goto_def TCP_MAXIMUM_SENDER_CACHED_CNT_PRE_LINK_def)
  moreover have "tstep t ?c3 ?c4" using t_wadd [of ?c3 t p] by (simp add: goto_def)
  ultimately show ?thesis by (meson go tranclp.r_into_trancl tranclp_trans)
qed

lemma run_out:
  assumes "pcs c t = Inc" "pend c = 0" "queue c = x # q"
  shows "(own_step t packet)\<^sup>+\<^sup>+ c (goto t Idle (c\<lparr>pend := 1, queue := q, cached := cached c - 1, owner := None,
    in_flight := in_flight c @ [x], posted := posted c @ [x]\<rparr>))"
proof -
  let ?c1 = "goto t Pop (c\<lparr>pend := 1\<rparr>)"
  let ?c2 = "goto t (Uncount x) (c\<lparr>pend := 1, queue := q\<rparr>)"
  let ?c3 = "goto t (LeaveSend x) (c\<lparr>pend := 1, queue := q, cached := cached c - 1\<rparr>)"
  let ?c4 = "goto t (Send x) (c\<lparr>pend := 1, queue := q, cached := cached c - 1, owner := None\<rparr>)"
  let ?c5 = "goto t Idle (c\<lparr>pend := 1, queue := q, cached := cached c - 1, owner := None,
    in_flight := in_flight c @ [x], posted := posted c @ [x]\<rparr>)"
  have "tstep t c ?c1" using t_inc [of c t] assms by simp
  moreover have "tstep t ?c1 ?c2" using t_pop [of ?c1 t x q] assms by (simp add: goto_def)
  moreover have "tstep t ?c2 ?c3" using t_uncount [of ?c2 t x] by (simp add: goto_def)
  moreover have "tstep t ?c3 ?c4" using t_leave_send [of ?c3 t x] by (simp add: goto_def)
  moreover have "tstep t ?c4 ?c5" using t_send [of ?c4 t x] by (simp add: goto_def)
  ultimately show ?thesis by (meson go tranclp.r_into_trancl tranclp_trans)
qed

lemma creach_run: "cstep\<^sup>*\<^sup>* c c' \<Longrightarrow> creach c \<Longrightarrow> creach c'"
  by (induction rule: rtranclp_induct) (auto intro: creach_step)

lemma w_two_reach: "creach w_two"
proof -
  define c1 where "c1 = goto 0 Inc (start\<lparr>owner := Some 0, cached := 1, queue := [10], taken := [10]\<rparr>)"
  define c2 where "c2 = goto 0 Idle (c1\<lparr>pend := 1, queue := [], cached := 0, owner := None, in_flight := [10], posted := [10]\<rparr>)"
  note d = c1_def c2_def start_def
  have "cstep\<^sup>*\<^sup>* start c1" using own_run [OF run_in [of start 0 10]] by (simp add: d)
  moreover have "cstep\<^sup>*\<^sup>* c1 c2" using own_run [OF run_out [of c1 0 10 "[]" None]] by (simp add: d goto_def)
  moreover have "goto 1 Inc (c2\<lparr>owner := Some 1, cached := 1, queue := [20], taken := [10, 20]\<rparr>) = w_two"
    by (simp add: d w_two_def goto_def fun_eq_iff)
  then have "cstep\<^sup>*\<^sup>* c2 w_two" using own_run [OF run_in [of c2 1 20]] by (simp add: d)
  ultimately show ?thesis using creach_run [OF _ creach_start] by (meson rtranclp_trans)
qed

text \<open>
  C13. However the threads interleave, sends fail and the link is closed, a link never has more
  than one send in flight, and while it has one no thread is about to post another; two threads
  are never about to post at once. The pending count says so: while a send is in flight, or about to
  be posted, it is 1, and 2 just when a thread stands between the two operations of the loop; a
  count of 0 means that nothing is in flight.
\<close>

theorem sender_one_in_flight:
  assumes "creach c"
  shows "length (in_flight c) \<le> 1 \<and> (\<forall>t x. in_flight c \<noteq> [] \<longrightarrow> pcs c t \<noteq> Send x)
    \<and> (\<forall>t u x y. pcs c t = Send x \<and> pcs c u = Send y \<longrightarrow> u = t)
    \<and> (in_flight c \<noteq> [] \<or> (\<exists>t x. pcs c t = Send x) \<longrightarrow> pend c = (if \<exists>t. pcs c t = Dec then 2 else 1))
    \<and> 0 \<le> pend c \<and> pend c \<le> 2"
  using one_in_flight [OF assms] pending_count [OF assms] by blast

lemma sender_one_in_flight_witness:
  "in_flight w_two = [10] \<and> (\<forall>t x. pcs w_two t \<noteq> Send x) \<and> pend w_two = 1"
  using sender_one_in_flight [OF w_two_reach] by (simp add: w_two_def)

text \<open>
  C14. However the threads interleave, packets are given to the system in the order in which
  they entered the queue: what was posted, at most one packet on its way, and what waits are
  together what was taken; and fewer than 500 packets wait.
\<close>

theorem sender_fifo_interleaved:
  assumes "creach c"
  shows "\<exists>mid. length mid \<le> 1 \<and> posted c @ mid @ queue c = taken c \<and> length (queue c) < 500"
  using assms by (rule fifo_order)

lemma sender_fifo_interleaved_witness:
  "\<exists>mid. length mid \<le> 1 \<and> [10] @ mid @ [20] = taken w_two"
  using sender_fifo_interleaved [OF w_two_reach] by (simp add: w_two_def)

text \<open>
  C12. No wake-up is lost. Take any reachable configuration, with any number of threads anywhere in
  \<open>tcp_try_write\<close> and in the handlers, and let the threads go on in any order while the system
  takes and completes what it is given: this comes to an end after at most \<open>drain_rank\<close> steps, and
  where it ends every thread is idle, nothing is in flight and every packet that was taken has been
  given to the system, unless the link is being closed. A link on which nobody closed or failed
  before stays open. So the decrement of the pending count outside the critical section never
  leaves a packet behind.
\<close>

theorem sender_no_lost_wakeup:
  assumes "creach c"
  shows "(\<forall>k c'. (drain ^^ k) c c' \<longrightarrow> k \<le> drain_rank c)
    \<and> (\<forall>c'. drain\<^sup>*\<^sup>* c c' \<and> settled c' \<longrightarrow>
         (\<forall>t. pcs c' t = Idle) \<and> in_flight c' = [] \<and> (\<exists>ys. taken c' = taken c @ ys)
         \<and> (closing c' \<or> queue c' = [] \<and> posted c' = taken c') \<and> (healthy c \<longrightarrow> \<not> closing c'))"
proof (intro conjI allI impI)
  fix k c' assume "(drain ^^ k) c c'"
  from drain_bounded [OF this assms] show "k \<le> drain_rank c" by simp
next
  fix c' assume c': "drain\<^sup>*\<^sup>* c c' \<and> settled c'"
  then obtain s where I: "cinv s c'" using drains_creach [OF _ assms] creach_cinv by blast
  note k = drains_keep [OF conjunct1 [OF c']] and e = conjunct2 [OF c']
  show "pcs c' t = Idle" for t by (rule settled_idle [OF I e])
  show "in_flight c' = []" by (rule settled_no_flight [OF I e])
  show "closing c' \<or> queue c' = [] \<and> posted c' = taken c'" by (rule settled_empty [OF I e])
  show "\<exists>ys. taken c' = taken c @ ys" using k by blast
  assume "healthy c"
  then show "\<not> closing c'" using k by (simp add: healthy_def)
qed

lemma sender_no_lost_wakeup_witness:
  "\<exists>c'. drain\<^sup>*\<^sup>* w_two c' \<and> settled c' \<and> queue c' = [] \<and> in_flight c' = [] \<and> posted c' = taken c'
    \<and> (\<exists>ys. taken c' = [10, 20] @ ys)"
proof -
  from drain_ends [OF w_two_reach] obtain c' where c': "drain\<^sup>*\<^sup>* w_two c'" "settled c'" by blast
  moreover have "healthy w_two" by (simp add: healthy_def w_two_def start_def)
  ultimately show ?thesis using sender_no_lost_wakeup [OF w_two_reach] by (auto simp: w_two_def)
qed

end
