(* ===== verification/Sender_Link.thy ===== *)
theory Sender_Link
  imports Sender_Conc Witness
begin

text \<open>
  The steps of \<open>Sender_Conc\<close> and the definition of \<open>tcp_try_write\<close> describe the same code: a call
  of \<open>tcp_try_write\<close> that nothing interrupts is a run of the steps of one thread, with the same
  effect on the queue, on the pending count and on what is given to Winsock.
\<close>

text \<open>The packets of the sends requested on a socket.\<close>

definition sends_of :: "sock \<Rightarrow> act list \<Rightarrow> nat list" where
  "sends_of sk tr = concat (map (\<lambda>c. case c of I_WSASend sk' p bs \<Rightarrow> if sk' = sk then [p] else [] | _ \<Rightarrow> []) (requests tr))"

lemma sends_of_snoc:
  "requests tr' = requests tr @ [I_WSASend sk p bs] \<Longrightarrow> sends_of sk tr' = sends_of sk tr @ [p]"
  "requests tr' = requests tr \<Longrightarrow> sends_of sk tr' = sends_of sk tr"
  by (simp_all add: sends_of_def)

text \<open>The control block of \<open>h\<close> holds the shared variables of \<open>c\<close>; nobody is in the critical section.\<close>

definition mirrors :: "handle \<Rightarrow> st \<Rightarrow> conf \<Rightarrow> bool" where
  "mirrors h s c \<longleftrightarrow> owner c = None \<and> (\<exists>n. ncbs s h = Some n \<and> sender h n (queue c) (pend c)
     \<and> tcp_sender_list_size n = cached c \<and> posted c = sends_of (sockfd n) (trace s))"

lemma mirrors_pend: "creach c \<Longrightarrow> mirrors h s c \<Longrightarrow> pend c = 0 \<or> pend c = 1"
  using creach_cinv [of c] by (auto simp: mirrors_def cinv_def own_pc_def split: if_splits)

text \<open>What one thread does in the concurrent model, by its cases.\<close>

lemma goto_twice [simp]: "goto t p (goto t q c) = goto t p c"
  by (simp add: goto_def)

lemma goto_upd:
  "goto t p (c\<lparr>owner := a\<rparr>) = (goto t p c)\<lparr>owner := a\<rparr>" "goto t p (c\<lparr>queue := b\<rparr>) = (goto t p c)\<lparr>queue := b\<rparr>"
  "goto t p (c\<lparr>cached := i\<rparr>) = (goto t p c)\<lparr>cached := i\<rparr>"
  "goto t p (c\<lparr>pend := d\<rparr>) = (goto t p c)\<lparr>pend := d\<rparr>" "goto t p (c\<lparr>in_flight := e\<rparr>) = (goto t p c)\<lparr>in_flight := e\<rparr>"
  "goto t p (c\<lparr>posted := f\<rparr>) = (goto t p c)\<lparr>posted := f\<rparr>" "goto t p (c\<lparr>taken := g\<rparr>) = (goto t p c)\<lparr>taken := g\<rparr>"
  by (simp_all add: goto_def)

text \<open>A thread at the increment finds the slot taken; a worker looks at the queue.\<close>

lemma run_wait:
  assumes "pcs c t = Inc" "pend c = 1"
  shows "(own_step t packet)\<^sup>+\<^sup>+ c (goto t Idle (c\<lparr>owner := None\<rparr>))"
proof -
  let ?c1 = "goto t Dec (c\<lparr>pend := 2\<rparr>)" and ?c2 = "goto t Leave c"
  have "tstep t c ?c1" using t_inc [of c t] assms by simp
  moreover have "tstep t ?c1 ?c2" using t_dec [of ?c1 t] assms by (cases c) (simp add: goto_def)
  moreover have "tstep t ?c2 (goto t Idle (c\<lparr>owner := None\<rparr>))" using t_leave [of ?c2 t] by (simp add: goto_def)
  ultimately show ?thesis by (meson go tranclp.r_into_trancl tranclp_trans)
qed

lemma run_look:
  assumes "pcs c t = CEnter" "owner c = None"
  shows "(own_step t packet)\<^sup>+\<^sup>+ c (if queue c = [] then goto t Idle c else goto t Inc (c\<lparr>owner := Some t\<rparr>))"
proof -
  let ?c1 = "goto t CLook (c\<lparr>owner := Some t\<rparr>)"
  let ?c2 = "goto t (if queue c = [] then Leave else Inc) (c\<lparr>owner := Some t\<rparr>)"
  have "tstep t c ?c1" using t_centry [of c t] assms by simp
  moreover have "tstep t ?c1 ?c2" using t_clook [of ?c1 t] by (simp add: goto_def)
  ultimately have r: "(own_step t packet)\<^sup>+\<^sup>+ c ?c2" by (meson go tranclp.r_into_trancl tranclp_trans)
  show ?thesis
  proof (cases "queue c = []")
    case True
    then have "tstep t ?c2 (goto t Idle c)" using t_leave [of ?c2 t] assms(2) by (cases c) (simp add: goto_def)
    with r True show ?thesis by (simp add: go tranclp.trancl_into_trancl)
  qed (use r in simp)
qed

text \<open>A writer that finds the queue full counts itself in and out, and leaves.\<close>

lemma run_full:
  assumes "pcs c t = Idle" "owner c = None" "\<not> cached c < 499"
  shows "(own_step t (Some p))\<^sup>+\<^sup>+ c c"
proof -
  let ?c1 = "goto t (WEnter p) c"
  let ?c2 = "goto t (WCount p) (c\<lparr>owner := Some t\<rparr>)"
  let ?c3 = "goto t WUndo (c\<lparr>owner := Some t, cached := cached c + 1\<rparr>)"
  let ?c4 = "goto t Leave (c\<lparr>owner := Some t\<rparr>)"
  have "own_step t (Some p) c ?c1" using enter [of "Some p" p c t] assms by simp
  moreover have "tstep t ?c1 ?c2" using t_wenter [of ?c1 t p] assms by (simp add: goto_def)
  moreover have "tstep t ?c2 ?c3" using t_wcount [of ?c2 t p] assms
    by (simp add: goto_def TCP_MAXIMUM_SENDER_CACHED_CNT_PRE_LINK_def)
  moreover have "tstep t ?c3 ?c4" using t_wundo [of ?c3 t] by (cases c) (simp add: goto_def)
  moreover have "goto t Idle (?c4\<lparr>owner := None\<rparr>) = c" using assms by (cases c) (simp add: goto_def fun_upd_idem)
  then have "tstep t ?c4 c" using t_leave [of ?c4 t] by simp
  ultimately show ?thesis by (meson go tranclp.r_into_trancl tranclp_trans)
qed

subsection \<open>The simulation\<close>

text \<open>The abstract effect of a whole call: what the thread leaves behind.\<close>

definition after_write :: "nat \<Rightarrow> pp \<Rightarrow> conf \<Rightarrow> conf" where
  "after_write t packet c =
     (case packet of
        Some p \<Rightarrow>
          if \<not> length (queue c) < 499 then c
          else if pend c = 1 then c\<lparr>cached := cached c + 1, queue := queue c @ [p], taken := taken c @ [p]\<rparr>
          else c\<lparr>pend := 1, queue := tl (queue c @ [p]), in_flight := in_flight c @ [hd (queue c @ [p])],
            posted := posted c @ [hd (queue c @ [p])], taken := taken c @ [p]\<rparr>
      | None \<Rightarrow>
          if queue c = [] \<or> pend c = 1 then goto t Idle c
          else goto t Idle (c\<lparr>pend := 1, cached := cached c - 1, queue := tl (queue c), in_flight := in_flight c @ [hd (queue c)],
            posted := posted c @ [hd (queue c)]\<rparr>))"

lemma after_write_run:
  assumes "pcs c t = (case packet of Some p \<Rightarrow> Idle | None \<Rightarrow> CEnter)" "owner c = None" "pend c = 0 \<or> pend c = 1"
    and "cached c = int (length (queue c))"
  shows "(own_step t packet)\<^sup>+\<^sup>+ c (after_write t packet c)"
proof (cases packet)
  case None
  then have l: "(own_step t packet)\<^sup>+\<^sup>+ c (if queue c = [] then goto t Idle c else goto t Inc (c\<lparr>owner := Some t\<rparr>))"
    using run_look [of c t] assms by simp
  let ?c = "goto t Inc (c\<lparr>owner := Some t\<rparr>)"
  show ?thesis
  proof (cases "queue c")
    case (Cons x q)
    have "(own_step t packet)\<^sup>+\<^sup>+ ?c (after_write t packet c)"
    proof (cases "pend c = 1")
      case True
      then have "goto t Idle (?c\<lparr>owner := None\<rparr>) = after_write t packet c"
        using assms(2) None by (cases c) (simp add: after_write_def goto_def)
      with run_wait [of ?c t packet] True show ?thesis by simp
    next
      case False
      then have "goto t Idle (?c\<lparr>pend := 1, queue := q, cached := cached ?c - 1, owner := None,
          in_flight := in_flight ?c @ [x], posted := posted ?c @ [x]\<rparr>) = after_write t packet c"
        using assms(2) None Cons by (cases c) (simp add: after_write_def goto_def)
      with run_out [of ?c t x q packet] False assms(3) Cons show ?thesis by simp
    qed
    with l Cons show ?thesis by simp
  qed (use l None in \<open>simp add: after_write_def\<close>)
next
  case (Some p)
  show ?thesis
  proof (cases "length (queue c) < 499")
    case True
    let ?c = "goto t Inc (c\<lparr>owner := Some t, cached := cached c + 1, queue := queue c @ [p], taken := taken c @ [p]\<rparr>)"
    have r: "(own_step t packet)\<^sup>+\<^sup>+ c ?c" using run_in [of c t p] True assms Some by simp
    obtain x q where x: "queue c @ [p] = x # q" by (cases "queue c @ [p]") auto
    have i: "(pcs c)(t := Idle) = pcs c" using assms(1) Some by (simp add: fun_upd_idem)
    have "(own_step t packet)\<^sup>+\<^sup>+ ?c (after_write t packet c)"
    proof (cases "pend c = 1")
      case True
      then have "goto t Idle (?c\<lparr>owner := None\<rparr>) = after_write t packet c"
        using assms(2) \<open>length (queue c) < 499\<close> Some i by (cases c) (simp add: after_write_def goto_def)
      with run_wait [of ?c t packet] True show ?thesis by simp
    next
      case False
      then have "goto t Idle (?c\<lparr>pend := 1, queue := q, cached := cached ?c - 1, owner := None,
          in_flight := in_flight ?c @ [x], posted := posted ?c @ [x]\<rparr>) = after_write t packet c"
        using assms(2) True Some x i by (cases c) (simp add: after_write_def goto_def)
      with run_out [of ?c t x q packet] False assms(3) x show ?thesis by simp
    qed
    with r show ?thesis by simp
  qed (use Some run_full [of c t p] assms in \<open>simp add: after_write_def\<close>)
qed

text \<open>The head of the queue is sent.\<close>

lemma try_write_send_mirrors:
  assumes "ncbs s h = Some n" "sender h n (queue c) 0" "posted c = sends_of (sockfd n) (trace s)" "owner c = None"
    and "case packet of Some p \<Rightarrow> length (queue c) < 499 | None \<Rightarrow> True"
    and q: "queue c @ (case packet of Some p \<Rightarrow> [p] | None \<Rightarrow> []) = x # q"
    and "serving E h" "sending E" "owns h s (x, b, bs)"
    and c': "owner c' = None" "queue c' = q" "pend c' = 1" "posted c' = posted c @ [x]" "cached c' = int (length q)"
  shows "\<exists>s'. tcp_try_write E (Some h) packet s = Some (0, s') \<and> mirrors h s' c'"
proof -
  let ?n = "n\<lparr>tcp_sender_cache_head := Some q, tcp_sender_list_size := int (length q), tcp_write_pending := 1\<rparr>"
  let ?s = "set_ncb h ?n s"
  have "length q \<le> length (queue c) \<and> (packet = None \<longrightarrow> length q < length (queue c))"
    using arg_cong [OF q, of length] by (cases packet) auto
  then have "length q < 500" using assms(2) by (simp add: sender_def)
  then have n: "sender h ?n q 1" "hld ?n = h" using assms(2) by (simp_all add: sender_def)
  have "owns h ?s (x, b, bs)" using assms(9) by (simp add: owns_def)
  from asio_tcp_send_serving [OF assms(7,8) this _ n(2)] obtain s' where s': "asio_tcp_send E (Some x) ?s = Some (0, s')"
    "same_store ?s s'" "requests (trace s') = requests (trace ?s) @ [I_WSASend (sockfd ?n) x bs]" by auto
  have "tcp_try_write E (Some h) packet s = Some (0, s')"
    using try_write_send [OF assms(1,2,5) q, of E] s'(1) by simp
  moreover have "sends_of (sockfd n) (trace s') = sends_of (sockfd n) (trace s) @ [x]"
    using s'(3) by (intro sends_of_snoc(1)) simp
  ultimately show ?thesis using s'(2) n(1) c' assms(3) by (auto simp: mirrors_def same_store_def)
qed

text \<open>A completion that finds another send in progress.\<close>

lemma try_write_busy:
  assumes "ncbs s h = Some n" "sender h n q 1" "q \<noteq> []"
  shows "tcp_try_write E (Some h) None s = Some (0, s)"
  using assms
  by (cases n) (simp add: tcp_try_write_def EnterCriticalSection_def LeaveCriticalSection_def
        try_enqueue_def sender_def write_slot_taken set_ncb_id)

text \<open>
  C15. The concurrent model and the translated code agree: in every reachable configuration, a call
  of \<open>tcp_try_write\<close> with a new packet, or with NULL after a completion, that nothing
  interrupts is a run of the steps of its thread; it ends with the thread idle, with the packet
  taken exactly when the call returns 0, and with the queue, the pending count and the packets
  given to Winsock as the steps leave them.
\<close>

theorem try_write_is_a_run:
  assumes "creach c" "mirrors h s c" "pcs c t = (case packet of Some p \<Rightarrow> Idle | None \<Rightarrow> CEnter)"
    and "serving E h" "sending E"
    and "\<forall>x \<in> set (queue c @ (case packet of Some p \<Rightarrow> [p] | None \<Rightarrow> [])). \<exists>b bs. owns h s (x, b, bs)"
  shows "\<exists>r s' c'. tcp_try_write E (Some h) packet s = Some (r, s')
    \<and> cstep\<^sup>*\<^sup>* c c' \<and> (own_step t packet)\<^sup>+\<^sup>+ c c' \<and> mirrors h s' c' \<and> pcs c' = (pcs c)(t := Idle)
    \<and> taken c' = taken c @ (case packet of Some p \<Rightarrow> if r = 0 then [p] else [] | None \<Rightarrow> [])"
proof -
  obtain n where n: "ncbs s h = Some n" "sender h n (queue c) (pend c)" "posted c = sends_of (sockfd n) (trace s)"
    and o: "owner c = None" and z: "cached c = int (length (queue c))"
    using assms(2) by (auto simp: mirrors_def sender_def)
  have p: "pend c = 0 \<or> pend c = 1" using mirrors_pend [OF assms(1,2)] .
  let ?c = "after_write t packet c"
  note run = after_write_run [OF assms(3) o p z]
  have pcs: "pcs ?c = (pcs c)(t := Idle)" using assms(3)
    by (auto simp: after_write_def goto_def fun_upd_idem split: option.splits)
  have ow: "owner ?c = None" using o by (auto simp: after_write_def split: option.splits)
  have result: ?thesis if "tcp_try_write E (Some h) packet s = Some (r, s')" "mirrors h s' ?c"
    "taken ?c = taken c @ (case packet of Some p \<Rightarrow> if r = 0 then [p] else [] | None \<Rightarrow> [])" for r s'
    using that run own_run [OF run] pcs by blast
  consider (quiet) "packet = None" "queue c = []" | (full) p where "packet = Some p" "\<not> length (queue c) < 499"
    | (busy) "packet = None" "queue c \<noteq> []" "pend c = 1"
    | (wait) p where "packet = Some p" "length (queue c) < 499" "pend c = 1"
    | (send) "pend c = 0" "queue c @ (case packet of Some p \<Rightarrow> [p] | None \<Rightarrow> []) \<noteq> []"
        "case packet of Some p \<Rightarrow> length (queue c) < 499 | None \<Rightarrow> True"
    using p by (cases packet) auto
  then show ?thesis
  proof cases
    case quiet
    have "mirrors h s ?c" using quiet n o by (auto simp: mirrors_def sender_def z after_write_def)
    with quiet try_write_empty [of s h n "pend c" E] n(1,2) show ?thesis
      by (intro result [of "- 1" s]) (simp_all add: after_write_def)
  next
    case full
    have "mirrors h s ?c" using full n o by (auto simp: mirrors_def sender_def z after_write_def)
    with full try_write_refuse [OF n(1,2) full(2)] show ?thesis
      by (intro result [of "- 1" s]) (simp_all add: after_write_def)
  next
    case busy
    have "mirrors h s ?c" using busy n o by (auto simp: mirrors_def sender_def z after_write_def)
    with busy try_write_busy [of s h n "queue c" E] n(1,2) show ?thesis
      by (intro result [of 0 s]) (simp_all add: after_write_def)
  next
    case wait
    let ?n = "n\<lparr>tcp_sender_cache_head := Some (queue c @ [p]), tcp_sender_list_size := int (length (queue c)) + 1\<rparr>"
    have "sender h ?n (queue c @ [p]) 1" using n(2) wait by (simp add: sender_def)
    then have "mirrors h (set_ncb h ?n s) ?c" using wait n o by (auto simp: mirrors_def sender_def z after_write_def)
    with wait try_write_wait [of s h n "queue c" E p] n(1,2) show ?thesis
      by (intro result [of 0 "set_ncb h ?n s"]) (simp_all add: after_write_def)
  next
    case send
    then obtain x q where x: "queue c @ (case packet of Some p \<Rightarrow> [p] | None \<Rightarrow> []) = x # q"
      by (meson neq_Nil_conv)
    then obtain b bs where "owns h s (x, b, bs)" using assms(6) by fastforce
    moreover have "sender h n (queue c) 0" using n(2) send(1) by simp
    moreover have "queue ?c = q" "pend ?c = 1" "posted ?c = posted c @ [x]"
        "taken ?c = taken c @ (case packet of Some p \<Rightarrow> [p] | None \<Rightarrow> [])"
      using send x by (cases packet; simp add: after_write_def)+
    moreover have "cached ?c = int (length q)"
    proof (cases packet)
      case (Some p)
      then show ?thesis using send z arg_cong [OF x, of length] by (simp add: after_write_def)
    qed (use send x z in \<open>simp add: after_write_def\<close>)
    ultimately obtain s' where "tcp_try_write E (Some h) packet s = Some (0, s')" "mirrors h s' ?c"
      using try_write_send_mirrors [OF n(1) _ n(3) o send(3) x assms(4,5)] ow by blast
    then show ?thesis using \<open>taken ?c = _\<close> by (intro result [of 0 s']) (simp_all split: option.splits)
  qed
qed

text \<open>An idle link and a packet that \<open>tcp_write\<close> has built for it.\<close>

definition w_idle :: st where
  "w_idle = (w_busy 0)\<lparr>ncbs := [7 \<mapsto> w_ncb]\<rparr>"

lemma try_write_is_a_run_witness:
  "\<exists>r s' c'. tcp_try_write w_env (Some 7) (Some 0) w_idle = Some (r, s') \<and> cstep\<^sup>*\<^sup>* start c' \<and> mirrors 7 s' c'
    \<and> pcs c' 0 = Idle"
proof -
  have "mirrors 7 w_idle start"
    by (simp add: mirrors_def sender_def start_def w_idle_def w_busy_def w_st_def w_ncb_def ncb_zero_def sends_of_def)
  moreover have "owns 7 w_idle (0, 1, [42])"
    by (simp add: owns_def w_idle_def w_busy_def w_st_def w_pkt_def packet_init_def)
  then have "\<forall>x \<in> set (queue start @ (case Some 0 of Some p \<Rightarrow> [p] | None \<Rightarrow> [])). \<exists>b bs. owns 7 w_idle (x, b, bs)"
    by (auto simp: start_def)
  moreover have "pcs start 0 = (case Some (0 :: nat) of Some p \<Rightarrow> Idle | None \<Rightarrow> CEnter)" by (simp add: start_def)
  ultimately obtain r s' c' where "tcp_try_write w_env (Some 7) (Some 0) w_idle = Some (r, s')" "cstep\<^sup>*\<^sup>* start c'"
    "mirrors 7 s' c'" "pcs c' = (pcs start)(0 := Idle)"
    using try_write_is_a_run [OF creach_start _ _ w_env_ok(2,4)] by blast
  then show ?thesis by auto
qed

end
