(* ===== verification/Spec2Isabelle.thy ===== *)
theory Spec2Isabelle
  imports Listen_Props Tcp_Raw Sender_Link
begin

text \<open>
  A development for nshost, the Windows implementation of the swnet network library: TCP and UDP
  links on I/O completion ports, and ARP requests.

  \<^bold>\<open>The program.\<close> A link is an object of the object manager of \<open>libnsp\<close>, known to its user by a
  handle; its state is a control block, \<open>ncb_t\<close> (\<open>ncb.h\<close>). A transfer is a request packet,
  \<open>packet_t\<close> (\<open>packet.h\<close>), that Winsock gets together with a buffer. The system reports the end
  of a transfer to one of the completion ports that \<open>io.c\<close> opens, one per processor; the worker
  of the port hands it to \<open>so_dispatch_io_event\<close> (\<open>network.c\<close>), which calls the handler of the
  protocol in \<open>tcp.c\<close> or \<open>udp.c\<close>. Handlers and exported functions take a reference on the link,
  work on it, tell the user of events through its callback, and release the reference; the last
  release of a closed link runs its unload routine. On a TCP link a protocol template (header
  size, parser, builder) cuts the byte stream into packets, and a queue orders the sends, of
  which at most one is in flight.

  \<^bold>\<open>The embedding.\<close> C functions are HOL functions on an explicit state \<open>st\<close> (\<open>World\<close>): memory as
  a map from block numbers to typed objects, control blocks by handle, the global variables, and
  the history of all calls and events. \<open>None\<close> is undefined behaviour (use after free, NULL or
  out-of-bounds access, a failed \<open>assert\<close>, signed overflow) or an execution that does not return;
  error codes are values. Everything outside the repository is the record \<open>env\<close>, which answers
  each call as a function of the whole history: Windows, Winsock, the object manager, the atomic
  macros of \<open>libnsp\<close>, the constants of \<open>nis.h\<close> and the callbacks of the user. Nothing is assumed
  of it besides the hypotheses of a theorem: \<open>steady\<close>, \<open>serving\<close> (references are granted and
  releases are not the last one), \<open>mallocs\<close>, \<open>allocating\<close> (memory is to be had), \<open>receiving\<close>,
  \<open>sending\<close> (a request is accepted or pending), \<open>fresh_ref\<close> (a new object can be referenced),
  \<open>grants\<close>, \<open>offering\<close> (handles, sockets and bindings are to be had), \<open>ports_ready\<close>,
  \<open>takes_over\<close>, \<open>accepts\<close>, \<open>pages_ok\<close> (reserved pages can be committed and released), \<open>quota_settles\<close>, \<open>interrupts_settle\<close> (a bad answer is not given for
  ever). \<open>Witness\<close> gives an environment in which they hold. Ports and addresses are words of 16 and 32 bits, counters of the Interlocked
  family wrap (\<open>i32\<close>), \<open>int\<close> arithmetic that can overflow is checked (\<open>int32\<close>). Loops that
  need not end are \<open>partial_function (option)\<close>; no fuel is used anywhere, and where a property
  says what a function returns, it says that it returns.

  \<^bold>\<open>The theories and the code they model.\<close>
  \<^item> \<open>Prelude\<close>, \<open>World\<close>, \<open>Trace\<close>: machine integers, the records of \<open>ncb.h\<close> and \<open>packet.h\<close>,
    memory, the boundary, views of the history.
  \<^item> \<open>Os\<close> (\<open>os.c\<close>), \<open>Packet\<close> and \<open>Asio\<close> (\<open>packet.c\<close>), \<open>Ncb\<close> (\<open>ncb.c\<close>), \<open>Io\<close> (\<open>io.c\<close>),
    \<open>Objects\<close> (the unload routines and the calls of the object manager), \<open>Sockets\<close>
    and \<open>Network\<close> (\<open>network.c\<close>, the loop of a worker in \<open>io.c\<close>), \<open>Arp\<close> (\<open>arp.c\<close>),
    \<open>Udp\<close> and \<open>Udp_Group\<close> (\<open>udp.c\<close>), \<open>Mxx\<close> (\<open>mxx.c\<close>).
  \<^item> \<open>Tcp_Link\<close> (creation, templates, options), \<open>Tcp_Accept\<close>, \<open>Tcp_Send\<close>, \<open>Tcp_Recv\<close> and
    \<open>Tcp_Conn\<close>: all of \<open>tcp.c\<close>. A long C function is several definitions, one for each block or
    loop, named after it and mapped to its lines.
  \<^item> \<open>Sender_Conc\<close>: \<open>tcp_try_write\<close> and the completions of sends as a step relation of any
    number of threads, one step for each line that touches shared state, with sends that fail,
    completions that shut the link down and a link that is closed at any moment; \<open>Sender_Link\<close>
    shows that the uninterrupted runs of one thread are the calls of the definition in \<open>Tcp_Send\<close>.

  \<^bold>\<open>What is proved.\<close>
  \<^item> Receiving. \<open>Framing\<close> specifies the stream as a sequence of frames (locale
    \<open>stream_decoder\<close>: decoding can be resumed at any cut). \<open>Tcp_Recv_Correct\<close>, \<open>Tcp_Recv_Inv\<close>,
    \<open>Tcp_Recv_Step\<close> and \<open>Tcp_Recv_Main\<close> show that the parse loop, the large-block buffer and
    the completion handler compute it: \<open>rx_inv\<close> ties the state of a link between two
    completions to the bytes not delivered yet. \<open>Tcp_Raw\<close> does the same for a link without a
    template, whose bytes go to the user as they come.
  \<^item> Sending. \<open>Tcp_Send_Queue\<close>, \<open>Tcp_Send_Correct\<close>, \<open>Tcp_Write\<close> and \<open>Tcp_Channel\<close> show that
    writes and completions refine a bounded FIFO channel (\<open>tx_inv\<close>); \<open>Sender_Conc\<close> shows for
    every interleaving that one send at most is in flight, that the order is kept and that no
    wake-up is lost: when the user stops calling and the system serves, every run of steps ends,
    within \<open>drain_rank\<close> steps, with all that was queued given to the system. \<open>Tcp_End_To_End\<close> composes both ends, which is the first property below.
  \<^item> References. \<open>Refs\<close> (locale \<open>typed_ref\<close>, interpreted for the three protocols), \<open>Balance\<close>,
    \<open>Balance_Net\<close> and \<open>System\<close>: whatever the platform answers, no exported function and no
    completion changes the number of references held, but for the three operations that keep the
    one they take (a wake-up, the dispatch of its pipe event, an unknown command of \<open>nis_cntl\<close>);
    a session of any calls and completions holds what it held at the start plus these.
  \<^item> Life of a link. \<open>Net_Props\<close> (creation, start and stop, ports, workers), \<open>Conn_Props\<close>
    (connect, overlapped connect and accept end in \<open>rx_inv\<close>), \<open>Listen_Props\<close> (a listener has the
    accept requests it was asked for, and one that completes is replaced), \<open>Life_Props\<close>
    (packets, unloading, locking of memory), \<open>Link_Props\<close> (settings read back, wake-ups),
    \<open>Udp_Props\<close> (datagrams, groups).
  \<^item> Termination. The loops of the receiver are bounded by the data. Two loops are bounded by
    nothing but the answers of the system: \<open>Loops\<close> (locale \<open>settling_loop\<close>, interpreted for the
    loop that locks memory in \<open>Life_Props\<close> and for the loop that sends a datagram in \<open>Udp_Props\<close>)
    shows that they return once these settle, and lemmas there that they do not otherwise.
  \<^item> Defects. Where the code does not do what it means to, the property states what it does:
    a template that is not set, references that are kept, a context that is freed twice, a
    shutdown that ignores TCP, a failed creation that enters an uninitialised lock, loops
    without bound.

  \<^bold>\<open>Not modelled.\<close> The object manager, the lists, the atomic macros and the system wrappers of
  \<open>libnsp\<close> are not in the repository. Log lines (\<open>nis_call_ecr\<close>) are modelled as the function
  itself and left out of its callers: they change nothing the program reads. Besides the sender,
  whose steps interleave, handlers are atomic, because a link belongs to one port and one worker
  (\<open>Net_Props\<close>). The memory of the fixed arrays in \<open>mxx.c\<close> (host names, adapter
  information) is a value, not an address. Inline header code that only declares, build files
  and the version resource carry no logic.
\<close>

text \<open>
  C1. End to end: the data a program writes on its link (the accepted writes, in order) is the
  data the user of the other end receives, piece by piece, for every way in which TCP cuts the
  bytes into completions, as long as the protocol templates of the two ends fit together. What
  is not delivered yet still waits in the queue of the sender.
\<close>

theorem link_end_to_end:
  assumes "tx_inv h n None [] s" "serving E h" "sending E" "allocating E" "h \<noteq> INVALID_HTCPLINK (e_nis E)"
    and "\<forall>x \<in> set xs. data_ok x"
    and "rx_inv F cb g m p [] t" "mallocs F" "serving F g" "receiving F" "nis_callback m \<noteq> 0"
    and "attr m AND LINKATTR_TCP_FULLY_RECEIVE (e_nis F) = 0" and "templates E n F m cb"
  shows "\<exists>rs s' net k. tx_run E h xs s = Some (rs, s')
    \<and> sends (requests (trace s')) = sends (requests (trace s)) @ net
    \<and> k + length (waiting (snd (chan_run (frame_of E n) xs \<lparr>sent = [], waiting = [], busy = False\<rparr>)))
        = length (accepted_data xs rs)
    \<and> (\<forall>ws. length (concat net) \<le> length ws \<longrightarrow> (\<exists>t'. rx_run F p ws (concat net) t = Some ([], t')
         \<and> events (trace t') = events (trace t)
             @ map (\<lambda>d. EvRecv g (int (length d)) d) (take k (accepted_data xs rs))))"
  using assms by (rule end_to_end)

lemma link_end_to_end_witness:
  "\<exists>rs s' net k. tx_run w_env 7 [Write [1], Write [2, 3], Done] w_tx = Some (rs, s')
    \<and> sends (requests (trace s')) = net \<and> k + 0 = length (accepted_data [Write [1], Write [2, 3], Done] rs)
    \<and> (\<forall>ws. length (concat net) \<le> length ws \<longrightarrow> (\<exists>t'. rx_run w_env 0 ws (concat net) w_rx = Some ([], t')
         \<and> events (trace t') = map (\<lambda>d. EvRecv 7 (int (length d)) d)
             (take k (accepted_data [Write [1], Write [2, 3], Done] rs))))"
proof -
  have t: "templates w_env w_ncb w_env w_ncb 4"
    by (simp add: templates_def w_env_def w_nis_def w_ncb_def ncb_zero_def w_header_def MAX_value)
      (simp add: w_size_header [unfolded w_header_def, simplified])
  have "7 \<noteq> INVALID_HTCPLINK (e_nis w_env)" "nis_callback w_ncb \<noteq> 0"
    "attr w_ncb AND LINKATTR_TCP_FULLY_RECEIVE (e_nis w_env) = 0"
    by (simp_all add: w_env_def w_nis_def w_ncb_def ncb_zero_def)
  moreover have "\<forall>x \<in> set [Write [1 :: byte], Write [2, 3], Done]. data_ok x" by (simp add: MAX_value)
  ultimately show ?thesis
    using link_end_to_end [OF w_tx_inv w_env_ok(2,4,5) _ _ w_rx_inv w_env_ok(1-3) _ _ t,
        of "[Write [1], Write [2, 3], Done]"]
    by (simp add: w_tx_def w_rx_def w_st_def)
qed

end
